theory Spec2Isabelle
  imports Complex_Main
begin

section \<open>Numbers, randomness and the clock\<close>

text \<open>
  The benchmark (\<^verbatim>\<open>src/main.js\<close>) computes with JavaScript numbers: IEEE 754 binary64
  values, every operation rounded to the nearest value, ties to the even one. The slots of
  a \<^verbatim>\<open>Float32Array\<close> hold binary32 values: a store rounds once more.

  \<open>rne\<close> rounds a real to the nearest integer, ties to even. \<open>fl p emin\<close> rounds a
  real to the nearest number with \<open>p\<close> significant bits whose unit in the last place is
  at least \<open>2 ^ emin\<close>: the unit of \<open>x\<close> is \<open>2 ^ quantum p emin x\<close>. The exponent is
  not bounded above: where a result can overflow, the model says so at that place.
  \<open>fl64\<close> is the rounding of a binary64 operation (53 bits, least unit \<open>2 ^ -1074\<close>) and
  \<open>fround\<close> that of a store into a \<^verbatim>\<open>Float32Array\<close> (24 bits, least unit \<open>2 ^ -149\<close>,
  \<^verbatim>\<open>Math.fround\<close>). Zero has no sign in the model.

  Rounding is modelled where the code tests a computed number or where a property below
  speaks about one: the positions and velocities of the particle field, the life of an
  explosion, the chance of one, the shake intensity, the frame time, the elapsed time and
  the average of \<^verbatim>\<open>finishBenchmark\<close>.
  The other quantities (colours, angles, the paths of cubes, lights and camera, the
  motion of the particles of an explosion) are exact reals: nothing but what is drawn
  depends on them.
\<close>

definition rne :: "real \<Rightarrow> int" where
  "rne x =
     (let f = \<lfloor>x\<rfloor>; d = x - of_int f
      in if d < 1 / 2 then f
         else if 1 / 2 < d then f + 1
         else if even f then f else f + 1)"

definition quantum :: "int \<Rightarrow> int \<Rightarrow> real \<Rightarrow> int" where
  "quantum p emin x = max (\<lfloor>log 2 \<bar>x\<bar>\<rfloor> - p + 1) emin"

definition fl :: "int \<Rightarrow> int \<Rightarrow> real \<Rightarrow> real" where
  "fl p emin x =
     (if x = 0 then 0
      else of_int (rne (x / 2 powr of_int (quantum p emin x)))
             * 2 powr of_int (quantum p emin x))"

definition fl64 :: "real \<Rightarrow> real" where
  "fl64 x = fl 53 (- 1074) x"

definition fround :: "real \<Rightarrow> real" where
  "fround x = fl 24 (- 149) x"

text \<open>
  The one place where the non-finite values of a double matter is the division
  \<^verbatim>\<open>frameCount / totalTime\<close> of \<^verbatim>\<open>finishBenchmark\<close>, whose divisor can be zero and whose
  quotient can overflow; its result is a \<open>jsnum\<close>.
\<close>

datatype jsnum = Finite real | PosInfinity | NegInfinity | NaN

text \<open>
  \<^verbatim>\<open>a / b\<close> for finite operands: the rounded quotient, an infinity when that reaches
  \<open>2 ^ 1024\<close>; the divisor is \<open>+0\<close> when it is zero.
\<close>

definition js_div :: "real \<Rightarrow> real \<Rightarrow> jsnum" where
  "js_div a b =
     (if b \<noteq> 0
      then (if 2 ^ 1024 \<le> fl64 (a / b) then PosInfinity
            else if fl64 (a / b) \<le> - (2 ^ 1024) then NegInfinity
            else Finite (fl64 (a / b)))
      else if a = 0 then NaN
      else if 0 < a then PosInfinity
      else NegInfinity)"

text \<open>\<^verbatim>\<open>v > c\<close> for a finite \<open>c\<close>: every comparison with NaN is false.\<close>

fun js_gt :: "jsnum \<Rightarrow> real \<Rightarrow> bool" where
  "js_gt (Finite v) c = (c < v)"
| "js_gt PosInfinity c = True"
| "js_gt NegInfinity c = False"
| "js_gt NaN c = False"

text \<open>\<^verbatim>\<open>a % b\<close> for \<open>b \<noteq> 0\<close>: the remainder of the division truncated towards zero.\<close>

definition js_rem :: "real \<Rightarrow> real \<Rightarrow> real" where
  "js_rem a b =
     a - b * real_of_int (if 0 \<le> a / b then \<lfloor>a / b\<rfloor> else \<lceil>a / b\<rceil>)"

text \<open>
  \<^verbatim>\<open>Math.random()\<close> and \<^verbatim>\<open>performance.now()\<close> are the two sources of input that the
  code reads while it runs. Each is a sequence of readings; the state counts how many
  have been consumed (\<open>rngCalls\<close>, \<open>clockCalls\<close>), so that the \<open>k\<close>-th call anywhere in
  the program gets the \<open>k\<close>-th reading.
\<close>

record env =
  math_random :: "nat \<Rightarrow> real"
  performance_now :: "nat \<Rightarrow> real"

text \<open>The contract of \<^verbatim>\<open>Math.random()\<close>: a value in \<open>[0, 1)\<close>.\<close>

definition rng_ok :: "env \<Rightarrow> bool" where
  "rng_ok e = (\<forall>k. 0 \<le> math_random e k \<and> math_random e k < 1)"

section \<open>The counting loop\<close>

text \<open>
  \<^verbatim>\<open>for (let i = i0; i < n; i += step) body\<close>, with the loop's effect as a function of
  the index and the data it mutates. Every counting loop of the source has step 1 or 3.
\<close>

function for_loop :: "nat \<Rightarrow> nat \<Rightarrow> (nat \<Rightarrow> 'a \<Rightarrow> 'a) \<Rightarrow> nat \<Rightarrow> 'a \<Rightarrow> 'a" where
  "for_loop step n body i st =
     (if i < n \<and> 0 < step then for_loop step n body (i + step) (body i st) else st)"
  by pat_completeness auto
termination
  by (relation "measure (\<lambda>(step, n, body, i, st). n - i)") auto

declare for_loop.simps [simp del]

section \<open>Data model\<close>

record vec3 =
  vx :: real
  vy :: real
  vz :: real

text \<open>
  Every object handed to the rendering backend gets an identifier from the counter
  \<open>nextId\<close>; it stands for the JavaScript object reference, which is what
  \<^verbatim>\<open>scene.remove\<close> compares.
\<close>

text \<open>A cube: a \<^verbatim>\<open>THREE.Mesh\<close> with its \<^verbatim>\<open>userData\<close>.\<close>

record mesh =
  mesh_id :: nat
  geometry :: nat
  material_hue :: real
  position :: vec3
  rotation :: vec3
  rotationSpeed :: vec3
  osc_phase :: real
  osc_amplitude :: real

text \<open>
  A \<^verbatim>\<open>THREE.Points\<close>: the three flat attribute arrays (three slots per particle) and
  the material's size and opacity. An explosion is a \<^verbatim>\<open>THREE.Points\<close> whose
  \<^verbatim>\<open>userData\<close> is \<^verbatim>\<open>{ life, maxLife }\<close>.
\<close>

record points =
  points_id :: nat
  positions :: "real list"
  velocities :: "real list"
  colors :: "real list"
  point_size :: real
  opacity :: real

record explosion = points +
  life :: real
  maxLife :: real

datatype light_kind = AmbientLight | PointLight

record light_data =
  originalPosition :: vec3
  phase :: real
  speed :: real

record light =
  light_id :: nat
  light_type :: light_kind
  light_color :: nat
  light_intensity :: real
  light_distance :: real
  light_position :: vec3
  castShadow :: bool
  userData :: "light_data option"

record shake =
  shake_x :: real
  shake_y :: real
  intensity :: real

text \<open>One entry of \<^verbatim>\<open>qualitySettings\<close>.\<close>

record settings =
  s_cubes :: nat
  s_particles :: nat
  s_lights :: nat
  s_effects :: bool
  s_complexity :: nat

text \<open>
  The labels and emoji of \<^verbatim>\<open>finishBenchmark\<close>, in the order of its \<^verbatim>\<open>if\<close> chain:
  "BEAST MODE" (rocket), "HIGH-END" (bolt), "MID-RANGE" (gamepad), "BUDGET" (snail),
  "TOASTER" (fire).
\<close>

datatype perf = BEAST_MODE | HIGH_END | MID_RANGE | BUDGET | TOASTER

datatype emoji = Rocket | Bolt | Gamepad | Snail | Fire

text \<open>
  What \<^verbatim>\<open>finishBenchmark\<close> writes into the result box, before formatting
  (\<^verbatim>\<open>toFixed(1)\<close>, \<^verbatim>\<open>toUpperCase()\<close>). A count is \<open>None\<close> when the property read gives
  \<^verbatim>\<open>undefined\<close>.
\<close>

record report =
  avgFPS :: jsnum
  performance :: perf
  report_emoji :: emoji
  quality :: string
  report_cubes :: "nat option"
  report_particles :: "nat option"
  report_lights :: "nat option"
  duration :: real

text \<open>
  The two callbacks that \<^verbatim>\<open>startBenchmark\<close> hands to \<^verbatim>\<open>setTimeout\<close>: the outer one
  (after 2000 ms) schedules the bursts, the inner one spawns one explosion.
\<close>

datatype callback = ScriptedSequence | ScriptedBurst

datatype js_error = TypeError

record state =
  cubes :: "mesh list"
  lights :: "light list"
  frameCount :: nat
  totalTime :: real
  running :: bool
  startTime :: real
  particleSystem :: "points option"
  explosionParticles :: "explosion list"
  cameraShake :: shake
  lastTime :: "real option"
  scene :: "nat list"
  disposed :: "nat list"
  scene_rotation :: vec3
  camera_position :: vec3
  fog :: "(real \<times> real) option"
  resultBox_display :: bool
  resultBox_content :: "report option"
  ui_display :: bool
  qualitySelect :: string
  pendingFrames :: nat
  timers :: "(nat \<times> callback) list"
  rngCalls :: nat
  clockCalls :: nat
  nextId :: nat

text \<open>
  \<open>scene\<close> is the list of children of the \<^verbatim>\<open>THREE.Scene\<close>; \<open>disposed\<close> logs the
  objects whose geometry and material were passed to \<^verbatim>\<open>dispose()\<close>; \<open>lastTime\<close> is
  \<^verbatim>\<open>animate.lastTime\<close>; \<open>pendingFrames\<close> counts the callbacks queued by
  \<^verbatim>\<open>requestAnimationFrame\<close> and \<open>timers\<close> lists the pending \<^verbatim>\<open>setTimeout\<close> callbacks
  with their delays in milliseconds; \<open>qualitySelect\<close> is \<^verbatim>\<open>qualitySelect.value\<close>.
\<close>

definition maxTime :: real where
  "maxTime = 30"

section \<open>The quality table\<close>

definition insane :: settings where
  "insane = \<lparr>s_cubes = 2000, s_particles = 20000, s_lights = 25, s_effects = True,
     s_complexity = 4\<rparr>"

text \<open>
  \<^verbatim>\<open>qualitySettings[quality]\<close> is a property read on an object literal with the single own
  key \<^verbatim>\<open>insane\<close>. A name that the object inherits from \<^verbatim>\<open>Object.prototype\<close> reads as a
  function or object, every other name as \<^verbatim>\<open>undefined\<close>.
\<close>

datatype tier_entry = Undefined | Inherited | Tier settings

definition object_prototype_keys :: "string list" where
  "object_prototype_keys =
     [''constructor'', ''hasOwnProperty'', ''isPrototypeOf'', ''propertyIsEnumerable'',
      ''toLocaleString'', ''toString'', ''valueOf'', ''__proto__'', ''__defineGetter__'',
      ''__defineSetter__'', ''__lookupGetter__'', ''__lookupSetter__'']"

definition qualitySettings :: "string \<Rightarrow> tier_entry" where
  "qualitySettings q =
     (if q = ''insane'' then Tier insane
      else if q \<in> set object_prototype_keys then Inherited
      else Undefined)"

text \<open>
  \<^verbatim>\<open>settings.cubes\<close> and its siblings: a \<^verbatim>\<open>TypeError\<close> on \<^verbatim>\<open>undefined\<close> (the callers
  branch on that case first), \<^verbatim>\<open>undefined\<close> on an inherited entry.
\<close>

fun get_prop :: "(settings \<Rightarrow> 'a) \<Rightarrow> tier_entry \<Rightarrow> 'a option" where
  "get_prop f (Tier st) = Some (f st)"
| "get_prop f Inherited = None"
| "get_prop f Undefined = None"

text \<open>
  A loop bound: \<^verbatim>\<open>i < undefined\<close> is false, so the loop body never runs, and
  \<^verbatim>\<open>new Float32Array(undefined * 3)\<close> has length 0.
\<close>

fun bound :: "nat option \<Rightarrow> nat" where
  "bound None = 0"
| "bound (Some n) = n"

section \<open>Colours\<close>

definition hue2rgb :: "real \<Rightarrow> real \<Rightarrow> real \<Rightarrow> real" where
  "hue2rgb p q t0 =
     (let t1 = (if t0 < 0 then t0 + 1 else t0);
          t2 = (if 1 < t1 then t1 - 1 else t1)
      in if t2 < 1 / 6 then p + (q - p) * 6 * t2
         else if t2 < 1 / 2 then q
         else if t2 < 2 / 3 then p + (q - p) * (2 / 3 - t2) * 6
         else p)"

definition hslToRgb :: "real \<Rightarrow> real \<Rightarrow> real \<Rightarrow> real \<times> real \<times> real" where
  "hslToRgb h s l =
     (if s = 0 then (l, l, l)
      else let q = (if l < 0.5 then l * (1 + s) else l + s - l * s);
               p = 2 * l - q
           in (hue2rgb p q (h + 1 / 3), hue2rgb p q h, hue2rgb p q (h - 1 / 3)))"

section \<open>Scene population\<close>

text \<open>\<^verbatim>\<open>scene.remove(o)\<close> deletes the first occurrence of the reference.\<close>

definition scene_remove :: "nat \<Rightarrow> nat list \<Rightarrow> nat list" where
  "scene_remove oid children = remove1 oid children"

definition clearScene :: "state \<Rightarrow> state" where
  "clearScene s =
     (let s1 = s\<lparr>scene := fold (\<lambda>cube. scene_remove (mesh_id cube)) (cubes s) (scene s),
                 disposed := disposed s @ map mesh_id (cubes s),
                 cubes := []\<rparr>;
          s2 = (case particleSystem s1 of
                  None \<Rightarrow> s1
                | Some ps \<Rightarrow>
                    s1\<lparr>scene := scene_remove (points_id ps) (scene s1),
                       disposed := disposed s1 @ [points_id ps],
                       particleSystem := None\<rparr>);
          s3 = s2\<lparr>scene := fold (\<lambda>sys. scene_remove (points_id sys))
                               (explosionParticles s2) (scene s2),
                  disposed := disposed s2 @ map points_id (explosionParticles s2),
                  explosionParticles := []\<rparr>
      in s3\<lparr>scene := fold (\<lambda>l sc. if light_type l \<noteq> AmbientLight
                                    then scene_remove (light_id l) sc else sc)
                        (lights s3) (scene s3),
            lights := filter (\<lambda>l. light_type l = AmbientLight) (lights s3)\<rparr>)"

text \<open>
  \<^verbatim>\<open>createParticleSystem(count)\<close>: iteration \<open>i\<close> consumes nine random numbers, starting
  at reading \<open>r0 + 9 * i\<close>. Positions and velocities are stored in binary32 slots.
\<close>

definition particle_init ::
  "env \<Rightarrow> nat \<Rightarrow> nat \<Rightarrow> real list \<times> real list \<times> real list
     \<Rightarrow> real list \<times> real list \<times> real list" where
  "particle_init e r0 i = (\<lambda>(pos, vel, col).
     let r = r0 + 9 * i;
         pos' = pos[i * 3 := fround (fl64 (fl64 (math_random e r - 0.5) * 200)),
                    i * 3 + 1 := fround (fl64 (fl64 (math_random e (r + 1) - 0.5) * 200)),
                    i * 3 + 2 := fround (fl64 (fl64 (math_random e (r + 2) - 0.5) * 200))];
         vel' = vel[i * 3 := fround (fl64 (fl64 (math_random e (r + 3) - 0.5) * 2)),
                    i * 3 + 1 := fround (fl64 (fl64 (math_random e (r + 4) - 0.5) * 2)),
                    i * 3 + 2 := fround (fl64 (fl64 (math_random e (r + 5) - 0.5) * 2))];
         hue = math_random e (r + 6);
         saturation = 0.8 + math_random e (r + 7) * 0.2;
         lightness = 0.5 + math_random e (r + 8) * 0.5
     in case hslToRgb hue saturation lightness of
          (cr, cg, cb) \<Rightarrow>
            (pos', vel', col[i * 3 := cr, i * 3 + 1 := cg, i * 3 + 2 := cb]))"

definition createParticleSystem :: "env \<Rightarrow> nat \<Rightarrow> nat \<Rightarrow> nat \<Rightarrow> points" where
  "createParticleSystem e count r0 oid =
     (case for_loop 1 count (particle_init e r0) 0
             (replicate (count * 3) 0, replicate (count * 3) 0, replicate (count * 3) 0) of
        (pos, vel, col) \<Rightarrow>
          \<lparr>points_id = oid, positions = pos, velocities = vel, colors = col,
           point_size = 0.1, opacity = 0.8\<rparr>)"

text \<open>
  \<^verbatim>\<open>createExplosionEffect(position)\<close>: 200 particles at the trigger position, four random
  numbers each; the new \<^verbatim>\<open>THREE.Points\<close> is added to the scene and pushed on
  \<^verbatim>\<open>explosionParticles\<close>. Nothing here looks at the length of the pool.
\<close>

definition explosion_init ::
  "env \<Rightarrow> vec3 \<Rightarrow> nat \<Rightarrow> nat \<Rightarrow> real list \<times> real list \<times> real list
     \<Rightarrow> real list \<times> real list \<times> real list" where
  "explosion_init e p r0 i = (\<lambda>(pos, vel, col).
     let r = r0 + 4 * i;
         pos' = pos[i * 3 := vx p, i * 3 + 1 := vy p, i * 3 + 2 := vz p];
         speed = 5 + math_random e r * 10;
         phi = math_random e (r + 1) * pi * 2;
         theta = math_random e (r + 2) * pi;
         vel' = vel[i * 3 := sin theta * cos phi * speed,
                    i * 3 + 1 := sin theta * sin phi * speed,
                    i * 3 + 2 := cos theta * speed]
     in (pos', vel',
         col[i * 3 := 1, i * 3 + 1 := math_random e (r + 3) * 0.5, i * 3 + 2 := 0]))"

definition createExplosionEffect :: "env \<Rightarrow> vec3 \<Rightarrow> state \<Rightarrow> state" where
  "createExplosionEffect e p s =
     (let particleCount = 200 in
      case for_loop 1 particleCount (explosion_init e p (rngCalls s)) 0
             (replicate (particleCount * 3) 0, replicate (particleCount * 3) 0,
              replicate (particleCount * 3) 0) of
        (pos, vel, col) \<Rightarrow>
          s\<lparr>scene := scene s @ [nextId s],
            explosionParticles := explosionParticles s @
              [\<lparr>points_id = nextId s, positions = pos, velocities = vel, colors = col,
                point_size = 0.3, opacity = 1, life = 1.0, maxLife = 60\<rparr>],
            nextId := nextId s + 1,
            rngCalls := rngCalls s + 4 * particleCount\<rparr>)"

text \<open>One iteration of the cube loop of \<^verbatim>\<open>setupScene\<close>: thirteen random numbers.\<close>

definition create_cube :: "env \<Rightarrow> nat \<Rightarrow> nat \<Rightarrow> mesh" where
  "create_cube e r oid =
     \<lparr>mesh_id = oid,
      geometry = nat \<lfloor>math_random e r * 4\<rfloor>,
      material_hue = math_random e (r + 1),
      position = \<lparr>vx = (math_random e (r + 2) - 0.5) * 150,
                   vy = (math_random e (r + 3) - 0.5) * 150,
                   vz = (math_random e (r + 4) - 0.5) * 150\<rparr>,
      rotation = \<lparr>vx = math_random e (r + 5) * pi,
                   vy = math_random e (r + 6) * pi,
                   vz = math_random e (r + 7) * pi\<rparr>,
      rotationSpeed = \<lparr>vx = (math_random e (r + 8) - 0.5) * 0.02,
                        vy = (math_random e (r + 9) - 0.5) * 0.02,
                        vz = (math_random e (r + 10) - 0.5) * 0.02\<rparr>,
      osc_phase = math_random e (r + 11) * pi * 2,
      osc_amplitude = math_random e (r + 12) * 5 + 2\<rparr>"

definition add_cube :: "env \<Rightarrow> nat \<Rightarrow> state \<Rightarrow> state" where
  "add_cube e i s =
     s\<lparr>scene := scene s @ [nextId s],
       cubes := cubes s @ [create_cube e (rngCalls s) (nextId s)],
       rngCalls := rngCalls s + 13,
       nextId := nextId s + 1\<rparr>"

definition lightColors :: "nat list" where
  "lightColors = [0xff4444, 0x44ff44, 0x4444ff, 0xffff44, 0xff44ff, 0x44ffff]"

text \<open>One iteration of the light loop: five random numbers.\<close>

definition add_light :: "env \<Rightarrow> bool option \<Rightarrow> nat \<Rightarrow> state \<Rightarrow> state" where
  "add_light e effects i s =
     (let r = rngCalls s;
          p = \<lparr>vx = (math_random e r - 0.5) * 200,
               vy = (math_random e (r + 1) - 0.5) * 200,
               vz = (math_random e (r + 2) - 0.5) * 200\<rparr>;
          l = \<lparr>light_id = nextId s, light_type = PointLight,
               light_color = lightColors ! (i mod length lightColors),
               light_intensity = 2, light_distance = 100, light_position = p,
               castShadow = (effects = Some True),
               userData = Some \<lparr>originalPosition = p,
                                 phase = math_random e (r + 3) * pi * 2,
                                 speed = 0.01 + math_random e (r + 4) * 0.02\<rparr>\<rparr>
      in s\<lparr>scene := scene s @ [nextId s], lights := lights s @ [l],
           rngCalls := r + 5, nextId := nextId s + 1\<rparr>)"

definition ambient_light :: "nat \<Rightarrow> light" where
  "ambient_light oid =
     \<lparr>light_id = oid, light_type = AmbientLight, light_color = 0x404080,
      light_intensity = 0.3, light_distance = 0,
      light_position = \<lparr>vx = 0, vy = 0, vz = 0\<rparr>, castShadow = False, userData = None\<rparr>"

text \<open>
  The part of \<^verbatim>\<open>setupScene\<close> that reads the settings: the cube loop, the particle field,
  the light loop, the camera and the fog.
\<close>

definition populate :: "env \<Rightarrow> tier_entry \<Rightarrow> state \<Rightarrow> state" where
  "populate e st s =
     (let s1 = for_loop 1 (bound (get_prop s_cubes st)) (add_cube e) 0 s;
          ps = createParticleSystem e (bound (get_prop s_particles st)) (rngCalls s1)
                 (nextId s1);
          s2 = s1\<lparr>particleSystem := Some ps, scene := scene s1 @ [nextId s1],
                  rngCalls := rngCalls s1 + 9 * bound (get_prop s_particles st),
                  nextId := nextId s1 + 1\<rparr>;
          s3 = for_loop 1 (bound (get_prop s_lights st))
                 (add_light e (get_prop s_effects st)) 0 s2
      in s3\<lparr>camera_position := \<lparr>vx = 0, vy = 0, vz = 80\<rparr>, fog := Some (50, 300)\<rparr>)"

text \<open>The ambient light is created when \<^verbatim>\<open>lights\<close> is empty after the teardown.\<close>

definition ambient_step :: "state \<Rightarrow> state" where
  "ambient_step s =
     (if length (lights s) = 0
      then s\<lparr>scene := scene s @ [nextId s],
             lights := lights s @ [ambient_light (nextId s)],
             nextId := nextId s + 1\<rparr>
      else s)"

text \<open>
  \<^verbatim>\<open>setupScene(quality)\<close>. With an unknown tier \<^verbatim>\<open>settings\<close> is \<^verbatim>\<open>undefined\<close>, and the
  first read of \<^verbatim>\<open>settings.cubes\<close> (the condition of the cube loop) throws: by then the
  scene has been cleared and the ambient light is in place.
\<close>

definition setupScene :: "env \<Rightarrow> string \<Rightarrow> state \<Rightarrow> js_error option \<times> state" where
  "setupScene e q s =
     (let s1 = clearScene s;
          s2 = ambient_step s1
      in case qualitySettings q of
           Undefined \<Rightarrow> (Some TypeError, s2)
         | st \<Rightarrow> (None, populate e st s2))"

section \<open>Per-frame updates\<close>

text \<open>
  The body of the loop of \<^verbatim>\<open>updateParticles\<close> for the particle whose slots start at
  \<open>i\<close>. It works on the position and colour arrays and on the two counters; the
  velocity array is only read. \<^verbatim>\<open>positions[i] += velocities[i] * deltaTime\<close> multiplies and
  adds in binary64 and stores into a binary32 slot; the test reads the slot. (A sum that
  overflows is stored as an infinity, which is out of range like the large number the
  model stores, and the slot is overwritten at once.)
\<close>

definition particle_body ::
  "env \<Rightarrow> real \<Rightarrow> real list \<Rightarrow> nat \<Rightarrow> real list \<times> real list \<times> nat \<times> nat
     \<Rightarrow> real list \<times> real list \<times> nat \<times> nat" where
  "particle_body e deltaTime vel i = (\<lambda>(pos, col, r, c).
     let pos1 = pos[i := fround (fl64 (pos ! i + fl64 (vel ! i * deltaTime)))];
         pos2 = pos1[i + 1 := fround (fl64 (pos1 ! (i + 1) + fl64 (vel ! (i + 1) * deltaTime)))];
         pos3 = pos2[i + 2 := fround (fl64 (pos2 ! (i + 2) + fl64 (vel ! (i + 2) * deltaTime)))];
         wrap = (\<bar>pos3 ! i\<bar> > 150 \<or> \<bar>pos3 ! (i + 1)\<bar> > 150 \<or> \<bar>pos3 ! (i + 2)\<bar> > 150);
         pos4 = (if wrap
                 then pos3[i := fround (fl64 (fl64 (math_random e r - 0.5) * 50)),
                           i + 1 := fround (fl64 (fl64 (math_random e (r + 1) - 0.5) * 50)),
                           i + 2 := fround (fl64 (fl64 (math_random e (r + 2) - 0.5) * 50))]
                 else pos3);
         r' = (if wrap then r + 3 else r);
         time = performance_now e c * 0.001;
         hue = js_rem (time * 0.1 + real i * 0.01) 1
     in case hslToRgb hue 0.8 0.6 of
          (cr, cg, cb) \<Rightarrow> (pos4, col[i := cr, i + 1 := cg, i + 2 := cb], r', c + 1))"

definition updateParticles :: "env \<Rightarrow> real \<Rightarrow> state \<Rightarrow> state" where
  "updateParticles e deltaTime s =
     (case particleSystem s of
        None \<Rightarrow> s
      | Some ps \<Rightarrow>
          (case for_loop 3 (length (positions ps))
                  (particle_body e deltaTime (velocities ps)) 0
                  (positions ps, colors ps, rngCalls s, clockCalls s) of
             (pos, col, r, c) \<Rightarrow>
               s\<lparr>particleSystem := Some (ps\<lparr>positions := pos, colors := col\<rparr>),
                 rngCalls := r, clockCalls := c\<rparr>))"

text \<open>The inner loop of \<^verbatim>\<open>updateExplosions\<close>: ballistic motion with gravity.\<close>

definition explosion_body ::
  "real \<Rightarrow> nat \<Rightarrow> real list \<times> real list \<Rightarrow> real list \<times> real list" where
  "explosion_body deltaTime j = (\<lambda>(pos, vel).
     let pos1 = pos[j := pos ! j + vel ! j * deltaTime];
         pos2 = pos1[j + 1 := pos1 ! (j + 1) + vel ! (j + 1) * deltaTime];
         pos3 = pos2[j + 2 := pos2 ! (j + 2) + vel ! (j + 2) * deltaTime]
     in (pos3, vel[j + 1 := vel ! (j + 1) - 0.5 * deltaTime]))"

definition explosion_step :: "real \<Rightarrow> explosion \<Rightarrow> explosion" where
  "explosion_step deltaTime x =
     (case for_loop 3 (length (positions x)) (explosion_body deltaTime) 0
             (positions x, velocities x) of
        (pos, vel) \<Rightarrow>
          x\<lparr>positions := pos, velocities := vel,
            life := fl64 (life x - fl64 (deltaTime * fl64 0.02)),
            opacity := fl64 (life x - fl64 (deltaTime * fl64 0.02))\<rparr>)"

text \<open>
  \<^verbatim>\<open>for (let i = explosionParticles.length - 1; i >= 0; i--)\<close>: the first argument is
  \<open>i + 1\<close>. \<^verbatim>\<open>life -= deltaTime * 0.02\<close> is a binary64 product and a binary64
  difference, \<^verbatim>\<open>0.02\<close> being the double next to 1/50; the test reads the new life. A
  dead explosion leaves the scene, is disposed and is spliced out of the pool; a live one
  is moved in place. (A product that overflows makes the life \<open>-Infinity\<close> in the code
  and a large negative number here: the explosion ends in both. \<^verbatim>\<open>animate\<close> passes a
  \<^verbatim>\<open>deltaTime\<close> of at most 2.)
\<close>

fun updateExplosions_loop :: "nat \<Rightarrow> real \<Rightarrow> state \<Rightarrow> state" where
  "updateExplosions_loop 0 deltaTime s = s"
| "updateExplosions_loop (Suc i) deltaTime s =
     (let x = explosionParticles s ! i
      in if fl64 (life x - fl64 (deltaTime * fl64 0.02)) \<le> 0
         then updateExplosions_loop i deltaTime
                (s\<lparr>scene := scene_remove (points_id x) (scene s),
                   disposed := disposed s @ [points_id x],
                   explosionParticles :=
                     take i (explosionParticles s) @ drop (Suc i) (explosionParticles s)\<rparr>)
         else updateExplosions_loop i deltaTime
                (s\<lparr>explosionParticles :=
                     (explosionParticles s)[i := explosion_step deltaTime x]\<rparr>))"

definition updateExplosions :: "real \<Rightarrow> state \<Rightarrow> state" where
  "updateExplosions deltaTime s =
     updateExplosions_loop (length (explosionParticles s)) deltaTime s"

section \<open>The result\<close>

text \<open>
  \<^verbatim>\<open>finishBenchmark()\<close>. The division has no guard. With an unknown tier the template
  literal reads \<^verbatim>\<open>settings.cubes\<close> of \<^verbatim>\<open>undefined\<close> and throws before the result box is
  written.
\<close>

definition classify :: "jsnum \<Rightarrow> perf \<times> emoji" where
  "classify fps =
     (if js_gt fps 55 then (BEAST_MODE, Rocket)
      else if js_gt fps 40 then (HIGH_END, Bolt)
      else if js_gt fps 25 then (MID_RANGE, Gamepad)
      else if js_gt fps 15 then (BUDGET, Snail)
      else (TOASTER, Fire))"

definition finishBenchmark :: "state \<Rightarrow> js_error option \<times> state" where
  "finishBenchmark s =
     (let s1 = s\<lparr>running := False\<rparr>;
          fps = js_div (real (frameCount s1)) (totalTime s1);
          q = qualitySelect s1;
          st = qualitySettings q
      in case classify fps of
           (p, em) \<Rightarrow>
             (case st of
                Undefined \<Rightarrow> (Some TypeError, s1)
              | _ \<Rightarrow>
                  (None,
                   s1\<lparr>resultBox_content :=
                        Some \<lparr>avgFPS = fps, performance = p, report_emoji = em, quality = q,
                              report_cubes = get_prop s_cubes st,
                              report_particles = get_prop s_particles st,
                              report_lights = get_prop s_lights st,
                              duration = totalTime s1\<rparr>,
                      resultBox_display := True\<rparr>)))"

section \<open>The frame loop\<close>

text \<open>
  The callback of \<^verbatim>\<open>cubes.forEach\<close> in \<^verbatim>\<open>animate\<close>. The draw is compared with the
  double next to 0.0001.
\<close>

definition cube_callback :: "env \<Rightarrow> real \<Rightarrow> mesh \<Rightarrow> state \<Rightarrow> mesh \<times> state" where
  "cube_callback e currentTime cube s =
     (let cube1 = cube\<lparr>rotation :=
                    \<lparr>vx = vx (rotation cube) + vx (rotationSpeed cube),
                     vy = vy (rotation cube) + vy (rotationSpeed cube),
                     vz = vz (rotation cube) + vz (rotationSpeed cube)\<rparr>\<rparr>;
          time = currentTime * 0.001;
          cube2 = cube1\<lparr>position := (position cube1)
                    \<lparr>vy := vy (position cube1)
                            + sin (time * 2 + osc_phase cube1) * osc_amplitude cube1 * 0.01\<rparr>\<rparr>;
          draw = math_random e (rngCalls s);
          s1 = s\<lparr>rngCalls := rngCalls s + 1\<rparr>
      in if draw < fl64 0.0001 \<and> length (explosionParticles s1) < 5
         then (cube2,
               (createExplosionEffect e (position cube2) s1)
                 \<lparr>cameraShake := (cameraShake s1)
                    \<lparr>intensity := max (intensity (cameraShake s1)) 0.5\<rparr>\<rparr>)
         else (cube2, s1))"

fun forEach_cubes :: "env \<Rightarrow> real \<Rightarrow> mesh list \<Rightarrow> state \<Rightarrow> mesh list \<times> state" where
  "forEach_cubes e currentTime [] s = ([], s)"
| "forEach_cubes e currentTime (cube # rest) s =
     (case cube_callback e currentTime cube s of
        (cube', s') \<Rightarrow>
          (case forEach_cubes e currentTime rest s' of
             (rest', s'') \<Rightarrow> (cube' # rest', s'')))"

definition animate_cubes :: "env \<Rightarrow> real \<Rightarrow> state \<Rightarrow> state" where
  "animate_cubes e currentTime s =
     (case forEach_cubes e currentTime (cubes s) s of
        (cs, s') \<Rightarrow> s'\<lparr>cubes := cs\<rparr>)"

definition light_callback :: "real \<Rightarrow> light \<Rightarrow> light" where
  "light_callback currentTime l =
     (case userData l of
        None \<Rightarrow> l
      | Some d \<Rightarrow>
          (let time = currentTime * 0.001
           in l\<lparr>light_position :=
                 \<lparr>vx = vx (originalPosition d) + sin (time * speed d) * 30,
                  vy = vy (originalPosition d) + cos (time * speed d * 1.3) * 20,
                  vz = vz (originalPosition d) + sin (time * speed d * 0.7) * 25\<rparr>\<rparr>))"

definition animate_lights :: "real \<Rightarrow> state \<Rightarrow> state" where
  "animate_lights currentTime s = s\<lparr>lights := map (light_callback currentTime) (lights s)\<rparr>"

text \<open>
  The camera shake block: the branch draws two random numbers.
  \<^verbatim>\<open>cameraShake.intensity *= 0.95\<close> is a binary64 product with the double next to 0.95.
\<close>

definition animate_shake :: "env \<Rightarrow> state \<Rightarrow> state" where
  "animate_shake e s =
     (if intensity (cameraShake s) > 0
      then (let r = rngCalls s;
                sx = fl64 (fl64 (math_random e r - 0.5) * intensity (cameraShake s));
                sy = fl64 (fl64 (math_random e (r + 1) - 0.5) * intensity (cameraShake s))
            in s\<lparr>cameraShake := \<lparr>shake_x = sx, shake_y = sy,
                                   intensity = fl64 (intensity (cameraShake s) * fl64 0.95)\<rparr>,
                 camera_position := (camera_position s)
                   \<lparr>vx := fl64 (vx (camera_position s) + sx),
                    vy := fl64 (vy (camera_position s) + sy)\<rparr>,
                 rngCalls := r + 2\<rparr>)
      else s)"

definition animate_camera :: "real \<Rightarrow> state \<Rightarrow> state" where
  "animate_camera currentTime s =
     (let time = currentTime * 0.001
      in s\<lparr>camera_position := (camera_position s)
             \<lparr>vx := sin (time * 0.3) * 20, vz := 80 + cos (time * 0.2) * 30\<rparr>\<rparr>)"

text \<open>
  \<^verbatim>\<open>Math.min((currentTime - (animate.lastTime || currentTime)) / 16.67, 2)\<close>: the right
  operand of \<^verbatim>\<open>||\<close> when \<^verbatim>\<open>lastTime\<close> is \<^verbatim>\<open>undefined\<close> or 0; a binary64 difference
  and a binary64 quotient.
\<close>

definition deltaTime_of :: "real option \<Rightarrow> real \<Rightarrow> real" where
  "deltaTime_of lastT currentTime =
     min (fl64 (fl64 (currentTime - (case lastT of
                                       None \<Rightarrow> currentTime
                                     | Some t \<Rightarrow> if t = 0 then currentTime else t))
                / fl64 16.67)) 2"

text \<open>\<^verbatim>\<open>(currentTime - startTime) / 1000\<close>, in binary64.\<close>

definition elapsed :: "real \<Rightarrow> real \<Rightarrow> real" where
  "elapsed start currentTime = fl64 (fl64 (currentTime - start) / 1000)"

text \<open>
  The part of \<^verbatim>\<open>animate\<close> between the reading of the clock and the counting of the
  frame (rendering and the statistics overlay belong to the backend), in two pieces:
  everything up to \<^verbatim>\<open>updateExplosions\<close>, then the camera.
\<close>

definition animate_scene :: "env \<Rightarrow> real \<Rightarrow> real \<Rightarrow> state \<Rightarrow> state" where
  "animate_scene e currentTime deltaTime s =
     updateExplosions deltaTime
       (updateParticles e deltaTime
          (animate_lights currentTime
             (animate_cubes e currentTime
                (s\<lparr>scene_rotation := (scene_rotation s)
                     \<lparr>vy := vy (scene_rotation s) + 0.005,
                      vx := vx (scene_rotation s) + 0.002\<rparr>\<rparr>))))"

definition animate_update :: "env \<Rightarrow> real \<Rightarrow> real \<Rightarrow> state \<Rightarrow> state" where
  "animate_update e currentTime deltaTime s =
     animate_camera currentTime (animate_shake e (animate_scene e currentTime deltaTime s))"

definition animate :: "env \<Rightarrow> state \<Rightarrow> js_error option \<times> state" where
  "animate e s =
     (if \<not> running s then (None, s)
      else let currentTime = performance_now e (clockCalls s);
               deltaTime = deltaTime_of (lastTime s) currentTime;
               s1 = s\<lparr>clockCalls := clockCalls s + 1, lastTime := Some currentTime\<rparr>;
               s2 = animate_update e currentTime deltaTime s1;
               s3 = s2\<lparr>frameCount := frameCount s2 + 1,
                       totalTime := elapsed (startTime s2) currentTime\<rparr>
           in if totalTime s3 < maxTime \<and> running s3
              then (None, s3\<lparr>pendingFrames := pendingFrames s3 + 1\<rparr>)
              else finishBenchmark s3)"

section \<open>Starting a run\<close>

text \<open>
  The two \<^verbatim>\<open>setTimeout\<close> callbacks. The burst calls \<^verbatim>\<open>createExplosionEffect\<close> whenever
  \<^verbatim>\<open>running\<close> holds; its position takes three random numbers.
\<close>

definition scripted_sequence :: "state \<Rightarrow> state" where
  "scripted_sequence s =
     (if running s
      then for_loop 1 3 (\<lambda>i st. st\<lparr>timers := timers st @ [(i * 1000, ScriptedBurst)]\<rparr>) 0 s
      else s)"

definition scripted_burst :: "env \<Rightarrow> state \<Rightarrow> state" where
  "scripted_burst e s =
     (if running s
      then (let r = rngCalls s;
                p = \<lparr>vx = (math_random e r - 0.5) * 100,
                     vy = (math_random e (r + 1) - 0.5) * 100,
                     vz = (math_random e (r + 2) - 0.5) * 100\<rparr>
            in createExplosionEffect e p (s\<lparr>rngCalls := r + 3\<rparr>))
      else s)"

text \<open>
  \<^verbatim>\<open>startBenchmark()\<close>. It tests nothing before it sets \<^verbatim>\<open>running\<close>; an exception of
  \<^verbatim>\<open>setupScene\<close> leaves the function before the timer is set and before the first
  frame.
\<close>

definition startBenchmark :: "env \<Rightarrow> state \<Rightarrow> js_error option \<times> state" where
  "startBenchmark e s =
     (let s1 = s\<lparr>running := True, frameCount := 0, totalTime := 0,
                 startTime := performance_now e (clockCalls s),
                 clockCalls := clockCalls s + 1,
                 resultBox_display := False,
                 ui_display := False\<rparr>
      in case setupScene e (qualitySelect s1) s1 of
           (Some err, s2) \<Rightarrow> (Some err, s2)
         | (None, s2) \<Rightarrow> animate e (s2\<lparr>timers := timers s2 @ [(2000, ScriptedSequence)]\<rparr>))"

section \<open>Events\<close>

text \<open>
  What the browser can deliver: a click on the start button, the next animation frame, the
  expiry of the \<open>k\<close>-th pending timer, and a key press. An exception that leaves a handler
  is reported on the console; the state stays as the handler left it.
\<close>

datatype event = ClickStart | AnimationFrame | Timeout nat | KeyDown string

definition keydown :: "string \<Rightarrow> state \<Rightarrow> js_error option \<times> state" where
  "keydown key s = (if key = ''Escape'' \<and> running s then finishBenchmark s else (None, s))"

definition run_callback :: "env \<Rightarrow> callback \<Rightarrow> state \<Rightarrow> state" where
  "run_callback e cb s =
     (case cb of ScriptedSequence \<Rightarrow> scripted_sequence s | ScriptedBurst \<Rightarrow> scripted_burst e s)"

definition dispatch :: "env \<Rightarrow> event \<Rightarrow> state \<Rightarrow> state" where
  "dispatch e ev s =
     (case ev of
        ClickStart \<Rightarrow> snd (startBenchmark e s)
      | AnimationFrame \<Rightarrow>
          (if pendingFrames s = 0 then s
           else snd (animate e (s\<lparr>pendingFrames := pendingFrames s - 1\<rparr>)))
      | Timeout k \<Rightarrow>
          (if k < length (timers s)
           then run_callback e (snd (timers s ! k))
                  (s\<lparr>timers := take k (timers s) @ drop (Suc k) (timers s)\<rparr>)
           else s)
      | KeyDown key \<Rightarrow> snd (keydown key s))"

definition run :: "env \<Rightarrow> event list \<Rightarrow> state \<Rightarrow> state" where
  "run e evs s = fold (dispatch e) evs s"

text \<open>The state after the module has loaded, with the given value of the select box.\<close>

definition init :: "string \<Rightarrow> state" where
  "init q =
     \<lparr>cubes = [], lights = [], frameCount = 0, totalTime = 0, running = False,
      startTime = 0, particleSystem = None, explosionParticles = [],
      cameraShake = \<lparr>shake_x = 0, shake_y = 0, intensity = 0\<rparr>, lastTime = None,
      scene = [], disposed = [], scene_rotation = \<lparr>vx = 0, vy = 0, vz = 0\<rparr>,
      camera_position = \<lparr>vx = 0, vy = 0, vz = 0\<rparr>, fog = None,
      resultBox_display = False, resultBox_content = None, ui_display = True,
      qualitySelect = q, pendingFrames = 0, timers = [], rngCalls = 0, clockCalls = 0,
      nextId = 0\<rparr>"

section \<open>Notions used to state the properties\<close>

text \<open>
  The fields that the scene population and the per-frame updates never write: only
  \<^verbatim>\<open>startBenchmark\<close>, \<^verbatim>\<open>animate\<close> itself, \<^verbatim>\<open>finishBenchmark\<close> and the outer timer
  callback do.
\<close>

definition control ::
  "state \<Rightarrow> nat \<times> real \<times> bool \<times> real \<times> real option \<times> bool \<times> report option \<times> bool
     \<times> string \<times> nat \<times> (nat \<times> callback) list" where
  "control s =
     (frameCount s, totalTime s, running s, startTime s, lastTime s, resultBox_display s,
      resultBox_content s, ui_display s, qualitySelect s, pendingFrames s, timers s)"

text \<open>
  The threshold table in the words of the specification: ordered cut points, the first
  one that the average exceeds gives the label, the lowest tier otherwise. (NaN exceeds
  nothing, \<open>+Infinity\<close> everything.)
\<close>

definition spec_thresholds :: "(real \<times> perf) list" where
  "spec_thresholds = [(55, BEAST_MODE), (40, HIGH_END), (25, MID_RANGE), (15, BUDGET)]"

fun spec_bucket :: "(real \<times> perf) list \<Rightarrow> jsnum \<Rightarrow> perf" where
  "spec_bucket [] fps = TOASTER"
| "spec_bucket ((c, l) # rest) fps = (if js_gt fps c then l else spec_bucket rest fps)"

text \<open>
  The boundary rule for the particle whose slots start at \<open>k\<close>, between the arrays
  before the update (\<open>pos\<close>, \<open>vel\<close>) and the positions after it (\<open>pos'\<close>). The
  integrated position is what the three slots hold after
  \<^verbatim>\<open>positions[k] += velocities[k] * deltaTime\<close>. Out of range after integration means
  that the three slots hold \<^verbatim>\<open>(Math.random() - 0.5) * 50\<close> for three successive draws,
  all within 25 of the origin; otherwise the slots hold the integrated position.
\<close>

definition slot_ok ::
  "env \<Rightarrow> real \<Rightarrow> real list \<Rightarrow> real list \<Rightarrow> nat \<Rightarrow> real list \<Rightarrow> bool" where
  "slot_ok e dt pos vel k pos' =
     (let x = fround (fl64 (pos ! k + fl64 (vel ! k * dt)));
          y = fround (fl64 (pos ! (k + 1) + fl64 (vel ! (k + 1) * dt)));
          z = fround (fl64 (pos ! (k + 2) + fl64 (vel ! (k + 2) * dt)))
      in if \<bar>x\<bar> > 150 \<or> \<bar>y\<bar> > 150 \<or> \<bar>z\<bar> > 150
         then (\<exists>j. pos' ! k = fround (fl64 (fl64 (math_random e j - 0.5) * 50))
                 \<and> pos' ! (k + 1) = fround (fl64 (fl64 (math_random e (j + 1) - 0.5) * 50))
                 \<and> pos' ! (k + 2) = fround (fl64 (fl64 (math_random e (j + 2) - 0.5) * 50)))
              \<and> \<bar>pos' ! k\<bar> \<le> 25 \<and> \<bar>pos' ! (k + 1)\<bar> \<le> 25 \<and> \<bar>pos' ! (k + 2)\<bar> \<le> 25
         else pos' ! k = x \<and> pos' ! (k + 1) = y \<and> pos' ! (k + 2) = z)"

text \<open>
  The objects that the program holds a reference to, and the well-formedness of the scene
  graph: its children are exactly these objects, each once, all older than the counter,
  with at most one ambient light among the lights.
\<close>

definition tracked_ids :: "state \<Rightarrow> nat list" where
  "tracked_ids s =
     map mesh_id (cubes s)
     @ (case particleSystem s of None \<Rightarrow> [] | Some ps \<Rightarrow> [points_id ps])
     @ map points_id (explosionParticles s)
     @ map light_id (lights s)"

definition scene_inv :: "state \<Rightarrow> bool" where
  "scene_inv s =
     (distinct (scene s) \<and> distinct (tracked_ids s) \<and> set (scene s) = set (tracked_ids s)
      \<and> (\<forall>i \<in> set (tracked_ids s). i < nextId s)
      \<and> length (filter (\<lambda>l. light_type l = AmbientLight) (lights s)) \<le> 1)"

text \<open>
  The state of a frame of \<^verbatim>\<open>animate\<close> at the test \<^verbatim>\<open>cameraShake.intensity > 0\<close>: the
  clock has been read, cubes, lights, particles and explosions have been updated.
\<close>

definition before_shake :: "env \<Rightarrow> state \<Rightarrow> state" where
  "before_shake e s =
     animate_scene e (performance_now e (clockCalls s))
       (deltaTime_of (lastTime s) (performance_now e (clockCalls s)))
       (s\<lparr>clockCalls := clockCalls s + 1, lastTime := Some (performance_now e (clockCalls s))\<rparr>)"

text \<open>
  The life of an explosion after \<^verbatim>\<open>life -= deltaTime * 0.02\<close>; the explosion is dead
  in that update when this is not above 0.
\<close>

definition new_life :: "real \<Rightarrow> real \<Rightarrow> real" where
  "new_life dt l = fl64 (l - fl64 (dt * fl64 0.02))"

definition dead :: "real \<Rightarrow> explosion \<Rightarrow> bool" where
  "dead dt x = (new_life dt (life x) \<le> 0)"

text \<open>Two environments, an explosion and two particle fields for concrete runs.\<close>

definition spark :: "nat \<Rightarrow> real \<Rightarrow> explosion" where
  "spark oid l =
     \<lparr>points_id = oid, positions = [0, 0, 0], velocities = [1, 2, 3], colors = [1, 0, 0],
      point_size = 0.3, opacity = l, life = l, maxLife = 60\<rparr>"

definition drifting :: points where
  "drifting =
     \<lparr>points_id = 0, positions = [149, 0, 0, 10, 20, 30], velocities = [2, 0, 0, 1, 1, 1],
      colors = [0, 0, 0, 0, 0, 0], point_size = 0.1, opacity = 0.8\<rparr>"

text \<open>A particle on the boundary whose step is too small for its binary32 slot.\<close>

definition grazing :: points where
  "grazing =
     \<lparr>points_id = 0, positions = [150, 0, 0], velocities = [1 / 2 ^ 20, 0, 0],
      colors = [0, 0, 0], point_size = 0.1, opacity = 0.8\<rparr>"

definition env0 :: env where
  "env0 = \<lparr>math_random = (\<lambda>k. 0), performance_now = (\<lambda>k. 0)\<rparr>"

definition env_half :: env where
  "env_half = \<lparr>math_random = (\<lambda>k. 1 / 2), performance_now = (\<lambda>k. 0)\<rparr>"

text \<open>
  Running states in which the camera shake has been triggered: at the trigger value, and
  at nine times the least positive double, where the decay from 0.5 comes to rest in
  binary64 (after some 14 450 frames).
\<close>

definition shaking :: state where
  "shaking = (init ''insane'')\<lparr>running := True,
     cameraShake := \<lparr>shake_x = 0, shake_y = 0, intensity = 1 / 2\<rparr>\<rparr>"

text \<open>The state after \<open>n\<close> successive calls of \<^verbatim>\<open>animate\<close>.\<close>

definition frames :: "env \<Rightarrow> nat \<Rightarrow> state \<Rightarrow> state" where
  "frames e n s = ((\<lambda>st. snd (animate e st)) ^^ n) s"

definition faint :: state where
  "faint = (init ''insane'')\<lparr>running := True,
     cameraShake := \<lparr>shake_x = 0, shake_y = 0, intensity = 9 * 2 powr (- 1074)\<rparr>\<rparr>"

section \<open>Rounding\<close>

subsection \<open>Rounding to the nearest, ties to even\<close>

lemma rne_cases:
  "rne x = \<lfloor>x\<rfloor> \<and> x - of_int \<lfloor>x\<rfloor> \<le> 1 / 2 \<or> rne x = \<lfloor>x\<rfloor> + 1 \<and> 1 / 2 \<le> x - of_int \<lfloor>x\<rfloor>"
  by (simp add: rne_def Let_def)

lemma rne_error: "\<bar>of_int (rne x) - x\<bar> \<le> 1 / 2"
  using rne_cases [of x] by (auto simp: abs_le_iff)

lemma rne_of_int [simp]: "rne (of_int n) = n"
  by (simp add: rne_def)

lemma rne_mono: "x \<le> y \<Longrightarrow> rne x \<le> rne y"
proof -
  assume le: "x \<le> y"
  then have f: "\<lfloor>x\<rfloor> \<le> \<lfloor>y\<rfloor>" by (rule floor_mono)
  show ?thesis
  proof (cases "\<lfloor>x\<rfloor> = \<lfloor>y\<rfloor>")
    case True
    then show ?thesis using le by (simp add: rne_def Let_def)
  next
    case False
    then have "\<lfloor>x\<rfloor> + 1 \<le> \<lfloor>y\<rfloor>" using f by simp
    moreover have "rne x \<le> \<lfloor>x\<rfloor> + 1" using rne_cases [of x] by auto
    moreover have "\<lfloor>y\<rfloor> \<le> rne y" using rne_cases [of y] by auto
    ultimately show ?thesis by simp
  qed
qed

lemma rne_near: "\<bar>x - of_int n\<bar> < 1 / 2 \<Longrightarrow> rne x = n"
proof -
  assume a: "\<bar>x - of_int n\<bar> < 1 / 2"
  have "\<bar>of_int (rne x) - x\<bar> \<le> 1 / 2" by (rule rne_error)
  then have "\<bar>(of_int (rne x) :: real) - of_int n\<bar> < 1" using a by linarith
  then have "\<bar>rne x - n\<bar> < 1" by (metis of_int_diff of_int_abs of_int_less_1_iff)
  then show ?thesis by simp
qed

lemma rne_minus: "rne (- x) = - rne x"
proof (cases "x = of_int \<lfloor>x\<rfloor>")
  case True
  then have "rne x = \<lfloor>x\<rfloor>" by (metis rne_of_int)
  moreover have "rne (- x) = - \<lfloor>x\<rfloor>" by (metis True rne_of_int of_int_minus)
  ultimately show ?thesis by simp
next
  case False
  then have c: "\<lfloor>- x\<rfloor> = - \<lfloor>x\<rfloor> - 1"
    by (metis ceiling_altdef ceiling_def diff_minus_eq_add minus_diff_eq add.commute minus_minus)
  show ?thesis
    unfolding rne_def Let_def c by auto
qed

lemma two_powr_int: "0 \<le> k \<Longrightarrow> 2 powr of_int k = (of_int (2 ^ nat k) :: real)"
  by (simp add: powr_int)

lemma floor_log_bounds:
  assumes "x \<noteq> 0"
  shows "2 powr of_int \<lfloor>log 2 \<bar>x\<bar>\<rfloor> \<le> \<bar>x\<bar>" and "\<bar>x\<bar> < 2 powr (of_int \<lfloor>log 2 \<bar>x\<bar>\<rfloor> + 1)"
  using floor_log_eq_powr_iff [of "\<bar>x\<bar>" 2 "\<lfloor>log 2 \<bar>x\<bar>\<rfloor>"] assms by simp_all

lemma floor_log_mono: "0 < x \<Longrightarrow> x \<le> y \<Longrightarrow> \<lfloor>log 2 x\<rfloor> \<le> \<lfloor>log 2 y\<rfloor>"
  by (intro floor_mono) simp

lemma floor_log_eq:
  "0 < x \<Longrightarrow> 2 powr of_int e \<le> x \<Longrightarrow> x < 2 powr (of_int e + 1) \<Longrightarrow> \<lfloor>log 2 x\<rfloor> = e"
  using floor_log_eq_powr_iff [of x 2 e] by simp

lemma quantum_minus [simp]: "quantum p emin (- x) = quantum p emin x"
  by (simp add: quantum_def)

lemma fl_zero [simp]: "fl p emin 0 = 0"
  by (simp add: fl_def)

lemma fl_minus: "fl p emin (- x) = - fl p emin x"
  by (simp add: fl_def rne_minus)

lemma fl_nonneg: "0 \<le> x \<Longrightarrow> 0 \<le> fl p emin x"
proof -
  assume "0 \<le> x"
  then have "rne 0 \<le> rne (x / 2 powr of_int (quantum p emin x))"
    by (intro rne_mono) simp
  then have "0 \<le> rne (x / 2 powr of_int (quantum p emin x))"
    using rne_of_int [of 0] by simp
  then show ?thesis by (simp add: fl_def)
qed

lemma fl_repr:
  assumes "x = of_int m * 2 powr of_int k" and "x \<noteq> 0 \<Longrightarrow> quantum p emin x \<le> k"
  shows "fl p emin x = x"
proof (cases "x = 0")
  case True
  then show ?thesis by simp
next
  case False
  define q where "q = quantum p emin x"
  have le: "q \<le> k" using assms(2) False by (simp add: q_def)
  have "(2::real) powr of_int k = 2 powr of_int (k - q) * 2 powr of_int q"
    by (simp add: powr_add [symmetric])
  also have "\<dots> = of_int (2 ^ nat (k - q)) * 2 powr of_int q"
    using le by (subst two_powr_int) simp_all
  finally have x: "x = of_int (m * 2 ^ nat (k - q)) * 2 powr of_int q"
    using assms(1) by simp
  have "x / 2 powr of_int q = of_int (m * 2 ^ nat (k - q))"
    unfolding x by simp
  then have "rne (x / 2 powr of_int q) = m * 2 ^ nat (k - q)"
    by (metis rne_of_int)
  then have "fl p emin x = of_int (m * 2 ^ nat (k - q)) * 2 powr of_int q"
    using False by (simp add: fl_def q_def)
  then show ?thesis using x by simp
qed

lemma fl_eval:
  assumes "0 < x" and "2 powr of_int e \<le> x" and "x < 2 powr (of_int e + 1)"
    and "q = max (e - p + 1) emin" and "\<bar>x / 2 powr of_int q - of_int n\<bar> < 1 / 2"
  shows "fl p emin x = of_int n * 2 powr of_int q"
proof -
  have "\<lfloor>log 2 \<bar>x\<bar>\<rfloor> = e" using assms(1-3) by (simp add: floor_log_eq)
  then have "quantum p emin x = q" using assms(4) by (simp add: quantum_def)
  then show ?thesis using assms(1,5) by (simp add: fl_def rne_near)
qed

lemma fl_error:
  "\<bar>fl p emin x - x\<bar> \<le> 2 powr of_int (quantum p emin x) / 2"
proof (cases "x = 0")
  case True
  then show ?thesis by simp
next
  case False
  let ?q = "(2::real) powr of_int (quantum p emin x)"
  have pos: "0 < ?q" by simp
  have "fl p emin x - x = (of_int (rne (x / ?q)) - x / ?q) * ?q"
    using False by (simp add: fl_def algebra_simps)
  then have "\<bar>fl p emin x - x\<bar> = \<bar>of_int (rne (x / ?q)) - x / ?q\<bar> * ?q"
    by (simp add: abs_mult)
  also have "\<dots> \<le> 1 / 2 * ?q"
    by (intro mult_right_mono rne_error) simp
  finally show ?thesis by simp
qed


lemma quantum_mono: "x \<noteq> 0 \<Longrightarrow> \<bar>x\<bar> \<le> \<bar>y\<bar> \<Longrightarrow> quantum p emin x \<le> quantum p emin y"
  using floor_log_mono [of "\<bar>x\<bar>" "\<bar>y\<bar>"] by (simp add: quantum_def)

text \<open>A positive number in the normal range rounds to at least the power of two below it.\<close>

lemma fl_ge_pow:
  assumes "0 < y" and "1 \<le> p" and "quantum p emin y = \<lfloor>log 2 \<bar>y\<bar>\<rfloor> - p + 1"
  shows "2 powr of_int \<lfloor>log 2 \<bar>y\<bar>\<rfloor> \<le> fl p emin y"
proof -
  define e where "e = \<lfloor>log 2 \<bar>y\<bar>\<rfloor>"
  define q where "q = quantum p emin y"
  have q: "q = e - p + 1" using assms(3) by (simp add: q_def e_def)
  have lo: "2 powr of_int e \<le> y" using floor_log_bounds(1) [of y] assms(1) by (simp add: e_def)
  have "(2::real) powr of_int (p - 1) = of_int (2 ^ nat (p - 1))"
    using assms(2) by (subst two_powr_int) simp_all
  moreover have "(2::real) powr of_int (p - 1) * 2 powr of_int q = 2 powr of_int e"
    unfolding q by (simp add: powr_add [symmetric])
  ultimately have pq: "of_int (2 ^ nat (p - 1)) * 2 powr of_int q = (2::real) powr of_int e"
    by simp
  have "of_int (2 ^ nat (p - 1)) * 2 powr of_int q \<le> y" using lo pq by simp
  then have "of_int (2 ^ nat (p - 1)) \<le> y / 2 powr of_int q"
    by (simp add: pos_le_divide_eq)
  then have "rne (of_int (2 ^ nat (p - 1))) \<le> rne (y / 2 powr of_int q)"
    by (rule rne_mono)
  then have "(2::int) ^ nat (p - 1) \<le> rne (y / 2 powr of_int q)"
    by (simp only: rne_of_int)
  then have "(of_int (2 ^ nat (p - 1)) :: real) \<le> of_int (rne (y / 2 powr of_int q))"
    by (simp only: of_int_le_iff)
  then have "of_int (2 ^ nat (p - 1)) * (2::real) powr of_int q \<le> of_int (rne (y / 2 powr of_int q)) * 2 powr of_int q"
    by (intro mult_right_mono) simp_all
  then show ?thesis
    using assms(1) unfolding pq by (simp add: fl_def q_def e_def)
qed

text \<open>A positive number rounds to at most \<open>2 ^ p\<close> units.\<close>

lemma fl_le_pow:
  assumes "0 < x" and "0 \<le> p"
  shows "fl p emin x \<le> 2 powr of_int (quantum p emin x + p)"
proof -
  define e where "e = \<lfloor>log 2 \<bar>x\<bar>\<rfloor>"
  define q where "q = quantum p emin x"
  have q: "e - p + 1 \<le> q" by (simp add: q_def e_def quantum_def)
  have "x < 2 powr (of_int e + 1)" using floor_log_bounds(2) [of x] assms(1) by (simp add: e_def)
  also have "\<dots> \<le> 2 powr of_int (q + p)" using q by simp
  finally have hi: "x \<le> 2 powr of_int (q + p)" by simp
  have "(2::real) powr of_int p = of_int (2 ^ nat p)"
    using assms(2) by (subst two_powr_int) simp_all
  moreover have "(2::real) powr of_int p * 2 powr of_int q = 2 powr of_int (q + p)"
    by (simp add: powr_add [symmetric] add.commute)
  ultimately have pq: "of_int (2 ^ nat p) * 2 powr of_int q = (2::real) powr of_int (q + p)"
    by simp
  have "x \<le> of_int (2 ^ nat p) * 2 powr of_int q" using hi pq by simp
  then have "x / 2 powr of_int q \<le> of_int (2 ^ nat p)"
    by (simp add: pos_divide_le_eq)
  then have "rne (x / 2 powr of_int q) \<le> rne (of_int (2 ^ nat p))"
    by (rule rne_mono)
  then have "rne (x / 2 powr of_int q) \<le> 2 ^ nat p"
    by (simp only: rne_of_int)
  then have "(of_int (rne (x / 2 powr of_int q)) :: real) \<le> of_int (2 ^ nat p)"
    by (simp only: of_int_le_iff)
  then have "of_int (rne (x / 2 powr of_int q)) * (2::real) powr of_int q \<le> of_int (2 ^ nat p) * 2 powr of_int q"
    by (intro mult_right_mono) simp_all
  then show ?thesis
    using assms(1) unfolding pq by (simp add: fl_def q_def)
qed

lemma fl_mono_pos:
  assumes "0 < x" and "x \<le> y" and "1 \<le> p"
  shows "fl p emin x \<le> fl p emin y"
proof -
  define qx where "qx = quantum p emin x"
  define qy where "qy = quantum p emin y"
  have le: "qx \<le> qy" using assms(1,2) by (simp add: qx_def qy_def quantum_mono)
  show ?thesis
  proof (cases "qx = qy")
    case True
    have "x / 2 powr of_int qy \<le> y / 2 powr of_int qy"
      using assms(2) by (simp add: divide_right_mono)
    then have "rne (x / 2 powr of_int qy) \<le> rne (y / 2 powr of_int qy)" by (rule rne_mono)
    then have "(of_int (rne (x / 2 powr of_int qy)) :: real) \<le> of_int (rne (y / 2 powr of_int qy))"
      by (simp only: of_int_le_iff)
    then have "of_int (rne (x / 2 powr of_int qy)) * (2::real) powr of_int qy
        \<le> of_int (rne (y / 2 powr of_int qy)) * 2 powr of_int qy"
      by (intro mult_right_mono) simp_all
    then show ?thesis
      using assms(1,2) True by (simp add: fl_def qx_def qy_def)
  next
    case False
    then have lt: "qx < qy" using le by simp
    have "emin \<le> qx" by (simp add: qx_def quantum_def)
    then have n: "qy = \<lfloor>log 2 \<bar>y\<bar>\<rfloor> - p + 1" using lt by (simp add: qy_def quantum_def)
    have "fl p emin x \<le> 2 powr of_int (qx + p)"
      using fl_le_pow [of x p emin] assms(1,3) by (simp add: qx_def)
    also have "\<dots> \<le> 2 powr of_int \<lfloor>log 2 \<bar>y\<bar>\<rfloor>"
      using lt n by simp
    also have "\<dots> \<le> fl p emin y"
      using fl_ge_pow [of y p emin] assms n by (simp add: qy_def)
    finally show ?thesis .
  qed
qed

lemma fl_mono:
  assumes "x \<le> y" and "1 \<le> p"
  shows "fl p emin x \<le> fl p emin y"
proof -
  consider "0 < x" | "x \<le> 0" "0 \<le> y" | "y < 0" by linarith
  then show ?thesis
  proof cases
    case 1
    then show ?thesis using assms by (simp add: fl_mono_pos)
  next
    case 2
    have "fl p emin x \<le> 0" using fl_nonneg [of "- x" p emin] 2(1) by (simp add: fl_minus)
    moreover have "0 \<le> fl p emin y" using 2(2) by (rule fl_nonneg)
    ultimately show ?thesis by simp
  next
    case 3
    have "fl p emin (- y) \<le> fl p emin (- x)"
      using 3 assms by (intro fl_mono_pos) simp_all
    then show ?thesis by (simp add: fl_minus)
  qed
qed

lemma fl_abs_le:
  assumes "\<bar>x\<bar> \<le> a" and "fl p emin a = a" and "1 \<le> p"
  shows "\<bar>fl p emin x\<bar> \<le> a"
proof -
  have "fl p emin x \<le> fl p emin a" using assms(1,3) by (intro fl_mono) simp_all
  moreover have "fl p emin (- a) \<le> fl p emin x" using assms(1,3) by (intro fl_mono) simp_all
  ultimately show ?thesis using assms(2) by (simp add: fl_minus abs_le_iff)
qed

text \<open>The relative error in the normal range.\<close>

lemma fl_rel_error:
  assumes "2 powr of_int (emin + p - 1) \<le> \<bar>x\<bar>"
  shows "\<bar>fl p emin x - x\<bar> \<le> \<bar>x\<bar> * 2 powr (- of_int p)"
proof -
  define e where "e = \<lfloor>log 2 \<bar>x\<bar>\<rfloor>"
  have nz: "x \<noteq> 0" using assms by (auto simp: not_le [symmetric])
  have "emin + p - 1 \<le> e"
    unfolding e_def using assms nz by (simp add: le_floor_iff le_log_iff)
  then have q: "quantum p emin x = e - p + 1" by (simp add: quantum_def e_def)
  have "\<bar>fl p emin x - x\<bar> \<le> 2 powr of_int (e - p + 1) / 2"
    using fl_error [of p emin x] q by simp
  also have "\<dots> = 2 powr of_int e * 2 powr (- of_int p)"
    by (simp add: powr_add powr_diff powr_minus field_simps)
  also have "\<dots> \<le> \<bar>x\<bar> * 2 powr (- of_int p)"
    using floor_log_bounds(1) [OF nz] by (intro mult_right_mono) (simp_all add: e_def)
  finally show ?thesis .
qed

text \<open>More than half the least unit never rounds to zero.\<close>

lemma fl_ge_least:
  assumes "2 powr of_int emin / 2 < x" and "1 \<le> p"
  shows "2 powr of_int emin \<le> fl p emin x"
proof -
  have "(0::real) < 2 powr of_int emin / 2" by simp
  then have pos: "0 < x" using assms(1) by linarith
  define q where "q = quantum p emin x"
  have ge: "emin \<le> q" by (simp add: q_def quantum_def)
  have "1 / 2 < x / 2 powr of_int q"
  proof (cases "q = emin")
    case True
    then show ?thesis using assms(1) by (simp add: pos_less_divide_eq)
  next
    case False
    then have n: "q = \<lfloor>log 2 \<bar>x\<bar>\<rfloor> - p + 1" using ge by (simp add: q_def quantum_def)
    have "(1::real) \<le> 2 powr of_int (p - 1)"
      using assms(2) by (simp add: ge_one_powr_ge_zero)
    then have "1 * (2::real) powr of_int q \<le> 2 powr of_int (p - 1) * 2 powr of_int q"
      by (intro mult_right_mono) simp_all
    also have "\<dots> = 2 powr of_int (q + p - 1)"
      by (simp add: powr_add [symmetric] algebra_simps)
    also have "\<dots> \<le> x"
      using floor_log_bounds(1) [of x] pos n by simp
    finally have "1 \<le> x / 2 powr of_int q" by (simp add: pos_le_divide_eq)
    then show ?thesis by linarith
  qed
  then have "(0::real) < of_int (rne (x / 2 powr of_int q))"
    using rne_error [of "x / 2 powr of_int q"] by linarith
  then have "0 < rne (x / 2 powr of_int q)" by (simp only: of_int_0_less_iff)
  then have "1 \<le> rne (x / 2 powr of_int q)" by simp
  then have "(1::real) \<le> of_int (rne (x / 2 powr of_int q))" by simp
  then have "1 * (2::real) powr of_int q \<le> of_int (rne (x / 2 powr of_int q)) * 2 powr of_int q"
    by (intro mult_right_mono) simp_all
  moreover have "(2::real) powr of_int emin \<le> 2 powr of_int q" using ge by simp
  ultimately have "(2::real) powr of_int emin
      \<le> of_int (rne (x / 2 powr of_int q)) * 2 powr of_int q"
    by linarith
  moreover have "fl p emin x = of_int (rne (x / 2 powr of_int q)) * 2 powr of_int q"
    using pos by (simp add: fl_def q_def)
  ultimately show ?thesis by simp
qed


lemma quantum_le:
  assumes "x \<noteq> 0" and "\<bar>x\<bar> < 2 powr of_int k"
  shows "quantum p emin x \<le> max (k - p) emin"
proof -
  have "log 2 \<bar>x\<bar> < of_int k" using assms by (simp add: log_less_iff)
  then have "\<lfloor>log 2 \<bar>x\<bar>\<rfloor> < k" by (simp add: floor_less_iff)
  then show ?thesis by (simp add: quantum_def)
qed

subsection \<open>binary64 and binary32\<close>

lemma fl64_zero [simp]: "fl64 0 = 0"
  by (simp add: fl64_def)

lemma fl64_minus: "fl64 (- x) = - fl64 x"
  by (simp add: fl64_def fl_minus)

lemma fl64_mono: "x \<le> y \<Longrightarrow> fl64 x \<le> fl64 y"
  by (simp add: fl64_def fl_mono)

lemma fl64_nonneg: "0 \<le> x \<Longrightarrow> 0 \<le> fl64 x"
  by (simp add: fl64_def fl_nonneg)

lemma fl64_nonpos: "x \<le> 0 \<Longrightarrow> fl64 x \<le> 0"
  using fl64_mono [of x 0] by simp

lemma fl64_int: "\<bar>n\<bar> < 2 ^ 53 \<Longrightarrow> fl64 (of_int n) = of_int n"
proof -
  assume a: "\<bar>n\<bar> < 2 ^ 53"
  have "(of_int \<bar>n\<bar> :: real) < of_int (2 ^ 53)" using a by (simp only: of_int_less_iff)
  then have b: "\<bar>of_int n :: real\<bar> < 2 powr of_int 53" by simp
  have "of_int n \<noteq> (0::real) \<Longrightarrow> quantum 53 (- 1074) (of_int n) \<le> 0"
    using quantum_le [OF _ b, of 53 "- 1074"] by simp
  then show ?thesis
    unfolding fl64_def by (intro fl_repr [where m = n and k = 0]) simp_all
qed

lemma fl64_numeral [simp]: "numeral n < (2 ^ 53 :: int) \<Longrightarrow> fl64 (numeral n) = numeral n"
  using fl64_int [of "numeral n"] by simp

lemma fl64_one [simp]: "fl64 1 = 1"
  using fl64_int [of 1] by simp

lemma fl64_pow2: "- 1074 \<le> k \<Longrightarrow> fl64 (2 powr of_int k) = 2 powr of_int k"
proof -
  assume a: "- 1074 \<le> k"
  have "\<bar>(2::real) powr of_int k\<bar> < 2 powr of_int (k + 1)" by simp
  then have "quantum 53 (- 1074) (2 powr of_int k) \<le> max (k + 1 - 53) (- 1074)"
    by (intro quantum_le) simp_all
  then have "quantum 53 (- 1074) (2 powr of_int k) \<le> k" using a by simp
  then show ?thesis
    unfolding fl64_def by (intro fl_repr [where m = 1 and k = k]) simp_all
qed

lemma fl64_half [simp]: "fl64 (1 / 2) = 1 / 2"
  using fl64_pow2 [of "- 1"] by (simp add: powr_minus)

lemma fl64_abs_le: "\<bar>x\<bar> \<le> a \<Longrightarrow> fl64 a = a \<Longrightarrow> \<bar>fl64 x\<bar> \<le> a"
  unfolding fl64_def by (rule fl_abs_le) simp_all

lemma fl64_rel_error:
  "2 powr (- 1022) \<le> \<bar>x\<bar> \<Longrightarrow> \<bar>fl64 x - x\<bar> \<le> \<bar>x\<bar> * 2 powr (- 53)"
  using fl_rel_error [of "- 1074" 53 x] by (simp add: fl64_def)

lemma fl64_ge_least: "2 powr (- 1074) / 2 < x \<Longrightarrow> 2 powr (- 1074) \<le> fl64 x"
  using fl_ge_least [of "- 1074" x 53] by (simp add: fl64_def)

lemma fround_zero [simp]: "fround 0 = 0"
  by (simp add: fround_def)

lemma fround_mono: "x \<le> y \<Longrightarrow> fround x \<le> fround y"
  by (simp add: fround_def fl_mono)

lemma fround_int: "\<bar>n\<bar> < 2 ^ 24 \<Longrightarrow> fround (of_int n) = of_int n"
proof -
  assume a: "\<bar>n\<bar> < 2 ^ 24"
  have "(of_int \<bar>n\<bar> :: real) < of_int (2 ^ 24)" using a by (simp only: of_int_less_iff)
  then have b: "\<bar>of_int n :: real\<bar> < 2 powr of_int 24" by simp
  have "of_int n \<noteq> (0::real) \<Longrightarrow> quantum 24 (- 149) (of_int n) \<le> 0"
    using quantum_le [OF _ b, of 24 "- 149"] by simp
  then show ?thesis
    unfolding fround_def by (intro fl_repr [where m = n and k = 0]) simp_all
qed

lemma fround_numeral [simp]: "numeral n < (2 ^ 24 :: int) \<Longrightarrow> fround (numeral n) = numeral n"
  using fround_int [of "numeral n"] by simp

lemma fround_abs_le: "\<bar>x\<bar> \<le> a \<Longrightarrow> fround a = a \<Longrightarrow> \<bar>fround x\<bar> \<le> a"
  unfolding fround_def by (rule fl_abs_le) simp_all

subsection \<open>The constants of the program\<close>

lemma pow2_le: "a \<le> b \<Longrightarrow> (2::real) powr a \<le> 2 powr b"
  by simp

lemma fl64_095:
  "1 / 2 \<le> fl64 0.95" "fl64 0.95 \<le> 1"
  "0.95 - 2 powr (- 53) \<le> fl64 0.95" "fl64 0.95 \<le> 0.95 + 2 powr (- 53)"
proof -
  show "1 / 2 \<le> fl64 0.95" using fl64_mono [of "1 / 2" "0.95"] by simp
  show "fl64 0.95 \<le> 1" using fl64_mono [of "0.95" 1] by simp
  have "(2::real) powr (- 1022) \<le> 2 powr (- 1)" by (rule pow2_le) simp
  then have "(2::real) powr (- 1022) \<le> \<bar>0.95\<bar>" by simp
  then have "\<bar>fl64 0.95 - 0.95\<bar> \<le> \<bar>0.95\<bar> * 2 powr (- 53)"
    by (rule fl64_rel_error)
  moreover have "\<bar>0.95 :: real\<bar> * 2 powr (- 53) \<le> 1 * 2 powr (- 53)"
    by (intro mult_right_mono) simp_all
  ultimately show "0.95 - 2 powr (- 53) \<le> fl64 0.95" "fl64 0.95 \<le> 0.95 + 2 powr (- 53)"
    by linarith+
qed

lemma eps53: "(2::real) powr (- 53) \<le> 1 / 1024"
proof -
  have "(2::real) powr (- 53) \<le> 2 powr (- 10)" by (rule pow2_le) simp
  also have "\<dots> = 1 / 1024" by (simp add: powr_neg_numeral)
  finally show ?thesis .
qed

text \<open>The decay of the shake intensity: positive doubles stay positive doubles.\<close>

lemma pow2_le_pos: "(2::real) powr a \<le> i \<Longrightarrow> 0 < i"
  by (rule less_le_trans [of 0 "2 powr a"]) simp_all

lemma fl64_095_bounds: "9 / 10 \<le> fl64 0.95" "fl64 0.95 \<le> 1"
  using fl64_095 eps53 by simp_all

lemma decay_positive:
  assumes "2 powr (- 1074) \<le> i"
  shows "2 powr (- 1074) \<le> fl64 (i * fl64 0.95)"
proof -
  have u: "(0::real) < 2 powr (- 1074)" by simp
  have i: "0 < i" using assms by (rule pow2_le_pos)
  have "2 powr (- 1074) * (9 / 10) \<le> i * fl64 0.95"
    using assms fl64_095_bounds(1) i by (intro mult_mono) simp_all
  moreover have "2 powr (- 1074) / 2 < 2 powr (- 1074) * (9 / 10 :: real)"
    using u by linarith
  ultimately have "2 powr (- 1074) / 2 < i * fl64 0.95" by linarith
  then show ?thesis by (rule fl64_ge_least)
qed

text \<open>In the normal range the decay is a strict decrease.\<close>

lemma decay_decreases:
  assumes "2 powr (- 1021) \<le> i"
  shows "fl64 (i * fl64 0.95) < i"
proof -
  have i: "0 < i" using assms by (rule pow2_le_pos)
  define y where "y = i * fl64 0.95"
  have "(2::real) powr (- 1022) = 2 powr (- 1021) * (1 / 2)"
    using powr_add [of "2::real" "- 1021" "- 1"] by simp
  also have "\<dots> \<le> i * fl64 0.95"
    using assms fl64_095(1) i by (intro mult_mono) simp_all
  finally have n: "2 powr (- 1022) \<le> \<bar>y\<bar>" by (simp add: y_def)
  have yp: "0 \<le> y" using i fl64_095(1) by (simp add: y_def)
  have "\<bar>fl64 y - y\<bar> \<le> \<bar>y\<bar> * 2 powr (- 53)" using n by (rule fl64_rel_error)
  also have "\<dots> \<le> \<bar>y\<bar> * (1 / 1024)"
    using eps53 by (intro mult_left_mono) simp_all
  finally have "fl64 y \<le> y + y / 1024" using yp by linarith
  moreover have "y \<le> i * (0.95 + 1 / 1024)"
    unfolding y_def using i fl64_095(4) eps53 by (intro mult_left_mono) simp_all
  ultimately have "fl64 y \<le> i * (0.95 + 1 / 1024) * (1 + 1 / 1024)"
    by (simp add: algebra_simps)
  also have "\<dots> < i" using i by simp
  finally show ?thesis by (simp add: y_def)
qed

text \<open>Nine least units is a fixed point of the decay.\<close>

lemma decay_stalls: "fl64 (9 * 2 powr (- 1074) * fl64 0.95) = 9 * 2 powr (- 1074)"
proof -
  define u :: real where "u = 2 powr (- 1074)"
  define c where "c = fl64 0.95"
  have u: "0 < u" by (simp add: u_def)
  have c: "17 / 18 < c" "c \<le> 1" using fl64_095_bounds fl64_095(3) eps53 by (simp_all add: c_def)
  have p1: "(2::real) powr of_int (- 1071) = 8 * u"
    using powr_add [of "2::real" 3 "- 1074"] by (simp add: u_def)
  have p2: "(2::real) powr (of_int (- 1071) + 1) = 16 * u"
    using powr_add [of "2::real" 4 "- 1074"] by (simp add: u_def)
  have "fl 53 (- 1074) (9 * u * c) = of_int 9 * 2 powr of_int (- 1074)"
  proof (rule fl_eval [where e = "- 1071"])
    show "0 < 9 * u * c" using u c by simp
    show "2 powr of_int (- 1071) \<le> 9 * u * c"
      unfolding p1 using u c by (simp add: field_simps)
    show "9 * u * c < 2 powr (of_int (- 1071) + 1)"
      unfolding p2 using u c by (simp add: field_simps)
    show "(- 1074 :: int) = max (- 1071 - 53 + 1) (- 1074)" by simp
    have "9 * u * c / 2 powr of_int (- 1074) = 9 * c" using u by (simp add: u_def)
    then show "\<bar>9 * u * c / 2 powr of_int (- 1074) - of_int 9\<bar> < 1 / 2"
      using c by simp
  qed
  then show ?thesis by (simp add: fl64_def u_def c_def)
qed


text \<open>The decay of the life of an explosion.\<close>

lemma fl64_002: "2 powr (- 6) \<le> fl64 0.02" "fl64 0.02 \<le> 2 powr (- 5)"
proof -
  have a: "(2::real) powr (- 6) = 1 / 64" "(2::real) powr (- 5) = 1 / 32"
    by (simp_all add: powr_neg_numeral)
  have "fl64 (2 powr of_int (- 6)) \<le> fl64 0.02" by (rule fl64_mono) (simp add: a)
  then show "2 powr (- 6) \<le> fl64 0.02" using fl64_pow2 [of "- 6"] by simp
  have "fl64 0.02 \<le> fl64 (2 powr of_int (- 5))" by (rule fl64_mono) (simp add: a)
  then show "fl64 0.02 \<le> 2 powr (- 5)" using fl64_pow2 [of "- 5"] by simp
qed

lemma life_stalls: "fl64 (1 - fl64 (2 powr (- 60) * fl64 0.02)) = 1"
proof -
  define d where "d = fl64 (2 powr (- 60) * fl64 0.02)"
  have c: "0 \<le> fl64 0.02" using fl64_002(1) by (rule order_trans [rotated]) simp
  have "0 \<le> d" unfolding d_def using c by (intro fl64_nonneg) simp
  have "2 powr (- 60) * fl64 0.02 \<le> 2 powr (- 60) * 2 powr (- 5)"
    using fl64_002(2) by (intro mult_left_mono) simp_all
  also have "\<dots> = 2 powr of_int (- 65)" by (simp add: powr_add [symmetric])
  finally have "d \<le> fl64 (2 powr of_int (- 65))" unfolding d_def by (rule fl64_mono)
  then have hi: "d \<le> 2 powr (- 65)" using fl64_pow2 [of "- 65"] by simp
  have e: "(2::real) powr (- 65) = 1 / 2 ^ 65" by (simp add: powr_neg_numeral)
  have "fl 53 (- 1074) (1 - 2 powr (- 65)) = of_int (2 ^ 53) * 2 powr of_int (- 53)"
  proof (rule fl_eval [where e = "- 1"])
    show "0 < 1 - (2::real) powr (- 65)" by (simp add: e)
    show "2 powr of_int (- 1) \<le> 1 - (2::real) powr (- 65)" by (simp add: e)
    show "1 - (2::real) powr (- 65) < 2 powr (of_int (- 1) + 1)" by (simp add: e)
    show "(- 53 :: int) = max (- 1 - 53 + 1) (- 1074)" by simp
    show "\<bar>(1 - 2 powr (- 65)) / 2 powr of_int (- 53) - of_int (2 ^ 53)\<bar> < (1 / 2 :: real)"
      by (simp add: e powr_neg_numeral)
  qed
  then have lo: "fl64 (1 - 2 powr (- 65)) = 1" by (simp add: fl64_def powr_neg_numeral)
  have "fl64 (1 - 2 powr (- 65)) \<le> fl64 (1 - d)" using hi by (intro fl64_mono) simp
  moreover have "fl64 (1 - d) \<le> fl64 1" using \<open>0 \<le> d\<close> by (intro fl64_mono) simp
  ultimately show ?thesis using lo by (simp add: d_def)
qed

lemma life_decreases:
  assumes "2 powr (- 47) \<le> dt" and "0 < l" and "l \<le> 1"
  shows "fl64 (l - fl64 (dt * fl64 0.02)) < l"
proof -
  define d where "d = fl64 (dt * fl64 0.02)"
  define w where "w = l - 2 powr (- 53)"
  have dt: "0 < dt" using assms(1) by (rule pow2_le_pos)
  have "(2::real) powr of_int (- 53) = 2 powr (- 47) * 2 powr (- 6)"
    by (simp add: powr_add [symmetric])
  also have "\<dots> \<le> dt * fl64 0.02"
    using assms(1) fl64_002(1) dt by (intro mult_mono) simp_all
  finally have "fl64 (2 powr of_int (- 53)) \<le> d" unfolding d_def by (rule fl64_mono)
  then have "2 powr (- 53) \<le> d" using fl64_pow2 [of "- 53"] by simp
  then have le: "fl64 (l - d) \<le> fl64 w" unfolding w_def by (intro fl64_mono) simp
  have "fl64 w < l"
  proof (cases "w \<le> 0")
    case True
    then have "fl64 w \<le> 0" by (rule fl64_nonpos)
    then show ?thesis using assms(2) by simp
  next
    case False
    have "(0::real) < 2 powr (- 53)" by simp
    then have "w < 1" using assms(3) unfolding w_def by linarith
    then have w1: "\<bar>w\<bar> < 2 powr of_int 0" using False by simp
    have "quantum 53 (- 1074) w \<le> max (0 - 53) (- 1074)"
      using False by (intro quantum_le [OF _ w1]) simp
    then have q: "quantum 53 (- 1074) w \<le> - 53" by simp
    have "\<bar>fl64 w - w\<bar> \<le> 2 powr of_int (quantum 53 (- 1074) w) / 2"
      unfolding fl64_def by (rule fl_error)
    also have "\<dots> \<le> 2 powr of_int (- 53) / 2"
      using q by (intro divide_right_mono pow2_le) simp_all
    finally have "\<bar>fl64 w - w\<bar> \<le> 2 powr (- 53) / 2" by simp
    then have "fl64 w \<le> w + 2 powr (- 53) / 2" by linarith
    moreover have "(0::real) < 2 powr (- 53)" by simp
    ultimately show ?thesis unfolding w_def by linarith
  qed
  then show ?thesis using le by (simp add: d_def)
qed

lemma life_never_increases:
  assumes "0 \<le> dt" and "fl64 l = l"
  shows "fl64 (l - fl64 (dt * fl64 0.02)) \<le> l"
proof -
  have c: "0 \<le> fl64 0.02" using fl64_002(1) by (rule order_trans [rotated]) simp
  have "0 \<le> fl64 (dt * fl64 0.02)" using assms(1) c by (intro fl64_nonneg) simp
  then have "fl64 (l - fl64 (dt * fl64 0.02)) \<le> fl64 l" by (intro fl64_mono) simp
  then show ?thesis using assms(2) by simp
qed

text \<open>The double next to 1/50, and one update of a life of that size with \<open>deltaTime = 1\<close>.\<close>

lemma fl64_002_value: "fl64 0.02 = 5764607523034235 / 2 ^ 58"
proof -
  have "fl 53 (- 1074) (1 / 50) = of_int 5764607523034235 * 2 powr of_int (- 58)"
  proof (rule fl_eval [where e = "- 6"])
    show "(0::real) < 1 / 50" by simp
    show "2 powr of_int (- 6) \<le> (1 / 50 :: real)" by (simp add: powr_neg_numeral)
    show "(1 / 50 :: real) < 2 powr (of_int (- 6) + 1)" by (simp add: powr_neg_numeral)
    show "(- 58 :: int) = max (- 6 - 53 + 1) (- 1074)" by simp
    show "\<bar>1 / 50 / 2 powr of_int (- 58) - of_int 5764607523034235\<bar> < (1 / 2 :: real)"
      by (simp add: powr_neg_numeral)
  qed
  then show ?thesis by (simp add: fl64_def powr_neg_numeral)
qed

lemma fl64_002_fixed: "fl64 (fl64 0.02) = fl64 0.02"
proof -
  have v: "fl64 0.02 = of_int 5764607523034235 * 2 powr of_int (- 58)"
    using fl64_002_value by (simp add: powr_neg_numeral)
  have b: "\<bar>fl64 0.02\<bar> < 2 powr of_int (- 5)"
    using fl64_002_value by (simp add: powr_neg_numeral)
  have "quantum 53 (- 1074) (fl64 0.02) \<le> max (- 5 - 53) (- 1074)"
    using fl64_002_value by (intro quantum_le [OF _ b]) simp
  then have "quantum 53 (- 1074) (fl64 0.02) \<le> - 58" by simp
  then have "fl 53 (- 1074) (fl64 0.02) = fl64 0.02"
    by (intro fl_repr [OF v]) simp
  then show ?thesis by (simp add: fl64_def)
qed

lemma life_ends: "fl64 (fl64 0.02 - fl64 (1 * fl64 0.02)) = 0"
  using fl64_002_fixed by simp

text \<open>The position that a wrap draws.\<close>

lemma reset_bound:
  assumes "0 \<le> r" and "r < 1"
  shows "\<bar>fround (fl64 (fl64 (r - 0.5) * 50))\<bar> \<le> 25"
proof -
  have "\<bar>r - 0.5\<bar> \<le> 1 / 2" using assms by linarith
  then have "\<bar>fl64 (r - 0.5)\<bar> \<le> 1 / 2" by (intro fl64_abs_le) simp_all
  then have "\<bar>fl64 (r - 0.5) * 50\<bar> \<le> 25" by (simp add: abs_mult)
  then have "\<bar>fl64 (fl64 (r - 0.5) * 50)\<bar> \<le> 25" by (intro fl64_abs_le) simp_all
  then show ?thesis by (intro fround_abs_le) simp_all
qed

text \<open>The division of \<^verbatim>\<open>finishBenchmark\<close>.\<close>

lemma js_div_finite:
  "b \<noteq> 0 \<Longrightarrow> \<bar>fl64 (a / b)\<bar> < 2 ^ 1024 \<Longrightarrow> js_div a b = Finite (fl64 (a / b))"
  by (simp add: js_div_def abs_less_iff)

lemma js_div_zero:
  "js_div a 0 = (if a = 0 then NaN else if 0 < a then PosInfinity else NegInfinity)"
  by (simp add: js_div_def)

lemma js_div_negative:
  assumes "0 \<le> a" and "b < 0"
  shows "fl64 (a / b) \<le> 0"
    and "js_div a b = (if fl64 (a / b) \<le> - (2 ^ 1024) then NegInfinity else Finite (fl64 (a / b)))"
proof -
  have "a / b \<le> 0" using assms by (simp add: divide_nonneg_neg)
  then show le: "fl64 (a / b) \<le> 0" by (rule fl64_nonpos)
  have "(0::real) < 2 ^ 1024" by simp
  then have "\<not> 2 ^ 1024 \<le> fl64 (a / b)" using le by linarith
  then show "js_div a b = (if fl64 (a / b) \<le> - (2 ^ 1024) then NegInfinity else Finite (fl64 (a / b)))"
    using assms(2) by (simp add: js_div_def)
qed

lemma js_div_60: "js_div 1800 30 = Finite 60"
proof -
  have "(60::real) < 2 ^ 1024" by simp
  then show ?thesis by (simp add: js_div_def)
qed

text \<open>
  One frame in 0.01818181818181818 s (the double \<open>2620276146833743 / 2 ^ 57\<close>): the
  quotient, a little above 55, rounds to 55.
\<close>

lemma js_div_55: "js_div 1 (2620276146833743 / 2 ^ 57) = Finite 55"
proof -
  have "fl 53 (- 1074) (1 / (2620276146833743 / 2 ^ 57))
      = of_int (55 * 2 ^ 47) * 2 powr of_int (- 47)"
  proof (rule fl_eval [where e = 5])
    show "(0::real) < 1 / (2620276146833743 / 2 ^ 57)" by simp
    show "2 powr of_int 5 \<le> (1 / (2620276146833743 / 2 ^ 57) :: real)" by simp
    show "(1 / (2620276146833743 / 2 ^ 57) :: real) < 2 powr (of_int 5 + 1)" by simp
    show "(- 47 :: int) = max (5 - 53 + 1) (- 1074)" by simp
    show "\<bar>1 / (2620276146833743 / 2 ^ 57) / 2 powr of_int (- 47) - of_int (55 * 2 ^ 47)\<bar>
        < (1 / 2 :: real)"
      by (simp add: powr_neg_numeral)
  qed
  then have "fl64 (1 / (2620276146833743 / 2 ^ 57)) = 55"
    by (simp add: fl64_def powr_neg_numeral)
  moreover have "(55::real) < 2 ^ 1024" by simp
  ultimately show ?thesis by (simp add: js_div_def)
qed

text \<open>
  A step of \<open>2 ^ -20\<close> from 150 is lost in the binary32 slot: the sum is a double, the next
  binary32 values around 150 are \<open>2 ^ -16\<close> apart.
\<close>

lemma store_absorbs: "fround (fl64 (150 + fl64 (1 / 2 ^ 20 * 1))) = 150"
proof -
  have a: "fl64 (1 / 2 ^ 20) = 1 / 2 ^ 20"
    using fl64_pow2 [of "- 20"] by (simp add: powr_neg_numeral)
  have v: "(150 + 1 / 2 ^ 20 :: real) = of_int (150 * 2 ^ 20 + 1) * 2 powr of_int (- 20)"
    by (simp add: powr_neg_numeral)
  have b: "\<bar>150 + 1 / 2 ^ 20 :: real\<bar> < 2 powr of_int 8" by simp
  have "quantum 53 (- 1074) (150 + 1 / 2 ^ 20) \<le> max (8 - 53) (- 1074)"
    by (intro quantum_le [OF _ b]) simp
  then have "quantum 53 (- 1074) (150 + 1 / 2 ^ 20) \<le> - 20" by simp
  then have "fl 53 (- 1074) (150 + 1 / 2 ^ 20) = 150 + 1 / 2 ^ 20"
    by (intro fl_repr [OF v]) simp
  then have s: "fl64 (150 + 1 / 2 ^ 20) = 150 + 1 / 2 ^ 20" by (simp add: fl64_def)
  have "fl 24 (- 149) (150 + 1 / 2 ^ 20) = of_int (150 * 2 ^ 16) * 2 powr of_int (- 16)"
  proof (rule fl_eval [where e = 7])
    show "(0::real) < 150 + 1 / 2 ^ 20" by simp
    show "2 powr of_int 7 \<le> (150 + 1 / 2 ^ 20 :: real)" by simp
    show "(150 + 1 / 2 ^ 20 :: real) < 2 powr (of_int 7 + 1)" by simp
    show "(- 16 :: int) = max (7 - 24 + 1) (- 149)" by simp
    show "\<bar>(150 + 1 / 2 ^ 20) / 2 powr of_int (- 16) - of_int (150 * 2 ^ 16)\<bar> < (1 / 2 :: real)"
      by (simp add: powr_neg_numeral)
  qed
  then have f: "fround (150 + 1 / 2 ^ 20) = 150" by (simp add: fround_def powr_neg_numeral)
  show ?thesis by (simp only: mult_1_right a s f)
qed

text \<open>The chance of an explosion is positive.\<close>

lemma fl64_00001: "0 < fl64 0.0001"
proof -
  have "(2::real) powr (- 14) \<le> 0.0001" by (simp add: powr_neg_numeral)
  then have "fl64 (2 powr of_int (- 14)) \<le> fl64 0.0001" using fl64_mono by simp
  then have "2 powr (- 14) \<le> fl64 0.0001" using fl64_pow2 [of "- 14"] by simp
  then show ?thesis by (rule pow2_le_pos)
qed

text \<open>Every double is a whole number of least units.\<close>

lemma fl64_grid: "\<exists>k. fl64 x = of_int k * 2 powr (- 1074)"
proof (cases "x = 0")
  case True
  then show ?thesis by (intro exI [of _ 0]) simp
next
  case False
  define q where "q = quantum 53 (- 1074) x"
  have ge: "- 1074 \<le> q" by (simp add: q_def quantum_def)
  have "(2::real) powr of_int q = 2 powr of_int (q + 1074) * 2 powr (- 1074)"
    by (simp add: powr_add [symmetric])
  also have "\<dots> = of_int (2 ^ nat (q + 1074)) * 2 powr (- 1074)"
    using ge by (subst two_powr_int) simp_all
  finally have "fl64 x = of_int (rne (x / 2 powr of_int q) * 2 ^ nat (q + 1074)) * 2 powr (- 1074)"
    using False by (simp add: fl64_def fl_def q_def)
  then show ?thesis by blast
qed

lemma no_infinite_descent: "\<not> (\<forall>n. f (Suc n) < (f n :: nat))"
proof
  assume a: "\<forall>n. f (Suc n) < f n"
  have "f n + n \<le> f 0" for n
  proof (induction n)
    case 0
    then show ?case by simp
  next
    case (Suc n)
    then show ?case using a [rule_format, of n] by simp
  qed
  from this [of "Suc (f 0)"] show False by simp
qed

text \<open>
  A sequence of doubles, each at least the least unit, cannot decrease strictly for
  ever.
\<close>

lemma doubles_come_to_rest:
  fixes g :: "nat \<Rightarrow> real"
  assumes "\<And>n. \<exists>k. g n = of_int k * 2 powr (- 1074)" and "\<And>n. 2 powr (- 1074) \<le> g n"
  shows "\<exists>n. \<not> g (Suc n) < g n"
proof (rule ccontr)
  assume "\<not> (\<exists>n. \<not> g (Suc n) < g n)"
  then have d: "\<And>n. g (Suc n) < g n" by simp
  define u :: real where "u = 2 powr (- 1074)"
  have u: "0 < u" by (simp add: u_def)
  define f where "f n = nat \<lfloor>g n / u\<rfloor>" for n
  have v: "g n = of_nat (f n) * u" for n
  proof -
    obtain k where k: "g n = of_int k * u" using assms(1) [of n] by (auto simp: u_def)
    have "0 < g n" using assms(2) [of n] by (rule pow2_le_pos)
    then have "0 < (of_int k :: real)" using k u by (simp add: zero_less_mult_iff)
    then have "0 < k" by simp
    moreover have "g n / u = of_int k" using k u by simp
    ultimately show ?thesis using k by (simp add: f_def)
  qed
  have "f (Suc n) < f n" for n
  proof -
    have "of_nat (f (Suc n)) * u < of_nat (f n) * u" using d [of n] by (simp only: v)
    then have "(of_nat (f (Suc n)) :: real) < of_nat (f n)" using u by simp
    then show ?thesis by simp
  qed
  then show False using no_infinite_descent [of f] by blast
qed

section \<open>Auxiliary facts\<close>

lemma for_loop_step:
  "i < n \<Longrightarrow> 0 < step \<Longrightarrow> for_loop step n body i st = for_loop step n body (i + step) (body i st)"
  by (subst for_loop.simps) simp

lemma for_loop_done:
  "\<not> i < n \<Longrightarrow> for_loop step n body i st = st"
  by (subst for_loop.simps) simp

lemma for_loop_invariant:
  assumes "P st" and "\<And>j x. P x \<Longrightarrow> P (body j x)"
  shows "P (for_loop step n body i st)"
  using assms
proof (induction step n body i st rule: for_loop.induct)
  case (1 step n body i st)
  show ?case
  proof (cases "i < n \<and> 0 < step")
    case True
    have "P (body i st)" using 1(2,3) by blast
    then have "P (for_loop step n body (i + step) (body i st))"
      using 1(1) [OF True] 1(3) by blast
    then show ?thesis using True by (simp add: for_loop_step)
  next
    case False
    then show ?thesis using 1(2) by (subst for_loop.simps) auto
  qed
qed

lemma for_loop_preserve:
  assumes "\<And>j x. f (body j x) = f x"
  shows "f (for_loop step n body i st) = f st"
  by (rule for_loop_invariant [where P = "\<lambda>x. f x = f st"]) (simp_all add: assms)

lemma control_update [simp]:
  "control (s\<lparr>cubes := a1\<rparr>) = control s"
  "control (s\<lparr>lights := a2\<rparr>) = control s"
  "control (s\<lparr>particleSystem := a3\<rparr>) = control s"
  "control (s\<lparr>explosionParticles := a4\<rparr>) = control s"
  "control (s\<lparr>cameraShake := a5\<rparr>) = control s"
  "control (s\<lparr>scene := a6\<rparr>) = control s"
  "control (s\<lparr>disposed := a7\<rparr>) = control s"
  "control (s\<lparr>scene_rotation := a8\<rparr>) = control s"
  "control (s\<lparr>camera_position := a9\<rparr>) = control s"
  "control (s\<lparr>fog := a10\<rparr>) = control s"
  "control (s\<lparr>rngCalls := a12\<rparr>) = control s"
  "control (s\<lparr>clockCalls := a13\<rparr>) = control s"
  "control (s\<lparr>nextId := a14\<rparr>) = control s"
  by (simp_all add: control_def)

subsection \<open>createExplosionEffect\<close>

lemma createExplosionEffect_control [simp]:
  "control (createExplosionEffect e p s) = control s"
  by (simp add: createExplosionEffect_def split: prod.splits)

lemma createExplosionEffect_shake [simp]:
  "cameraShake (createExplosionEffect e p s) = cameraShake s"
  by (simp add: createExplosionEffect_def split: prod.splits)

lemma createExplosionEffect_nextId [simp]:
  "nextId (createExplosionEffect e p s) = nextId s + 1"
  by (simp add: createExplosionEffect_def split: prod.splits)

lemma createExplosionEffect_pool:
  "\<exists>x. explosionParticles (createExplosionEffect e p s) = explosionParticles s @ [x]
       \<and> life x = 1 \<and> points_id x = nextId s"
  by (simp add: createExplosionEffect_def split: prod.splits)

lemma createExplosionEffect_length [simp]:
  "length (explosionParticles (createExplosionEffect e p s)) = length (explosionParticles s) + 1"
  using createExplosionEffect_pool [of e p s] by auto

subsection \<open>cubes\<close>

lemma cube_callback_control:
  "control (snd (cube_callback e t c s)) = control s"
  by (simp add: cube_callback_def Let_def)

lemma forEach_cubes_control:
  "control (snd (forEach_cubes e t cs s)) = control s"
proof (induction cs arbitrary: s)
  case Nil
  then show ?case by simp
next
  case (Cons c cs)
  show ?case
    using Cons [of "snd (cube_callback e t c s)"] cube_callback_control [of e t c s]
    by (simp add: split_beta)
qed

lemma animate_cubes_control [simp]:
  "control (animate_cubes e t s) = control s"
  using forEach_cubes_control [of e t "cubes s" s]
  by (simp add: animate_cubes_def split_beta)

lemma animate_lights_control [simp]:
  "control (animate_lights t s) = control s"
  by (simp add: animate_lights_def)

lemma updateParticles_control [simp]:
  "control (updateParticles e dt s) = control s"
  by (simp add: updateParticles_def split_beta split: option.splits)

lemma updateExplosions_loop_control:
  "control (updateExplosions_loop n dt s) = control s"
  by (induction n arbitrary: s) (simp_all add: Let_def)

lemma updateExplosions_control [simp]:
  "control (updateExplosions dt s) = control s"
  by (simp add: updateExplosions_def updateExplosions_loop_control)

lemma animate_shake_control [simp]:
  "control (animate_shake e s) = control s"
  by (simp add: animate_shake_def Let_def)

lemma animate_camera_control [simp]:
  "control (animate_camera t s) = control s"
  by (simp add: animate_camera_def Let_def)

lemma animate_scene_control [simp]:
  "control (animate_scene e t dt s) = control s"
  by (simp add: animate_scene_def)

lemma animate_update_control [simp]:
  "control (animate_update e t dt s) = control s"
  by (simp add: animate_update_def)

lemma control_fields:
  assumes "control s' = control s"
  shows "frameCount s' = frameCount s" "totalTime s' = totalTime s" "running s' = running s"
    "startTime s' = startTime s" "lastTime s' = lastTime s"
    "resultBox_display s' = resultBox_display s" "resultBox_content s' = resultBox_content s"
    "ui_display s' = ui_display s" "qualitySelect s' = qualitySelect s"
    "pendingFrames s' = pendingFrames s" "timers s' = timers s"
  using assms by (simp_all add: control_def)

lemmas animate_update_fields [simp] = control_fields [OF animate_update_control]

lemma qualitySettings_insane [simp]: "qualitySettings ''insane'' = Tier insane"
  by (simp add: qualitySettings_def)

lemma clearScene_control [simp]: "control (clearScene s) = control s"
  by (simp add: clearScene_def Let_def split: option.splits)

lemma add_cube_control [simp]: "control (add_cube e i s) = control s"
  by (simp add: add_cube_def)

lemma add_light_control [simp]: "control (add_light e b i s) = control s"
  by (simp add: add_light_def Let_def)

lemma ambient_step_control [simp]: "control (ambient_step s) = control s"
  by (simp add: ambient_step_def)

lemma populate_control [simp]: "control (populate e st s) = control s"
  by (simp add: populate_def Let_def for_loop_preserve [where f = control])

lemma setupScene_control [simp]: "control (snd (setupScene e q s)) = control s"
  by (simp add: setupScene_def Let_def split: tier_entry.splits)

lemma setupScene_error:
  "fst (setupScene e q s) = (if qualitySettings q = Undefined then Some TypeError else None)"
  by (simp add: setupScene_def Let_def split: tier_entry.splits)

lemma finishBenchmark_known:
  assumes "qualitySettings (qualitySelect s) \<noteq> Undefined"
  shows "finishBenchmark s =
    (None, s\<lparr>running := False,
       resultBox_content := Some \<lparr>avgFPS = js_div (real (frameCount s)) (totalTime s),
          performance = fst (classify (js_div (real (frameCount s)) (totalTime s))),
          report_emoji = snd (classify (js_div (real (frameCount s)) (totalTime s))),
          quality = qualitySelect s,
          report_cubes = get_prop s_cubes (qualitySettings (qualitySelect s)),
          report_particles = get_prop s_particles (qualitySettings (qualitySelect s)),
          report_lights = get_prop s_lights (qualitySettings (qualitySelect s)),
          duration = totalTime s\<rparr>,
       resultBox_display := True\<rparr>)"
  using assms
  by (cases "qualitySettings (qualitySelect s)")
     (simp_all add: finishBenchmark_def Let_def split: prod.splits)

lemma finishBenchmark_unknown:
  assumes "qualitySettings (qualitySelect s) = Undefined"
  shows "finishBenchmark s = (Some TypeError, s\<lparr>running := False\<rparr>)"
  using assms by (simp add: finishBenchmark_def Let_def split: prod.splits)

lemma elapsed_same [simp]: "elapsed t t = 0"
  by (simp add: elapsed_def)

text \<open>animate, one frame of a running state that goes on\<close>

lemma animate_continue:
  assumes "running s"
    and "elapsed (startTime s) (performance_now e (clockCalls s)) < maxTime"
  shows "animate e s =
    (None, (animate_update e (performance_now e (clockCalls s))
              (deltaTime_of (lastTime s) (performance_now e (clockCalls s)))
              (s\<lparr>clockCalls := clockCalls s + 1,
                 lastTime := Some (performance_now e (clockCalls s))\<rparr>))
           \<lparr>frameCount := frameCount s + 1,
            totalTime := elapsed (startTime s) (performance_now e (clockCalls s)),
            pendingFrames := pendingFrames s + 1\<rparr>)"
  using assms by (simp add: animate_def Let_def)

lemma animate_idle: "\<not> running s \<Longrightarrow> animate e s = (None, s)"
  by (simp add: animate_def)


lemma clearScene_clockCalls [simp]: "clockCalls (clearScene s) = clockCalls s"
  by (simp add: clearScene_def Let_def split: option.splits)

lemma ambient_step_clockCalls [simp]: "clockCalls (ambient_step s) = clockCalls s"
  by (simp add: ambient_step_def)

lemma populate_clockCalls [simp]: "clockCalls (populate e st s) = clockCalls s"
  by (simp add: populate_def Let_def add_cube_def add_light_def
        for_loop_preserve [where f = clockCalls])

lemma setupScene_clockCalls [simp]: "clockCalls (snd (setupScene e q s)) = clockCalls s"
  by (simp add: setupScene_def Let_def split: tier_entry.splits)

lemmas setupScene_fields [simp] = control_fields [OF setupScene_control]

lemma setupScene_known:
  "qualitySettings q \<noteq> Undefined \<Longrightarrow> setupScene e q s = (None, snd (setupScene e q s))"
  by (simp add: setupScene_def Let_def split: tier_entry.splits)

lemma setupScene_unknown:
  "qualitySettings q = Undefined \<Longrightarrow> setupScene e q s = (Some TypeError, snd (setupScene e q s))"
  by (simp add: setupScene_def Let_def split: tier_entry.splits)

lemma startBenchmark_alt:
  "startBenchmark e s =
     (let s1 = s\<lparr>running := True, frameCount := 0, totalTime := 0,
                 startTime := performance_now e (clockCalls s),
                 clockCalls := clockCalls s + 1,
                 resultBox_display := False,
                 ui_display := False\<rparr>;
          s2 = snd (setupScene e (qualitySelect s) s1)
      in if qualitySettings (qualitySelect s) = Undefined then (Some TypeError, s2)
         else animate e (s2\<lparr>timers := timers s2 @ [(2000, ScriptedSequence)]\<rparr>))"
proof -
  let ?s1 = "s\<lparr>running := True, frameCount := 0, totalTime := 0,
                 startTime := performance_now e (clockCalls s),
                 clockCalls := clockCalls s + 1,
                 resultBox_display := False,
                 ui_display := False\<rparr>"
  obtain err s2 where p: "setupScene e (qualitySelect s) ?s1 = (err, s2)"
    by (cases "setupScene e (qualitySelect s) ?s1")
  have "err = (if qualitySettings (qualitySelect s) = Undefined then Some TypeError else None)"
    using setupScene_error [of e "qualitySelect s" ?s1] p by simp
  then show ?thesis
    using p by (simp add: startBenchmark_def Let_def del: setupScene_fields)
qed

lemma startBenchmark_unknown:
  assumes "qualitySettings (qualitySelect s) = Undefined"
  shows "fst (startBenchmark e s) = Some TypeError"
    and "control (snd (startBenchmark e s)) =
      (0, 0, True, performance_now e (clockCalls s), lastTime s, False, resultBox_content s,
       False, qualitySelect s, pendingFrames s, timers s)"
proof -
  let ?s1 = "s\<lparr>running := True, frameCount := 0, totalTime := 0,
                 startTime := performance_now e (clockCalls s),
                 clockCalls := clockCalls s + 1,
                 resultBox_display := False,
                 ui_display := False\<rparr>"
  have eq: "startBenchmark e s = (Some TypeError, snd (setupScene e (qualitySelect s) ?s1))"
    using assms by (simp add: startBenchmark_alt Let_def)
  show "fst (startBenchmark e s) = Some TypeError" by (simp add: eq)
  show "control (snd (startBenchmark e s)) =
      (0, 0, True, performance_now e (clockCalls s), lastTime s, False, resultBox_content s,
       False, qualitySelect s, pendingFrames s, timers s)"
    by (simp add: eq) (simp add: control_def)
qed

lemma startBenchmark_known:
  assumes "qualitySettings (qualitySelect s) \<noteq> Undefined"
    and "elapsed (performance_now e (clockCalls s)) (performance_now e (clockCalls s + 1))
           < maxTime"
  shows "fst (startBenchmark e s) = None"
    and "control (snd (startBenchmark e s)) =
      (1, elapsed (performance_now e (clockCalls s)) (performance_now e (clockCalls s + 1)),
       True, performance_now e (clockCalls s), Some (performance_now e (clockCalls s + 1)),
       False, resultBox_content s, False, qualitySelect s, pendingFrames s + 1,
       timers s @ [(2000, ScriptedSequence)])"
proof -
  let ?s1 = "s\<lparr>running := True, frameCount := 0, totalTime := 0,
                 startTime := performance_now e (clockCalls s),
                 clockCalls := clockCalls s + 1,
                 resultBox_display := False,
                 ui_display := False\<rparr>"
  let ?s2 = "snd (setupScene e (qualitySelect s) ?s1)"
  let ?s3 = "?s2\<lparr>timers := timers ?s2 @ [(2000, ScriptedSequence)]\<rparr>"
  have eq: "startBenchmark e s = animate e ?s3"
    using assms(1) by (simp add: startBenchmark_alt Let_def)
  have run: "running ?s3" by simp
  have tm: "elapsed (startTime ?s3) (performance_now e (clockCalls ?s3)) < maxTime"
    using assms(2) by simp
  note an = animate_continue [OF run tm]
  show "fst (startBenchmark e s) = None" using an by (simp add: eq)
  show "control (snd (startBenchmark e s)) =
      (1, elapsed (performance_now e (clockCalls s)) (performance_now e (clockCalls s + 1)),
       True, performance_now e (clockCalls s), Some (performance_now e (clockCalls s + 1)),
       False, resultBox_content s, False, qualitySelect s, pendingFrames s + 1,
       timers s @ [(2000, ScriptedSequence)])"
    using an by (simp add: eq) (simp add: control_def)
qed

lemma classify_bucket: "fst (classify fps) = spec_bucket spec_thresholds fps"
  by (simp add: classify_def spec_thresholds_def)

lemma control_eqD:
  assumes "control s = (fc, tt, r, st, lt, rd, rc, ud, q, pf, tm)"
  shows "frameCount s = fc" "totalTime s = tt" "running s = r" "startTime s = st"
    "lastTime s = lt" "resultBox_display s = rd" "resultBox_content s = rc"
    "ui_display s = ud" "qualitySelect s = q" "pendingFrames s = pf" "timers s = tm"
  using assms by (simp_all add: control_def)

lemma init_fields [simp]:
  "frameCount (init q) = 0" "totalTime (init q) = 0" "running (init q) = False"
  "startTime (init q) = 0" "lastTime (init q) = None" "resultBox_display (init q) = False"
  "resultBox_content (init q) = None" "ui_display (init q) = True"
  "qualitySelect (init q) = q" "pendingFrames (init q) = 0" "timers (init q) = []"
  "rngCalls (init q) = 0" "nextId (init q) = 0" "cubes (init q) = []"
  "lights (init q) = []" "particleSystem (init q) = None" "explosionParticles (init q) = []"
  "scene (init q) = []" "disposed (init q) = []"
  "cameraShake (init q) = \<lparr>shake_x = 0, shake_y = 0, intensity = 0\<rparr>"
  by (simp_all add: init_def)

lemma init_clockCalls [simp]: "clockCalls (init q) = 0"
  by (simp add: init_def)

lemma env0_simps [simp]: "performance_now env0 k = 0" "math_random env0 k = 0"
  by (simp_all add: env0_def)

lemma qualitySettings_low [simp]: "qualitySettings ''low'' = Undefined"
  by (simp add: qualitySettings_def object_prototype_keys_def)

lemma qualitySettings_constructor [simp]: "qualitySettings ''constructor'' = Inherited"
  by (simp add: qualitySettings_def object_prototype_keys_def)

subsection \<open>The particle loop\<close>

lemma particle_body_length:
  "length (fst (particle_body e dt vel i st)) = length (fst st)"
  by (cases st) (simp add: particle_body_def Let_def split: prod.splits)

lemma particle_body_other:
  "j \<noteq> i \<Longrightarrow> j \<noteq> i + 1 \<Longrightarrow> j \<noteq> i + 2 \<Longrightarrow> fst (particle_body e dt vel i st) ! j = fst st ! j"
  by (cases st) (simp add: particle_body_def Let_def split: prod.splits)

lemma rng_wrap_bound:
  "rng_ok e \<Longrightarrow> \<bar>fround (fl64 (fl64 (math_random e k - 0.5) * 50))\<bar> \<le> 25"
  by (rule reset_bound) (simp_all add: rng_ok_def)

lemma particle_body_slot:
  assumes "rng_ok e" "i + 2 < length (fst st)"
  shows "slot_ok e dt (fst st) vel i (fst (particle_body e dt vel i st))"
proof -
  obtain pos col r c where st: "st = (pos, col, r, c)" by (cases st)
  have b: "\<bar>fround (fl64 (fl64 (math_random e r - 0.5) * 50))\<bar> \<le> 25"
    "\<bar>fround (fl64 (fl64 (math_random e (Suc r) - 0.5) * 50))\<bar> \<le> 25"
    "\<bar>fround (fl64 (fl64 (math_random e (Suc (Suc r)) - 0.5) * 50))\<bar> \<le> 25"
    using assms(1) by (rule rng_wrap_bound)+
  have "\<exists>j. fround (fl64 (fl64 (math_random e r - 0.5) * 50))
             = fround (fl64 (fl64 (math_random e j - 0.5) * 50))
        \<and> fround (fl64 (fl64 (math_random e (Suc r) - 0.5) * 50))
             = fround (fl64 (fl64 (math_random e (Suc j) - 0.5) * 50))
        \<and> fround (fl64 (fl64 (math_random e (Suc (Suc r)) - 0.5) * 50))
             = fround (fl64 (fl64 (math_random e (Suc (Suc j)) - 0.5) * 50))"
    by (rule exI [of _ r]) simp
  then show ?thesis
    using assms(2) b
    by (simp add: st particle_body_def slot_ok_def Let_def split: prod.splits)
qed

lemma particles_loop_length:
  "length (fst (for_loop 3 n (particle_body e dt vel) i st)) = length (fst st)"
  by (rule for_loop_preserve) (rule particle_body_length)

lemma particles_loop_below:
  "j < i \<Longrightarrow> fst (for_loop 3 n (particle_body e dt vel) i st) ! j = fst st ! j"
proof (induction "3::nat" n "particle_body e dt vel" i st rule: for_loop.induct)
  case (1 n i st)
  show ?case
  proof (cases "i < n")
    case True
    then show ?thesis using 1 by (simp add: for_loop_step particle_body_other)
  next
    case False
    then show ?thesis by (simp add: for_loop_done)
  qed
qed

lemma slot_ok_cong:
  "pos1 ! k = pos2 ! k \<Longrightarrow> pos1 ! (k + 1) = pos2 ! (k + 1) \<Longrightarrow> pos1 ! (k + 2) = pos2 ! (k + 2)
   \<Longrightarrow> slot_ok e dt pos1 vel k p = slot_ok e dt pos2 vel k p"
  by (simp add: slot_ok_def)

lemma slot_ok_cong2:
  "p1 ! k = p2 ! k \<Longrightarrow> p1 ! (k + 1) = p2 ! (k + 1) \<Longrightarrow> p1 ! (k + 2) = p2 ! (k + 2)
   \<Longrightarrow> slot_ok e dt pos vel k p1 = slot_ok e dt pos vel k p2"
  by (simp add: slot_ok_def)

lemma particles_loop_slot:
  assumes "rng_ok e"
  shows "i \<le> k \<Longrightarrow> 3 dvd (k - i) \<Longrightarrow> k + 2 < n \<Longrightarrow> n = length (fst st)
    \<Longrightarrow> slot_ok e dt (fst st) vel k (fst (for_loop 3 n (particle_body e dt vel) i st))"
proof (induction "3::nat" n "particle_body e dt vel" i st rule: for_loop.induct)
  case (1 n i st)
  have lt: "i < n" using 1 by simp
  show ?case
  proof (cases "i = k")
    case True
    have "slot_ok e dt (fst st) vel k (fst (particle_body e dt vel k st))"
      using 1 True assms by (simp add: particle_body_slot)
    moreover have "\<And>j. j < k + 3 \<Longrightarrow> fst (for_loop 3 n (particle_body e dt vel) (k + 3) (particle_body e dt vel k st)) ! j
        = fst (particle_body e dt vel k st) ! j"
      by (rule particles_loop_below)
    ultimately show ?thesis using True lt
      by (simp add: for_loop_step slot_ok_cong2 [where ?p1.0 = "fst (for_loop 3 n (particle_body e dt vel) (k + 3) (particle_body e dt vel k st))" and ?p2.0 = "fst (particle_body e dt vel k st)"])
  next
    case False
    then have le: "i + 3 \<le> k" using 1(2,3) by presburger
    then have dv: "3 dvd (k - (i + 3))" using 1(2,3) by presburger
    have "slot_ok e dt (fst (particle_body e dt vel i st)) vel k
            (fst (for_loop 3 n (particle_body e dt vel) (i + 3) (particle_body e dt vel i st)))"
      using 1 lt le dv by (simp add: particle_body_length)
    moreover have "slot_ok e dt (fst (particle_body e dt vel i st)) vel k = slot_ok e dt (fst st) vel k"
      using le by (intro ext slot_ok_cong particle_body_other) simp_all
    ultimately show ?thesis using lt by (simp add: for_loop_step)
  qed
qed

subsection \<open>Runs of events\<close>

lemma clearScene_fields:
  "cubes (clearScene s) = []" "particleSystem (clearScene s) = None"
  "explosionParticles (clearScene s) = []"
  "lights (clearScene s) = filter (\<lambda>l. light_type l = AmbientLight) (lights s)"
  "nextId (clearScene s) = nextId s" "rngCalls (clearScene s) = rngCalls s"
  "cameraShake (clearScene s) = cameraShake s"
  by (simp_all add: clearScene_def Let_def split: option.splits)

lemma setupScene_unknown_scene:
  assumes "qualitySettings q = Undefined"
  shows "cubes (snd (setupScene e q s)) = []"
    "particleSystem (snd (setupScene e q s)) = None"
    "explosionParticles (snd (setupScene e q s)) = []"
  using assms by (simp_all add: setupScene_def Let_def ambient_step_def clearScene_fields)

lemma start_twice_env0:
  "control (run env0 [ClickStart, ClickStart] (init ''insane'')) =
     (1, 0, True, 0, Some 0, False, None, False, ''insane'', 2,
      [(2000, ScriptedSequence), (2000, ScriptedSequence)])"
proof -
  let ?s1 = "snd (startBenchmark env0 (init ''insane''))"
  have k: "qualitySettings (qualitySelect (init ''insane'')) \<noteq> Undefined"
    by simp
  have t: "elapsed (performance_now env0 (clockCalls (init ''insane'')))
              (performance_now env0 (clockCalls (init ''insane'') + 1)) < maxTime"
    by (simp add: maxTime_def)
  have c: "control ?s1 =
      (1, 0, True, 0, Some 0, False, None, False, ''insane'', 1, [(2000, ScriptedSequence)])"
    using startBenchmark_known(2) [OF k t] by simp
  note f = control_eqD [OF c]
  have k2: "qualitySettings (qualitySelect ?s1) \<noteq> Undefined" using f by simp
  have t2: "elapsed (performance_now env0 (clockCalls ?s1))
              (performance_now env0 (clockCalls ?s1 + 1)) < maxTime"
    by (simp add: maxTime_def)
  have "run env0 [ClickStart, ClickStart] (init ''insane'') = snd (startBenchmark env0 ?s1)"
    by (simp add: run_def dispatch_def)
  then show ?thesis
    using startBenchmark_known(2) [OF k2 t2] f by simp
qed

lemma run_snoc: "run e (evs @ [ev]) s = dispatch e ev (run e evs s)"
  by (simp add: run_def)

lemma frames_control:
  assumes "qualitySettings q \<noteq> Undefined"
    and "\<forall>k. elapsed (performance_now e 0) (performance_now e k) < maxTime"
  shows "\<exists>k. control (run e (ClickStart # replicate m AnimationFrame) (init q)) =
           (m + 1, elapsed (performance_now e 0) (performance_now e k), True,
            performance_now e 0, Some (performance_now e k), False, None, False, q, 1,
            [(2000, ScriptedSequence)])"
proof (induction m)
  case 0
  have k: "qualitySettings (qualitySelect (init q)) \<noteq> Undefined" using assms(1) by simp
  have t: "elapsed (performance_now e (clockCalls (init q)))
              (performance_now e (clockCalls (init q) + 1)) < maxTime"
    using assms(2) by simp
  have "run e [ClickStart] (init q) = snd (startBenchmark e (init q))"
    by (simp add: run_def dispatch_def)
  then show ?case using startBenchmark_known(2) [OF k t] by auto
next
  case (Suc m)
  let ?s = "run e (ClickStart # replicate m AnimationFrame) (init q)"
  obtain k where c: "control ?s =
           (m + 1, elapsed (performance_now e 0) (performance_now e k), True,
            performance_now e 0, Some (performance_now e k), False, None, False, q, 1,
            [(2000, ScriptedSequence)])"
    using Suc by blast
  note f = control_eqD [OF c]
  let ?s0 = "?s\<lparr>pendingFrames := pendingFrames ?s - 1\<rparr>"
  have r: "running ?s0" using f by simp
  have t: "elapsed (startTime ?s0) (performance_now e (clockCalls ?s0)) < maxTime"
    using assms(2) f by simp
  have d: "run e (ClickStart # replicate (Suc m) AnimationFrame) (init q) = snd (animate e ?s0)"
    using f(10) run_snoc [of e "ClickStart # replicate m AnimationFrame" AnimationFrame "init q"]
    by (simp add: dispatch_def replicate_append_same)
  show ?case
    unfolding d animate_continue [OF r t]
    by (rule exI [of _ "clockCalls ?s0"]) (simp add: control_def f)
qed

lemma env_half_simps [simp]: "math_random env_half k = 1 / 2" "performance_now env_half k = 0"
  by (simp_all add: env_half_def)

lemma rng_ok_env_half: "rng_ok env_half"
  by (simp add: rng_ok_def)

subsection \<open>The explosion loop\<close>

lemma updateExplosions_loop_pool:
  "n \<le> length (explosionParticles s) \<Longrightarrow>
   explosionParticles (updateExplosions_loop n dt s) =
     map (explosion_step dt) (filter (\<lambda>x. \<not> dead dt x) (take n (explosionParticles s)))
     @ drop n (explosionParticles s)"
proof (induction n arbitrary: s)
  case 0
  then show ?case by simp
next
  case (Suc n)
  let ?pool = "explosionParticles s"
  have tk: "take (Suc n) ?pool = take n ?pool @ [?pool ! n]"
    using Suc.prems by (simp add: take_Suc_conv_app_nth)
  show ?case
  proof (cases "dead dt (?pool ! n)")
    case True
    let ?s' = "s\<lparr>scene := scene_remove (points_id (?pool ! n)) (scene s),
                   disposed := disposed s @ [points_id (?pool ! n)],
                   explosionParticles := take n ?pool @ drop (Suc n) ?pool\<rparr>"
    have "n \<le> length (explosionParticles ?s')" using Suc.prems by simp
    from Suc.IH [OF this] show ?thesis
      using True Suc.prems by (simp add: tk Let_def dead_def new_life_def)
  next
    case False
    let ?s' = "s\<lparr>explosionParticles := ?pool[n := explosion_step dt (?pool ! n)]\<rparr>"
    have "n \<le> length (explosionParticles ?s')" using Suc.prems by simp
    from Suc.IH [OF this] show ?thesis
      using False Suc.prems by (simp add: tk Let_def dead_def new_life_def drop_update_swap [symmetric] Cons_nth_drop_Suc [symmetric] upd_conv_take_nth_drop)
  qed
qed

lemma explosion_step_fields [simp]:
  "points_id (explosion_step dt x) = points_id x"
  "life (explosion_step dt x) = new_life dt (life x)"
  "opacity (explosion_step dt x) = new_life dt (life x)"
  "maxLife (explosion_step dt x) = maxLife x"
  by (simp_all add: explosion_step_def new_life_def split_beta)

lemma updateExplosions_loop_scene:
  "n \<le> length (explosionParticles s) \<Longrightarrow>
   scene (updateExplosions_loop n dt s) =
     fold (\<lambda>x. scene_remove (points_id x))
       (rev (filter (dead dt) (take n (explosionParticles s)))) (scene s)
   \<and> disposed (updateExplosions_loop n dt s) =
     disposed s @ map points_id (rev (filter (dead dt) (take n (explosionParticles s))))"
proof (induction n arbitrary: s)
  case 0
  then show ?case by simp
next
  case (Suc n)
  let ?pool = "explosionParticles s"
  have tk: "take (Suc n) ?pool = take n ?pool @ [?pool ! n]"
    using Suc.prems by (simp add: take_Suc_conv_app_nth)
  show ?case
  proof (cases "dead dt (?pool ! n)")
    case True
    let ?s' = "s\<lparr>scene := scene_remove (points_id (?pool ! n)) (scene s),
                   disposed := disposed s @ [points_id (?pool ! n)],
                   explosionParticles := take n ?pool @ drop (Suc n) ?pool\<rparr>"
    have "n \<le> length (explosionParticles ?s')" using Suc.prems by simp
    from Suc.IH [OF this] show ?thesis
      using True Suc.prems by (simp add: tk Let_def dead_def new_life_def)
  next
    case False
    let ?s' = "s\<lparr>explosionParticles := ?pool[n := explosion_step dt (?pool ! n)]\<rparr>"
    have "n \<le> length (explosionParticles ?s')" using Suc.prems by simp
    from Suc.IH [OF this] show ?thesis
      using False Suc.prems by (simp add: tk Let_def dead_def new_life_def)
  qed
qed

lemma fold_scene_remove:
  "distinct sc \<Longrightarrow>
   distinct (fold (\<lambda>x. scene_remove (f x)) xs sc)
   \<and> set (fold (\<lambda>x. scene_remove (f x)) xs sc) = set sc - f ` set xs"
  by (induction xs arbitrary: sc) (auto simp: scene_remove_def)

lemma updateExplosions_pool:
  "explosionParticles (updateExplosions dt s) =
     map (explosion_step dt) (filter (\<lambda>x. \<not> dead dt x) (explosionParticles s))"
  by (simp add: updateExplosions_def updateExplosions_loop_pool)

lemma updateExplosions_scene:
  "distinct (scene s) \<Longrightarrow>
   set (scene (updateExplosions dt s))
     = set (scene s) - points_id ` {x \<in> set (explosionParticles s). dead dt x}"
  using fold_scene_remove [of "scene s" points_id "rev (filter (dead dt) (explosionParticles s))"]
  by (simp add: updateExplosions_def updateExplosions_loop_scene)

lemma updateExplosions_disposed:
  "set (disposed (updateExplosions dt s))
     = set (disposed s) \<union> points_id ` {x \<in> set (explosionParticles s). dead dt x}"
  by (simp add: updateExplosions_def updateExplosions_loop_scene)

text \<open>The new life at some inputs.\<close>

lemma new_life_zero [simp]: "new_life 0 l = fl64 l"
  by (simp add: new_life_def)

lemma new_life_values:
  "new_life 1 (fl64 0.02) = 0" "1 / 2 \<le> new_life 1 1" "new_life (2 powr (- 60)) 1 = 1"
proof -
  show "new_life 1 (fl64 0.02) = 0" using life_ends by (simp add: new_life_def)
  show "new_life (2 powr (- 60)) 1 = 1" using life_stalls by (simp add: new_life_def)
  have "(2::real) powr (- 5) = 1 / 32" by (simp add: powr_neg_numeral)
  then have "fl64 (1 * fl64 0.02) \<le> 1 / 32"
    using fl64_002(2) fl64_mono [of "fl64 0.02" "2 powr of_int (- 5)"] fl64_pow2 [of "- 5"]
    by simp
  then have "fl64 (1 / 2) \<le> fl64 (1 - fl64 (1 * fl64 0.02))" by (intro fl64_mono) simp
  then show "1 / 2 \<le> new_life 1 1" by (simp add: new_life_def)
qed

subsection \<open>The camera shake\<close>

lemma cube_callback_shake:
  "intensity (cameraShake s) \<le> intensity (cameraShake (snd (cube_callback e t c s)))
   \<and> nextId s \<le> nextId (snd (cube_callback e t c s))
   \<and> (nextId (snd (cube_callback e t c s)) = nextId s
        \<longrightarrow> cameraShake (snd (cube_callback e t c s)) = cameraShake s)"
  by (simp add: cube_callback_def Let_def)

lemma forEach_cubes_shake:
  "intensity (cameraShake s) \<le> intensity (cameraShake (snd (forEach_cubes e t cs s)))
   \<and> nextId s \<le> nextId (snd (forEach_cubes e t cs s))
   \<and> (nextId (snd (forEach_cubes e t cs s)) = nextId s
        \<longrightarrow> cameraShake (snd (forEach_cubes e t cs s)) = cameraShake s)"
proof (induction cs arbitrary: s)
  case Nil
  then show ?case by simp
next
  case (Cons c cs)
  let ?s1 = "snd (cube_callback e t c s)"
  have eq: "snd (forEach_cubes e t (c # cs) s) = snd (forEach_cubes e t cs ?s1)"
    by (simp add: split_beta)
  show ?case
    unfolding eq using Cons [of ?s1] cube_callback_shake [of s e t c]
    by (auto simp del: forEach_cubes.simps)
qed

lemma animate_lights_other [simp]:
  "cameraShake (animate_lights t s) = cameraShake s"
  "nextId (animate_lights t s) = nextId s"
  "explosionParticles (animate_lights t s) = explosionParticles s"
  "cubes (animate_lights t s) = cubes s"
  "rngCalls (animate_lights t s) = rngCalls s"
  by (simp_all add: animate_lights_def)

lemma updateParticles_other [simp]:
  "cameraShake (updateParticles e dt s) = cameraShake s"
  "nextId (updateParticles e dt s) = nextId s"
  "explosionParticles (updateParticles e dt s) = explosionParticles s"
  "cubes (updateParticles e dt s) = cubes s"
  by (simp_all add: updateParticles_def split_beta split: option.splits)

lemma updateExplosions_loop_other:
  "cameraShake (updateExplosions_loop n dt s) = cameraShake s
   \<and> nextId (updateExplosions_loop n dt s) = nextId s
   \<and> rngCalls (updateExplosions_loop n dt s) = rngCalls s
   \<and> cubes (updateExplosions_loop n dt s) = cubes s"
  by (induction n arbitrary: s) (simp_all add: Let_def)

lemma updateExplosions_other [simp]:
  "cameraShake (updateExplosions dt s) = cameraShake s"
  "nextId (updateExplosions dt s) = nextId s"
  "rngCalls (updateExplosions dt s) = rngCalls s"
  "cubes (updateExplosions dt s) = cubes s"
  by (simp_all add: updateExplosions_def updateExplosions_loop_other)

lemma animate_cubes_shake:
  "intensity (cameraShake s) \<le> intensity (cameraShake (animate_cubes e t s))
   \<and> nextId s \<le> nextId (animate_cubes e t s)
   \<and> (nextId (animate_cubes e t s) = nextId s
        \<longrightarrow> cameraShake (animate_cubes e t s) = cameraShake s)"
  using forEach_cubes_shake [of s e t "cubes s"]
  by (simp add: animate_cubes_def split_beta)

lemma animate_scene_shake:
  "intensity (cameraShake s) \<le> intensity (cameraShake (animate_scene e t dt s))
   \<and> nextId s \<le> nextId (animate_scene e t dt s)
   \<and> (nextId (animate_scene e t dt s) = nextId s
        \<longrightarrow> cameraShake (animate_scene e t dt s) = cameraShake s)"
  using animate_cubes_shake [of "s\<lparr>scene_rotation := (scene_rotation s)
                     \<lparr>vy := vy (scene_rotation s) + 0.005,
                      vx := vx (scene_rotation s) + 0.002\<rparr>\<rparr>" e t]
  by (simp add: animate_scene_def)

lemma animate_camera_other [simp]:
  "cameraShake (animate_camera t s) = cameraShake s"
  "nextId (animate_camera t s) = nextId s"
  "explosionParticles (animate_camera t s) = explosionParticles s"
  by (simp_all add: animate_camera_def Let_def)

lemma animate_shake_other [simp]:
  "nextId (animate_shake e s) = nextId s"
  "explosionParticles (animate_shake e s) = explosionParticles s"
  by (simp_all add: animate_shake_def Let_def)

lemma animate_shake_positive:
  "0 < intensity (cameraShake s) \<Longrightarrow>
   cameraShake (animate_shake e s) =
     \<lparr>shake_x = fl64 (fl64 (math_random e (rngCalls s) - 0.5) * intensity (cameraShake s)),
      shake_y = fl64 (fl64 (math_random e (rngCalls s + 1) - 0.5) * intensity (cameraShake s)),
      intensity = fl64 (intensity (cameraShake s) * fl64 0.95)\<rparr>"
  by (simp add: animate_shake_def Let_def)

lemma finishBenchmark_other [simp]:
  "cameraShake (snd (finishBenchmark s)) = cameraShake s"
  "nextId (snd (finishBenchmark s)) = nextId s"
  "explosionParticles (snd (finishBenchmark s)) = explosionParticles s"
  by (simp_all add: finishBenchmark_def Let_def split_beta split: tier_entry.splits)

lemma animate_running_other:
  assumes "running s"
  shows "cameraShake (snd (animate e s)) = cameraShake (animate_shake e (before_shake e s))"
    and "nextId (snd (animate e s)) = nextId (before_shake e s)"
    and "explosionParticles (snd (animate e s)) = explosionParticles (before_shake e s)"
  using assms by (simp_all add: animate_def Let_def animate_update_def before_shake_def)

subsection \<open>The scene graph\<close>

lemma fold_scene_remove_if:
  "distinct sc \<Longrightarrow>
   distinct (fold (\<lambda>x c. if P x then scene_remove (f x) c else c) xs sc)
   \<and> set (fold (\<lambda>x c. if P x then scene_remove (f x) c else c) xs sc)
       = set sc - f ` {x \<in> set xs. P x}"
  by (induction xs arbitrary: sc) (auto simp: scene_remove_def)

lemma clearScene_scene:
  assumes "distinct (scene s)"
  shows "distinct (scene (clearScene s))"
    and "set (scene (clearScene s)) =
      set (scene s) - set (map mesh_id (cubes s))
        - set (case particleSystem s of None \<Rightarrow> [] | Some ps \<Rightarrow> [points_id ps])
        - set (map points_id (explosionParticles s))
        - light_id ` {l \<in> set (lights s). light_type l \<noteq> AmbientLight}"
proof -
  let ?sc1 = "fold (\<lambda>cube. scene_remove (mesh_id cube)) (cubes s) (scene s)"
  let ?sc2 = "case particleSystem s of None \<Rightarrow> ?sc1 | Some ps \<Rightarrow> scene_remove (points_id ps) ?sc1"
  let ?sc3 = "fold (\<lambda>sys. scene_remove (points_id sys)) (explosionParticles s) ?sc2"
  let ?sc4 = "fold (\<lambda>l sc. if light_type l \<noteq> AmbientLight
                                    then scene_remove (light_id l) sc else sc) (lights s) ?sc3"
  have e: "scene (clearScene s) = ?sc4"
    by (simp add: clearScene_def Let_def split: option.splits)
  have 1: "distinct ?sc1" "set ?sc1 = set (scene s) - set (map mesh_id (cubes s))"
    using fold_scene_remove [OF assms, of mesh_id "cubes s"] by simp_all
  have 2: "distinct ?sc2" "set ?sc2 = set ?sc1
      - set (case particleSystem s of None \<Rightarrow> [] | Some ps \<Rightarrow> [points_id ps])"
    using 1(1) by (auto simp: scene_remove_def split: option.splits)
  have 3: "distinct ?sc3" "set ?sc3 = set ?sc2 - set (map points_id (explosionParticles s))"
    using fold_scene_remove [OF 2(1), of points_id "explosionParticles s"] by simp_all
  have 4: "distinct ?sc4" "set ?sc4 = set ?sc3
      - light_id ` {l \<in> set (lights s). light_type l \<noteq> AmbientLight}"
    using fold_scene_remove_if [OF 3(1), of "\<lambda>l. light_type l \<noteq> AmbientLight" light_id "lights s"]
    by simp_all
  show "distinct (scene (clearScene s))" using 4(1) e by simp
  show "set (scene (clearScene s)) =
      set (scene s) - set (map mesh_id (cubes s))
        - set (case particleSystem s of None \<Rightarrow> [] | Some ps \<Rightarrow> [points_id ps])
        - set (map points_id (explosionParticles s))
        - light_id ` {l \<in> set (lights s). light_type l \<noteq> AmbientLight}"
    unfolding e 4(2) 3(2) 2(2) 1(2) ..
qed

lemma clearScene_inv:
  assumes "scene_inv s"
  shows "scene_inv (clearScene s)"
    and "set (scene (clearScene s)) = light_id ` set (lights (clearScene s))"
proof -
  let ?A = "filter (\<lambda>l. light_type l = AmbientLight) (lights s)"
  have d: "distinct (scene s)" and dt: "distinct (tracked_ids s)"
    and st: "set (scene s) = set (tracked_ids s)"
    and lt: "\<forall>i \<in> set (tracked_ids s). i < nextId s"
    and am: "length ?A \<le> 1"
    using assms by (simp_all add: scene_inv_def)
  have dl: "distinct (map light_id (lights s))" using dt by (simp add: tracked_ids_def)
  then have inj: "inj_on light_id (set (lights s))" by (simp add: distinct_map)
  have disj: "light_id ` set (lights s) \<inter>
      (set (map mesh_id (cubes s))
       \<union> set (case particleSystem s of None \<Rightarrow> [] | Some ps \<Rightarrow> [points_id ps])
       \<union> set (map points_id (explosionParticles s))) = {}"
    using dt by (auto simp: tracked_ids_def)
  have split: "light_id ` set ?A \<inter> light_id ` {l \<in> set (lights s). light_type l \<noteq> AmbientLight} = {}"
    using inj by (auto dest: inj_onD)
  have un: "light_id ` set (lights s)
      = light_id ` set ?A \<union> light_id ` {l \<in> set (lights s). light_type l \<noteq> AmbientLight}"
    by auto
  have tr: "set (tracked_ids s) = set (map mesh_id (cubes s))
       \<union> set (case particleSystem s of None \<Rightarrow> [] | Some ps \<Rightarrow> [points_id ps])
       \<union> set (map points_id (explosionParticles s)) \<union> light_id ` set (lights s)"
    by (simp add: tracked_ids_def Un_assoc)
  have sc: "set (scene (clearScene s)) = light_id ` set ?A"
    unfolding clearScene_scene(2) [OF d] st tr using disj split un by blast
  show "set (scene (clearScene s)) = light_id ` set (lights (clearScene s))"
    using sc by (simp add: clearScene_fields)
  have tc: "tracked_ids (clearScene s) = map light_id ?A"
    by (simp add: tracked_ids_def clearScene_fields)
  have "distinct (map light_id ?A)" using dl by (simp add: distinct_map_filter)
  moreover have "\<forall>i \<in> set (map light_id ?A). i < nextId s"
    using lt by (auto simp: tracked_ids_def)
  ultimately show "scene_inv (clearScene s)"
    using clearScene_scene(1) [OF d] sc am
    by (simp add: scene_inv_def tc clearScene_fields)
qed

lemma add_cube_loop_aux:
  "map mesh_id (cubes (for_loop 1 n (add_cube e) i s))
     = map mesh_id (cubes s) @ [nextId s..<nextId (for_loop 1 n (add_cube e) i s)]
   \<and> scene (for_loop 1 n (add_cube e) i s)
     = scene s @ [nextId s..<nextId (for_loop 1 n (add_cube e) i s)]
   \<and> nextId (for_loop 1 n (add_cube e) i s) = nextId s + (n - i)
   \<and> rngCalls (for_loop 1 n (add_cube e) i s) = rngCalls s + 13 * (n - i)"
proof (induction "1::nat" n "add_cube e" i s rule: for_loop.induct)
  case (1 n i s)
  show ?case
  proof (cases "i < n")
    case True
    let ?s1 = "add_cube e i s"
    let ?r = "for_loop 1 n (add_cube e) (i + 1) ?s1"
    have ih: "map mesh_id (cubes ?r) = map mesh_id (cubes ?s1) @ [nextId ?s1..<nextId ?r]"
      "scene ?r = scene ?s1 @ [nextId ?s1..<nextId ?r]"
      "nextId ?r = nextId ?s1 + (n - (i + 1))"
      "rngCalls ?r = rngCalls ?s1 + 13 * (n - (i + 1))"
      using 1 True by simp_all
    have s1: "map mesh_id (cubes ?s1) = map mesh_id (cubes s) @ [nextId s]"
      "scene ?s1 = scene s @ [nextId s]" "nextId ?s1 = Suc (nextId s)"
      "rngCalls ?s1 = rngCalls s + 13"
      by (simp_all add: add_cube_def create_cube_def)
    have lt: "nextId s < nextId ?r" using ih(3) s1(3) by simp
    have e: "for_loop 1 n (add_cube e) i s = ?r" using True by (simp add: for_loop_step)
    have c1: "map mesh_id (cubes ?r) = map mesh_id (cubes s) @ [nextId s..<nextId ?r]"
      unfolding ih(1) s1(1,3) using upt_conv_Cons [OF lt] by simp
    have c2: "scene ?r = scene s @ [nextId s..<nextId ?r]"
      unfolding ih(2) s1(2,3) using upt_conv_Cons [OF lt] by simp
    have c3: "nextId ?r = nextId s + (n - i)" using ih(3) s1(3) True by simp
    have c4: "rngCalls ?r = rngCalls s + 13 * (n - i)" using ih(4) s1(4) True by simp
    show ?thesis
      unfolding e by (intro conjI c1 c2 c3 c4)
  next
    case False
    then show ?thesis by (simp add: for_loop_done)
  qed
qed

lemma add_cube_loop:
  "map mesh_id (cubes (for_loop (Suc 0) n (add_cube e) 0 s))
     = map mesh_id (cubes s) @ [nextId s..<nextId s + n]"
  "scene (for_loop (Suc 0) n (add_cube e) 0 s) = scene s @ [nextId s..<nextId s + n]"
  "nextId (for_loop (Suc 0) n (add_cube e) 0 s) = nextId s + n"
  "rngCalls (for_loop (Suc 0) n (add_cube e) 0 s) = rngCalls s + 13 * n"
  using add_cube_loop_aux [of n e 0 s] by simp_all

lemma add_cube_loop_other:
  "particleSystem (for_loop k n (add_cube e) i s) = particleSystem s"
  "explosionParticles (for_loop k n (add_cube e) i s) = explosionParticles s"
  "lights (for_loop k n (add_cube e) i s) = lights s"
  "cameraShake (for_loop k n (add_cube e) i s) = cameraShake s"
  by (rule for_loop_preserve, simp add: add_cube_def)+

lemma add_light_loop_aux:
  "map light_id (lights (for_loop 1 n (add_light e b) i s))
     = map light_id (lights s) @ [nextId s..<nextId (for_loop 1 n (add_light e b) i s)]
   \<and> filter (\<lambda>l. light_type l = AmbientLight) (lights (for_loop 1 n (add_light e b) i s))
     = filter (\<lambda>l. light_type l = AmbientLight) (lights s)
   \<and> scene (for_loop 1 n (add_light e b) i s)
     = scene s @ [nextId s..<nextId (for_loop 1 n (add_light e b) i s)]
   \<and> nextId (for_loop 1 n (add_light e b) i s) = nextId s + (n - i)"
proof (induction "1::nat" n "add_light e b" i s rule: for_loop.induct)
  case (1 n i s)
  show ?case
  proof (cases "i < n")
    case True
    let ?s1 = "add_light e b i s"
    let ?r = "for_loop 1 n (add_light e b) (i + 1) ?s1"
    have ih: "map light_id (lights ?r) = map light_id (lights ?s1) @ [nextId ?s1..<nextId ?r]"
      "filter (\<lambda>l. light_type l = AmbientLight) (lights ?r)
         = filter (\<lambda>l. light_type l = AmbientLight) (lights ?s1)"
      "scene ?r = scene ?s1 @ [nextId ?s1..<nextId ?r]"
      "nextId ?r = nextId ?s1 + (n - (i + 1))"
      using 1 True by simp_all
    have s1: "map light_id (lights ?s1) = map light_id (lights s) @ [nextId s]"
      "filter (\<lambda>l. light_type l = AmbientLight) (lights ?s1)
         = filter (\<lambda>l. light_type l = AmbientLight) (lights s)"
      "scene ?s1 = scene s @ [nextId s]" "nextId ?s1 = Suc (nextId s)"
      by (simp_all add: add_light_def Let_def)
    have lt: "nextId s < nextId ?r" using ih(4) s1(4) by simp
    have e: "for_loop 1 n (add_light e b) i s = ?r" using True by (simp add: for_loop_step)
    have c1: "map light_id (lights ?r) = map light_id (lights s) @ [nextId s..<nextId ?r]"
      unfolding ih(1) s1(1,4) using upt_conv_Cons [OF lt] by simp
    have c2: "filter (\<lambda>l. light_type l = AmbientLight) (lights ?r)
         = filter (\<lambda>l. light_type l = AmbientLight) (lights s)"
      unfolding ih(2) s1(2) ..
    have c3: "scene ?r = scene s @ [nextId s..<nextId ?r]"
      unfolding ih(3) s1(3,4) using upt_conv_Cons [OF lt] by simp
    have c4: "nextId ?r = nextId s + (n - i)" using ih(4) s1(4) True by simp
    show ?thesis
      unfolding e by (intro conjI c1 c2 c3 c4)
  next
    case False
    then show ?thesis by (simp add: for_loop_done)
  qed
qed

lemma add_light_loop:
  "map light_id (lights (for_loop (Suc 0) n (add_light e b) 0 s))
     = map light_id (lights s) @ [nextId s..<nextId s + n]"
  "filter (\<lambda>l. light_type l = AmbientLight) (lights (for_loop (Suc 0) n (add_light e b) 0 s))
     = filter (\<lambda>l. light_type l = AmbientLight) (lights s)"
  "scene (for_loop (Suc 0) n (add_light e b) 0 s) = scene s @ [nextId s..<nextId s + n]"
  "nextId (for_loop (Suc 0) n (add_light e b) 0 s) = nextId s + n"
  using add_light_loop_aux [of n e b 0 s] by simp_all

lemma add_light_loop_other:
  "particleSystem (for_loop k n (add_light e b) i s) = particleSystem s"
  "explosionParticles (for_loop k n (add_light e b) i s) = explosionParticles s"
  "cubes (for_loop k n (add_light e b) i s) = cubes s"
  "cameraShake (for_loop k n (add_light e b) i s) = cameraShake s"
  by (rule for_loop_preserve, simp add: add_light_def Let_def)+

lemma particle_init_lengths:
  "length (fst (particle_init e r i st)) = length (fst st)
   \<and> length (fst (snd (particle_init e r i st))) = length (fst (snd st))
   \<and> length (snd (snd (particle_init e r i st))) = length (snd (snd st))"
  by (cases st) (simp add: particle_init_def Let_def split_beta)

lemma createParticleSystem_lengths:
  "length (positions (createParticleSystem e n r oid)) = n * 3"
  "length (velocities (createParticleSystem e n r oid)) = n * 3"
  "length (colors (createParticleSystem e n r oid)) = n * 3"
  "points_id (createParticleSystem e n r oid) = oid"
proof -
  let ?P = "\<lambda>st. length (fst st) = n * 3 \<and> length (fst (snd st)) = n * 3
                 \<and> length (snd (snd st)) = n * 3"
  have "?P (for_loop 1 n (particle_init e r) 0
             (replicate (n * 3) 0, replicate (n * 3) 0, replicate (n * 3) (0::real)))"
    by (rule for_loop_invariant) (simp_all add: particle_init_lengths)
  then show "length (positions (createParticleSystem e n r oid)) = n * 3"
    "length (velocities (createParticleSystem e n r oid)) = n * 3"
    "length (colors (createParticleSystem e n r oid)) = n * 3"
    "points_id (createParticleSystem e n r oid) = oid"
    by (simp_all add: createParticleSystem_def split_beta)
qed

lemma populate_result:
  fixes e st s
  defines "c \<equiv> bound (get_prop s_cubes st)"
    and "p \<equiv> bound (get_prop s_particles st)"
    and "l \<equiv> bound (get_prop s_lights st)"
  shows "map mesh_id (cubes (populate e st s)) = map mesh_id (cubes s) @ [nextId s..<nextId s + c]"
    and "\<exists>ps. particleSystem (populate e st s) = Some ps \<and> points_id ps = nextId s + c
           \<and> length (positions ps) = p * 3 \<and> length (velocities ps) = p * 3
           \<and> length (colors ps) = p * 3"
    and "explosionParticles (populate e st s) = explosionParticles s"
    and "map light_id (lights (populate e st s))
           = map light_id (lights s) @ [nextId s + c + 1..<nextId s + c + 1 + l]"
    and "filter (\<lambda>x. light_type x = AmbientLight) (lights (populate e st s))
           = filter (\<lambda>x. light_type x = AmbientLight) (lights s)"
    and "scene (populate e st s) = scene s @ [nextId s..<nextId s + c + 1 + l]"
    and "nextId (populate e st s) = nextId s + c + 1 + l"
    and "cameraShake (populate e st s) = cameraShake s"
proof -
  let ?s1 = "for_loop 1 c (add_cube e) 0 s"
  let ?ps = "createParticleSystem e p (rngCalls ?s1) (nextId ?s1)"
  let ?s2 = "?s1\<lparr>particleSystem := Some ?ps, scene := scene ?s1 @ [nextId ?s1],
                  rngCalls := rngCalls ?s1 + 9 * p, nextId := nextId ?s1 + 1\<rparr>"
  let ?s3 = "for_loop 1 l (add_light e (get_prop s_effects st)) 0 ?s2"
  have e: "populate e st s = ?s3\<lparr>camera_position := \<lparr>vx = 0, vy = 0, vz = 80\<rparr>, fog := Some (50, 300)\<rparr>"
    by (simp add: populate_def Let_def c_def p_def l_def)
  show "map mesh_id (cubes (populate e st s)) = map mesh_id (cubes s) @ [nextId s..<nextId s + c]"
    by (simp add: e add_light_loop_other add_cube_loop)
  show "\<exists>ps. particleSystem (populate e st s) = Some ps \<and> points_id ps = nextId s + c
           \<and> length (positions ps) = p * 3 \<and> length (velocities ps) = p * 3
           \<and> length (colors ps) = p * 3"
    by (simp add: e add_light_loop_other createParticleSystem_lengths add_cube_loop)
  show "explosionParticles (populate e st s) = explosionParticles s"
    by (simp add: e add_light_loop_other add_cube_loop_other)
  show "map light_id (lights (populate e st s))
           = map light_id (lights s) @ [nextId s + c + 1..<nextId s + c + 1 + l]"
    by (simp add: e add_cube_loop_other add_light_loop add_cube_loop)
  show "filter (\<lambda>x. light_type x = AmbientLight) (lights (populate e st s))
           = filter (\<lambda>x. light_type x = AmbientLight) (lights s)"
    by (simp add: e add_cube_loop_other add_light_loop)
  have "scene (populate e st s) = (scene s @ [nextId s..<nextId s + c]) @ [nextId s + c]
          @ [nextId s + c + 1..<nextId s + c + 1 + l]"
    by (simp add: e add_light_loop add_cube_loop)
  also have "\<dots> = scene s @ [nextId s..<nextId s + c + 1 + l]"
    using upt_add_eq_append [of "nextId s" "nextId s + c" "1 + l"]
    by (simp add: upt_conv_Cons)
  finally show "scene (populate e st s) = scene s @ [nextId s..<nextId s + c + 1 + l]" .
  show "nextId (populate e st s) = nextId s + c + 1 + l"
    by (simp add: e add_light_loop add_cube_loop)
  show "cameraShake (populate e st s) = cameraShake s"
    by (simp add: e add_light_loop_other add_cube_loop_other)
qed

lemma setupScene_alt:
  "qualitySettings q \<noteq> Undefined \<Longrightarrow>
   snd (setupScene e q s) = populate e (qualitySettings q) (ambient_step (clearScene s))"
  by (simp add: setupScene_def Let_def split: tier_entry.splits)

lemma distinct_singleton: "distinct xs \<Longrightarrow> set xs = {x} \<Longrightarrow> xs = [x]"
proof (cases xs)
  case Nil
  assume "set xs = {x}"
  then show ?thesis using Nil by simp
next
  case (Cons y ys)
  assume d: "distinct xs" and st: "set xs = {x}"
  have "y = x" using st Cons by auto
  moreover have "set ys \<subseteq> {x}" using st Cons by auto
  moreover have "x \<notin> set ys" using d Cons \<open>y = x\<close> by simp
  ultimately have "ys = []" by (cases ys) auto
  then show ?thesis using Cons \<open>y = x\<close> by simp
qed

lemma ambient_step_result:
  assumes "scene_inv s"
  shows "cubes (ambient_step (clearScene s)) = []"
    and "particleSystem (ambient_step (clearScene s)) = None"
    and "explosionParticles (ambient_step (clearScene s)) = []"
    and "\<exists>a. lights (ambient_step (clearScene s)) = [a] \<and> light_type a = AmbientLight
           \<and> scene (ambient_step (clearScene s)) = [light_id a]
           \<and> light_id a < nextId (ambient_step (clearScene s))"
proof -
  let ?s1 = "clearScene s"
  let ?A = "filter (\<lambda>l. light_type l = AmbientLight) (lights s)"
  note inv = clearScene_inv [OF assms]
  have l1: "lights ?s1 = ?A" by (simp add: clearScene_fields)
  have am: "length ?A \<le> 1" using assms by (simp add: scene_inv_def)
  have d1: "distinct (scene ?s1)" using inv(1) by (simp add: scene_inv_def)
  have lt: "\<forall>i \<in> light_id ` set ?A. i < nextId ?s1"
    using inv(1) by (simp add: scene_inv_def tracked_ids_def clearScene_fields)
  show "cubes (ambient_step ?s1) = []" "particleSystem (ambient_step ?s1) = None"
    "explosionParticles (ambient_step ?s1) = []"
    by (simp_all add: ambient_step_def clearScene_fields)
  show "\<exists>a. lights (ambient_step ?s1) = [a] \<and> light_type a = AmbientLight
           \<and> scene (ambient_step ?s1) = [light_id a] \<and> light_id a < nextId (ambient_step ?s1)"
  proof (cases ?A)
    case Nil
    then have "scene ?s1 = []" using inv(2) l1 by simp
    then show ?thesis using Nil l1 by (simp add: ambient_step_def ambient_light_def)
  next
    case (Cons a rest)
    then have r: "rest = []" using am by simp
    have ty: "light_type a = AmbientLight"
      using Cons filter_eq_ConsD [of "\<lambda>l. light_type l = AmbientLight" "lights s" a rest] by auto
    have "set (scene ?s1) = {light_id a}" using inv(2) l1 Cons r by simp
    then have "scene ?s1 = [light_id a]"
      using d1 by (simp add: distinct_singleton)
    then show ?thesis using Cons r l1 ty lt by (simp add: ambient_step_def)
  qed
qed

lemma setupScene_result:
  fixes e q s
  assumes inv: "scene_inv s" and known: "qualitySettings q \<noteq> Undefined"
  defines "c \<equiv> bound (get_prop s_cubes (qualitySettings q))"
    and "p \<equiv> bound (get_prop s_particles (qualitySettings q))"
    and "l \<equiv> bound (get_prop s_lights (qualitySettings q))"
  shows "length (cubes (snd (setupScene e q s))) = c"
    and "\<exists>ps. particleSystem (snd (setupScene e q s)) = Some ps
           \<and> length (positions ps) = p * 3 \<and> length (velocities ps) = p * 3
           \<and> length (colors ps) = p * 3"
    and "explosionParticles (snd (setupScene e q s)) = []"
    and "length (filter (\<lambda>x. light_type x \<noteq> AmbientLight) (lights (snd (setupScene e q s)))) = l"
    and "length (filter (\<lambda>x. light_type x = AmbientLight) (lights (snd (setupScene e q s)))) = 1"
    and "length (scene (snd (setupScene e q s))) = c + l + 2"
    and "scene_inv (snd (setupScene e q s))"
proof -
  let ?s2 = "ambient_step (clearScene s)"
  let ?s3 = "populate e (qualitySettings q) ?s2"
  have e: "snd (setupScene e q s) = ?s3" using known by (rule setupScene_alt)
  note a = ambient_step_result [OF inv]
  obtain amb where amb: "lights ?s2 = [amb]" "light_type amb = AmbientLight"
    "scene ?s2 = [light_id amb]" "light_id amb < nextId ?s2"
    using a(4) by blast
  note r = populate_result [of e "qualitySettings q" ?s2, folded c_def p_def l_def]
  obtain ps where ps: "particleSystem ?s3 = Some ps" "points_id ps = nextId ?s2 + c"
    "length (positions ps) = p * 3" "length (velocities ps) = p * 3" "length (colors ps) = p * 3"
    using r(2) by blast
  have len_cubes: "length (map mesh_id (cubes ?s3)) = c" unfolding r(1) a(1) by simp
  show "length (cubes (snd (setupScene e q s))) = c" using len_cubes by (simp add: e)
  show "\<exists>ps. particleSystem (snd (setupScene e q s)) = Some ps
           \<and> length (positions ps) = p * 3 \<and> length (velocities ps) = p * 3
           \<and> length (colors ps) = p * 3"
    using ps by (simp add: e)
  show ex: "explosionParticles (snd (setupScene e q s)) = []" by (simp add: e r(3) a(3))
  have fa: "filter (\<lambda>x. light_type x = AmbientLight) (lights ?s3) = [amb]"
    unfolding r(5) amb(1) using amb(2) by simp
  show "length (filter (\<lambda>x. light_type x = AmbientLight) (lights (snd (setupScene e q s)))) = 1"
    by (simp add: e fa)
  have "length (map light_id (lights ?s3)) = 1 + l" unfolding r(4) amb(1) by simp
  then have ll: "length (lights ?s3) = 1 + l" by simp
  have "length (filter (\<lambda>x. light_type x = AmbientLight) (lights ?s3))
        + length (filter (\<lambda>x. light_type x \<noteq> AmbientLight) (lights ?s3)) = length (lights ?s3)"
    by (rule sum_length_filter_compl)
  then show "length (filter (\<lambda>x. light_type x \<noteq> AmbientLight) (lights (snd (setupScene e q s)))) = l"
    using ll by (simp add: e fa)
  show "length (scene (snd (setupScene e q s))) = c + l + 2"
    by (simp add: e r(6) amb(3))
  have tr: "tracked_ids ?s3 = [nextId ?s2..<nextId ?s2 + c] @ [nextId ?s2 + c]
        @ light_id amb # [nextId ?s2 + c + 1..<nextId ?s2 + c + 1 + l]"
    by (simp add: tracked_ids_def r(1,3,4) ps(1,2) a(1,3) amb(1))
  have sc: "scene ?s3 = light_id amb # [nextId ?s2..<nextId ?s2 + c + 1 + l]"
    by (simp add: r(6) amb(3))
  have s1: "set (tracked_ids ?s3) = insert (light_id amb) {nextId ?s2..<nextId ?s2 + c + 1 + l}"
    unfolding tr by auto
  have d1: "distinct (tracked_ids ?s3)" unfolding tr using amb(4) by auto
  have d2: "distinct (scene ?s3)" unfolding sc using amb(4) by auto
  have s2: "set (scene ?s3) = set (tracked_ids ?s3)" unfolding s1 unfolding sc by auto
  have b: "\<forall>i \<in> set (tracked_ids ?s3). i < nextId ?s3"
    unfolding s1 r(7) using amb(4) by auto
  have am: "length (filter (\<lambda>l. light_type l = AmbientLight) (lights ?s3)) \<le> 1"
    by (simp add: fa)
  show "scene_inv (snd (setupScene e q s))"
    unfolding e scene_inv_def by (intro conjI d2 d1 s2 b am)
qed

subsection \<open>The explosion pool\<close>

lemma cube_callback_pool:
  "length (explosionParticles (snd (cube_callback e t c s))) =
     (if math_random e (rngCalls s) < fl64 0.0001 \<and> length (explosionParticles s) < 5
      then length (explosionParticles s) + 1 else length (explosionParticles s))"
  by (simp add: cube_callback_def Let_def)

lemma createExplosionEffect_life:
  assumes "\<forall>x \<in> set (explosionParticles s). life x = 1"
  shows "\<forall>x \<in> set (explosionParticles (createExplosionEffect e p s)). life x = 1"
proof -
  obtain y where "explosionParticles (createExplosionEffect e p s) = explosionParticles s @ [y]"
    "life y = 1"
    using createExplosionEffect_pool [of e p s] by blast
  then show ?thesis using assms by simp
qed

lemma cube_callback_life:
  assumes "\<forall>x \<in> set (explosionParticles s). life x = 1"
  shows "\<forall>x \<in> set (explosionParticles (snd (cube_callback e t c s))). life x = 1"
proof -
  have "\<forall>x \<in> set (explosionParticles (s\<lparr>rngCalls := rngCalls s + 1\<rparr>)). life x = 1"
    using assms by simp
  from createExplosionEffect_life [OF this] show ?thesis
    using assms by (simp add: cube_callback_def Let_def)
qed

lemma forEach_cubes_cap:
  "length (explosionParticles s) \<le> 5 \<Longrightarrow>
   length (explosionParticles (snd (forEach_cubes e t cs s))) \<le> 5"
proof (induction cs arbitrary: s)
  case Nil
  then show ?case by simp
next
  case (Cons c cs)
  let ?s1 = "snd (cube_callback e t c s)"
  have "length (explosionParticles ?s1) \<le> 5"
    using Cons.prems by (simp add: cube_callback_pool)
  from Cons.IH [OF this] show ?case by (simp add: split_beta)
qed

lemma forEach_cubes_fill:
  assumes "\<forall>k. math_random e k < fl64 0.0001"
  shows "length (explosionParticles s) \<le> 5 \<Longrightarrow>
   length (explosionParticles (snd (forEach_cubes e t cs s)))
     = min 5 (length (explosionParticles s) + length cs)"
proof (induction cs arbitrary: s)
  case Nil
  then show ?case by simp
next
  case (Cons c cs)
  let ?s1 = "snd (cube_callback e t c s)"
  have l1: "length (explosionParticles ?s1) =
      (if length (explosionParticles s) < 5 then length (explosionParticles s) + 1
       else length (explosionParticles s))"
    using assms by (simp add: cube_callback_pool)
  then have "length (explosionParticles ?s1) \<le> 5" using Cons.prems by simp
  from Cons.IH [OF this] show ?case using l1 Cons.prems by (simp add: split_beta)
qed

lemma forEach_cubes_life:
  "\<forall>x \<in> set (explosionParticles s). life x = 1 \<Longrightarrow>
   \<forall>x \<in> set (explosionParticles (snd (forEach_cubes e t cs s))). life x = 1"
proof (induction cs arbitrary: s)
  case Nil
  then show ?case by simp
next
  case (Cons c cs)
  from Cons.IH [OF cube_callback_life [OF Cons.prems]] show ?case by (simp add: split_beta)
qed

lemma animate_cubes_pool:
  "explosionParticles (animate_cubes e t s) = explosionParticles (snd (forEach_cubes e t (cubes s) s))"
  by (simp add: animate_cubes_def split_beta)

lemma animate_scene_pool:
  "explosionParticles (animate_scene e t dt s) =
     map (explosion_step dt) (filter (\<lambda>x. \<not> dead dt x)
       (explosionParticles (snd (forEach_cubes e t (cubes s)
          (s\<lparr>scene_rotation := (scene_rotation s)
                     \<lparr>vy := vy (scene_rotation s) + 0.005,
                      vx := vx (scene_rotation s) + 0.002\<rparr>\<rparr>)))))"
  by (simp add: animate_scene_def updateExplosions_pool animate_cubes_pool)

lemma animate_scene_cap:
  "length (explosionParticles s) \<le> 5 \<Longrightarrow>
   length (explosionParticles (animate_scene e t dt s)) \<le> 5"
proof -
  assume a: "length (explosionParticles s) \<le> 5"
  let ?s0 = "s\<lparr>scene_rotation := (scene_rotation s)
                     \<lparr>vy := vy (scene_rotation s) + 0.005,
                      vx := vx (scene_rotation s) + 0.002\<rparr>\<rparr>"
  have h: "length (explosionParticles (snd (forEach_cubes e t (cubes s) ?s0))) \<le> 5"
    using a by (intro forEach_cubes_cap) simp
  have "length (filter (\<lambda>x. \<not> dead dt x)
       (explosionParticles (snd (forEach_cubes e t (cubes s) ?s0)))) \<le> 5"
    by (rule le_trans [OF length_filter_le h])
  then show ?thesis unfolding animate_scene_pool by simp
qed

lemma scripted_sequence_running:
  "running s \<Longrightarrow> scripted_sequence s =
     s\<lparr>timers := timers s @ [(0, ScriptedBurst), (1000, ScriptedBurst), (2000, ScriptedBurst)]\<rparr>"
  by (simp add: scripted_sequence_def for_loop_step for_loop_done numeral_3_eq_3)

lemma scripted_burst_running:
  "running s \<Longrightarrow>
   length (explosionParticles (scripted_burst e s)) = length (explosionParticles s) + 1"
  by (simp add: scripted_burst_def Let_def)

lemma scripted_burst_control [simp]: "control (scripted_burst e s) = control s"
  by (simp add: scripted_burst_def Let_def)

lemma scene_inv_init: "scene_inv (init q)"
  by (simp add: scene_inv_def tracked_ids_def)

lemma deltaTime_first [simp]: "deltaTime_of None t = 0"
  by (simp add: deltaTime_of_def)

lemma first_frame_pool:
  "length (explosionParticles (snd (startBenchmark env0 (init ''insane'')))) = 5"
proof -
  let ?s1 = "(init ''insane'')\<lparr>running := True, frameCount := 0, totalTime := 0,
                 startTime := performance_now env0 (clockCalls (init ''insane'')),
                 clockCalls := clockCalls (init ''insane'') + 1,
                 resultBox_display := False,
                 ui_display := False\<rparr>"
  let ?s2 = "snd (setupScene env0 ''insane'' ?s1)"
  let ?s3 = "?s2\<lparr>timers := timers ?s2 @ [(2000, ScriptedSequence)]\<rparr>"
  have inv: "scene_inv ?s1" by (simp add: scene_inv_def tracked_ids_def)
  have k: "qualitySettings ''insane'' \<noteq> Undefined" by simp
  note r = setupScene_result [OF inv k, of env0]
  have c: "length (cubes ?s2) = 2000" using r(1) by (simp add: insane_def)
  have p: "explosionParticles ?s2 = []" using r(3) .
  have e: "startBenchmark env0 (init ''insane'') = animate env0 ?s3"
    by (simp add: startBenchmark_alt Let_def)
  have run: "running ?s3" by simp
  have lt: "lastTime ?s3 = None" by simp
  let ?s4 = "?s3\<lparr>clockCalls := clockCalls ?s3 + 1,
                 lastTime := Some (performance_now env0 (clockCalls ?s3))\<rparr>"
  let ?s5 = "?s4\<lparr>scene_rotation := (scene_rotation ?s4)
                     \<lparr>vy := vy (scene_rotation ?s4) + 0.005,
                      vx := vx (scene_rotation ?s4) + 0.002\<rparr>\<rparr>"
  let ?pool = "explosionParticles (snd (forEach_cubes env0 0 (cubes ?s4) ?s5))"
  have b: "explosionParticles (snd (animate env0 ?s3)) = map (explosion_step 0) (filter (\<lambda>x. \<not> dead 0 x) ?pool)"
    unfolding animate_running_other(3) [OF run] before_shake_def lt
    by (simp add: animate_scene_pool)
  have len: "length ?pool = min 5 (length (explosionParticles ?s5) + length (cubes ?s4))"
    using p fl64_00001 by (intro forEach_cubes_fill) simp_all
  have life1: "\<forall>x \<in> set ?pool. life x = 1"
    using p by (intro forEach_cubes_life) simp
  then have "filter (\<lambda>x. \<not> dead 0 x) ?pool = ?pool"
    by (simp add: dead_def new_life_def)
  then show ?thesis
    unfolding e b using len c p by simp
qed

subsection \<open>The shake intensity along a run\<close>

lemma ambient_step_shake [simp]: "cameraShake (ambient_step s) = cameraShake s"
  by (simp add: ambient_step_def)

lemma setupScene_shake [simp]: "cameraShake (snd (setupScene e q s)) = cameraShake s"
  by (simp add: setupScene_def Let_def populate_result(8) clearScene_fields split: tier_entry.splits)

lemma before_shake_grows:
  "intensity (cameraShake s) \<le> intensity (cameraShake (before_shake e s))"
  "nextId (before_shake e s) = nextId s \<Longrightarrow> cameraShake (before_shake e s) = cameraShake s"
  using animate_scene_shake
      [of "s\<lparr>clockCalls := clockCalls s + 1, lastTime := Some (performance_now e (clockCalls s))\<rparr>"
        e "performance_now e (clockCalls s)"
        "deltaTime_of (lastTime s) (performance_now e (clockCalls s))"]
  by (simp_all add: before_shake_def)

lemma animate_positive:
  assumes "2 powr (- 1074) \<le> intensity (cameraShake s)"
  shows "2 powr (- 1074) \<le> intensity (cameraShake (snd (animate e s)))"
proof (cases "running s")
  case True
  have b: "2 powr (- 1074) \<le> intensity (cameraShake (before_shake e s))"
    using before_shake_grows(1) [of s e] assms by simp
  then have q: "0 < intensity (cameraShake (before_shake e s))" by (rule pow2_le_pos)
  show ?thesis
    using decay_positive [OF b]
    by (simp add: animate_running_other [OF True] animate_shake_positive [OF q])
next
  case False
  then show ?thesis using assms by (simp add: animate_idle)
qed

lemma startBenchmark_positive:
  "2 powr (- 1074) \<le> intensity (cameraShake s) \<Longrightarrow>
   2 powr (- 1074) \<le> intensity (cameraShake (snd (startBenchmark e s)))"
  by (simp add: startBenchmark_alt Let_def animate_positive)

lemma scripted_sequence_shake [simp]: "cameraShake (scripted_sequence s) = cameraShake s"
  by (simp add: scripted_sequence_def for_loop_preserve [where f = cameraShake])

lemma scripted_burst_shake [simp]: "cameraShake (scripted_burst e s) = cameraShake s"
  by (simp add: scripted_burst_def Let_def)

lemma dispatch_positive:
  "2 powr (- 1074) \<le> intensity (cameraShake s) \<Longrightarrow>
   2 powr (- 1074) \<le> intensity (cameraShake (dispatch e ev s))"
  by (cases ev)
     (simp_all add: dispatch_def startBenchmark_positive animate_positive run_callback_def
        keydown_def split: callback.splits)

lemma run_positive:
  "2 powr (- 1074) \<le> intensity (cameraShake s) \<Longrightarrow>
   2 powr (- 1074) \<le> intensity (cameraShake (run e evs s))"
proof (induction evs arbitrary: s)
  case Nil
  then show ?case by (simp add: run_def)
next
  case (Cons ev evs)
  have "run e (ev # evs) s = run e evs (dispatch e ev s)" by (simp add: run_def)
  then show ?case using Cons.IH [OF dispatch_positive [OF Cons.prems]] by simp
qed

lemma shake_frame:
  assumes "running s" and "2 powr (- 1074) \<le> intensity (cameraShake s)"
  shows "0 < intensity (cameraShake (before_shake e s))
    \<and> cameraShake (snd (animate e s)) =
        \<lparr>shake_x = fl64 (fl64 (math_random e (rngCalls (before_shake e s)) - 0.5)
                      * intensity (cameraShake (before_shake e s))),
         shake_y = fl64 (fl64 (math_random e (rngCalls (before_shake e s) + 1) - 0.5)
                      * intensity (cameraShake (before_shake e s))),
         intensity = fl64 (intensity (cameraShake (before_shake e s)) * fl64 0.95)\<rparr>
    \<and> (nextId (snd (animate e s)) = nextId s \<longrightarrow>
         intensity (cameraShake (snd (animate e s)))
           = fl64 (intensity (cameraShake s) * fl64 0.95)
         \<and> (fl64 (intensity (cameraShake s)) = intensity (cameraShake s) \<longrightarrow>
              intensity (cameraShake (snd (animate e s))) \<le> intensity (cameraShake s))
         \<and> (2 powr (- 1021) \<le> intensity (cameraShake s) \<longrightarrow>
              intensity (cameraShake (snd (animate e s))) < intensity (cameraShake s)))"
proof -
  let ?i = "intensity (cameraShake s)"
  have i: "0 < ?i" using assms(2) by (rule pow2_le_pos)
  have p: "0 < intensity (cameraShake (before_shake e s))"
    using before_shake_grows(1) [of s e] i by simp
  have "?i * fl64 0.95 \<le> ?i * 1"
    using i fl64_095(2) by (intro mult_left_mono) simp_all
  then have "fl64 (?i * fl64 0.95) \<le> fl64 ?i" by (intro fl64_mono) simp
  then have le: "fl64 ?i = ?i \<Longrightarrow> fl64 (?i * fl64 0.95) \<le> ?i" by simp
  show ?thesis
    using p before_shake_grows(2) [of e s] le decay_decreases [of ?i]
    by (simp add: animate_running_other [OF assms(1)] animate_shake_positive [OF p])
qed

lemma shaking_frame:
  "nextId (before_shake env_half shaking) = nextId shaking"
  "running shaking" "intensity (cameraShake shaking) = 1 / 2" "run e [] shaking = shaking"
  "intensity (cameraShake (before_shake env_half shaking)) = 1 / 2"
  by (simp_all add: before_shake_def animate_scene_def animate_cubes_def shaking_def run_def
        updateParticles_def updateExplosions_def animate_lights_def)

lemma faint_frame:
  "nextId (before_shake env_half faint) = nextId faint"
  "running faint" "intensity (cameraShake faint) = 9 * 2 powr (- 1074)"
  "intensity (cameraShake (before_shake env_half faint)) = 9 * 2 powr (- 1074)"
  by (simp_all add: before_shake_def animate_scene_def animate_cubes_def faint_def)

subsection \<open>The population after a start\<close>

lemma createExplosionEffect_population [simp]:
  "particleSystem (createExplosionEffect e p s) = particleSystem s"
  "lights (createExplosionEffect e p s) = lights s"
  by (simp_all add: createExplosionEffect_def split: prod.splits)

lemma cube_callback_population:
  "mesh_id (fst (cube_callback e t c s)) = mesh_id c"
  "particleSystem (snd (cube_callback e t c s)) = particleSystem s"
  "lights (snd (cube_callback e t c s)) = lights s"
  by (simp_all add: cube_callback_def Let_def)

lemma forEach_cubes_population:
  "map mesh_id (fst (forEach_cubes e t cs s)) = map mesh_id cs
   \<and> particleSystem (snd (forEach_cubes e t cs s)) = particleSystem s
   \<and> lights (snd (forEach_cubes e t cs s)) = lights s"
proof (induction cs arbitrary: s)
  case Nil
  then show ?case by simp
next
  case (Cons c cs)
  show ?case
    using Cons [of "snd (cube_callback e t c s)"] cube_callback_population [of e t c s]
    by (simp add: split_beta)
qed

lemma animate_cubes_population:
  "map mesh_id (cubes (animate_cubes e t s)) = map mesh_id (cubes s)"
  "particleSystem (animate_cubes e t s) = particleSystem s"
  "lights (animate_cubes e t s) = lights s"
  using forEach_cubes_population [of e t "cubes s" s]
  by (simp_all add: animate_cubes_def split_beta)

lemma light_callback_kind [simp]:
  "light_type (light_callback t l) = light_type l" "light_id (light_callback t l) = light_id l"
  by (simp_all add: light_callback_def Let_def split: option.splits)

lemma animate_lights_population:
  "particleSystem (animate_lights t s) = particleSystem s"
  "map light_type (lights (animate_lights t s)) = map light_type (lights s)"
  "map light_id (lights (animate_lights t s)) = map light_id (lights s)"
  by (simp_all add: animate_lights_def)

lemma updateParticles_population:
  "lights (updateParticles e dt s) = lights s"
  "particleSystem s = Some ps \<Longrightarrow>
   \<exists>ps'. particleSystem (updateParticles e dt s) = Some ps' \<and> points_id ps' = points_id ps
     \<and> velocities ps' = velocities ps \<and> length (positions ps') = length (positions ps)"
  by (simp_all add: updateParticles_def split_beta particles_loop_length split: option.splits)

lemma updateExplosions_loop_population:
  "particleSystem (updateExplosions_loop n dt s) = particleSystem s
   \<and> lights (updateExplosions_loop n dt s) = lights s"
  by (induction n arbitrary: s) (simp_all add: Let_def)

lemma updateExplosions_population [simp]:
  "particleSystem (updateExplosions dt s) = particleSystem s"
  "lights (updateExplosions dt s) = lights s"
  by (simp_all add: updateExplosions_def updateExplosions_loop_population)

lemma animate_tail_population [simp]:
  "cubes (animate_shake e s) = cubes s" "particleSystem (animate_shake e s) = particleSystem s"
  "lights (animate_shake e s) = lights s"
  "cubes (animate_camera t s) = cubes s" "particleSystem (animate_camera t s) = particleSystem s"
  "lights (animate_camera t s) = lights s"
  by (simp_all add: animate_shake_def animate_camera_def Let_def)

lemma animate_update_population:
  "map mesh_id (cubes (animate_update e t dt s)) = map mesh_id (cubes s)"
  "map light_type (lights (animate_update e t dt s)) = map light_type (lights s)"
  "particleSystem s = Some ps \<Longrightarrow>
   \<exists>ps'. particleSystem (animate_update e t dt s) = Some ps' \<and> points_id ps' = points_id ps
     \<and> velocities ps' = velocities ps \<and> length (positions ps') = length (positions ps)"
proof -
  let ?s0 = "s\<lparr>scene_rotation := (scene_rotation s)
                     \<lparr>vy := vy (scene_rotation s) + 0.005,
                      vx := vx (scene_rotation s) + 0.002\<rparr>\<rparr>"
  let ?s2 = "animate_lights t (animate_cubes e t ?s0)"
  show "map mesh_id (cubes (animate_update e t dt s)) = map mesh_id (cubes s)"
    by (simp add: animate_update_def animate_scene_def animate_cubes_population)
  show "map light_type (lights (animate_update e t dt s)) = map light_type (lights s)"
    by (simp add: animate_update_def animate_scene_def updateParticles_population
          animate_lights_population animate_cubes_population)
  assume "particleSystem s = Some ps"
  then have "particleSystem ?s2 = Some ps"
    by (simp add: animate_lights_population animate_cubes_population)
  from updateParticles_population(2) [OF this, of e dt]
  show "\<exists>ps'. particleSystem (animate_update e t dt s) = Some ps' \<and> points_id ps' = points_id ps
     \<and> velocities ps' = velocities ps \<and> length (positions ps') = length (positions ps)"
    by (simp add: animate_update_def animate_scene_def)
qed

text \<open>
  What \<^verbatim>\<open>setupScene\<close> leaves for a tier that is not undefined, from any state: new
  cubes and a new particle field (objects that did not exist before), no explosion, and
  as many point lights as the tier asks for.
\<close>

lemma ambient_step_lights:
  "\<forall>l \<in> set (lights (ambient_step (clearScene s))). light_type l = AmbientLight"
  "nextId s \<le> nextId (ambient_step (clearScene s))"
  by (auto simp: ambient_step_def clearScene_fields ambient_light_def)

lemma setupScene_population:
  fixes e q s
  assumes known: "qualitySettings q \<noteq> Undefined"
  defines "c \<equiv> bound (get_prop s_cubes (qualitySettings q))"
    and "p \<equiv> bound (get_prop s_particles (qualitySettings q))"
    and "l \<equiv> bound (get_prop s_lights (qualitySettings q))"
  shows "length (cubes (snd (setupScene e q s))) = c"
    and "\<forall>m \<in> set (cubes (snd (setupScene e q s))). nextId s \<le> mesh_id m"
    and "\<exists>ps. particleSystem (snd (setupScene e q s)) = Some ps \<and> nextId s \<le> points_id ps
           \<and> length (positions ps) = p * 3 \<and> length (velocities ps) = p * 3"
    and "explosionParticles (snd (setupScene e q s)) = []"
    and "length (filter (\<lambda>x. light_type x \<noteq> AmbientLight) (lights (snd (setupScene e q s)))) = l"
proof -
  let ?s2 = "ambient_step (clearScene s)"
  let ?s3 = "populate e (qualitySettings q) ?s2"
  have e: "snd (setupScene e q s) = ?s3" using known by (rule setupScene_alt)
  have c0: "cubes ?s2 = []" and x0: "explosionParticles ?s2 = []"
    by (simp_all add: ambient_step_def clearScene_fields)
  note r = populate_result [of e "qualitySettings q" ?s2, folded c_def p_def l_def]
  note a = ambient_step_lights [of s]
  have ids: "map mesh_id (cubes ?s3) = [nextId ?s2..<nextId ?s2 + c]"
    unfolding r(1) c0 by simp
  have "length (map mesh_id (cubes ?s3)) = c" unfolding ids by simp
  then show "length (cubes (snd (setupScene e q s))) = c" by (simp add: e)
  have "\<forall>i \<in> set (map mesh_id (cubes ?s3)). nextId s \<le> i"
    unfolding ids using a(2) by auto
  then show "\<forall>m \<in> set (cubes (snd (setupScene e q s))). nextId s \<le> mesh_id m"
    by (simp add: e)
  show "\<exists>ps. particleSystem (snd (setupScene e q s)) = Some ps \<and> nextId s \<le> points_id ps
           \<and> length (positions ps) = p * 3 \<and> length (velocities ps) = p * 3"
    using r(2) a(2) unfolding e by auto
  show "explosionParticles (snd (setupScene e q s)) = []" by (simp add: e r(3) x0)
  have "filter (\<lambda>x. light_type x = AmbientLight) (lights ?s2) = lights ?s2"
    using a(1) by simp
  then have fa: "length (filter (\<lambda>x. light_type x = AmbientLight) (lights ?s3)) = length (lights ?s2)"
    unfolding r(5) by simp
  have "length (map light_id (lights ?s3)) = length (lights ?s2) + l" unfolding r(4) by simp
  then have ll: "length (lights ?s3) = length (lights ?s2) + l" by simp
  have "length (filter (\<lambda>x. light_type x = AmbientLight) (lights ?s3))
        + length (filter (\<lambda>x. light_type x \<noteq> AmbientLight) (lights ?s3)) = length (lights ?s3)"
    by (rule sum_length_filter_compl)
  then show "length (filter (\<lambda>x. light_type x \<noteq> AmbientLight) (lights (snd (setupScene e q s)))) = l"
    using ll fa by (simp add: e)
qed

lemma filter_kind_cong:
  "map light_type xs = map light_type ys \<Longrightarrow>
   length (filter (\<lambda>x. light_type x \<noteq> AmbientLight) xs)
     = length (filter (\<lambda>x. light_type x \<noteq> AmbientLight) ys)"
proof -
  assume a: "map light_type xs = map light_type ys"
  have h: "\<And>zs. length (filter (\<lambda>x. light_type x \<noteq> AmbientLight) zs)
      = length (filter (\<lambda>k. k \<noteq> AmbientLight) (map light_type zs))"
    by (simp add: filter_map comp_def)
  show ?thesis by (simp only: h a)
qed

text \<open>Explosions that a frame adds are new objects.\<close>

lemma cube_callback_fresh:
  assumes "\<forall>x \<in> set (explosionParticles s). n \<le> points_id x" and "n \<le> nextId s"
  shows "(\<forall>x \<in> set (explosionParticles (snd (cube_callback e t c s))). n \<le> points_id x)
    \<and> n \<le> nextId (snd (cube_callback e t c s))"
proof -
  let ?s1 = "s\<lparr>rngCalls := rngCalls s + 1\<rparr>"
  obtain y where "explosionParticles (createExplosionEffect e (position (fst (cube_callback e t c s))) ?s1)
      = explosionParticles ?s1 @ [y]" "points_id y = nextId ?s1"
    using createExplosionEffect_pool [of e "position (fst (cube_callback e t c s))" ?s1] by blast
  then show ?thesis
    using assms by (auto simp: cube_callback_def Let_def)
qed

lemma forEach_cubes_fresh:
  "\<forall>x \<in> set (explosionParticles s). n \<le> points_id x \<Longrightarrow> n \<le> nextId s \<Longrightarrow>
   \<forall>x \<in> set (explosionParticles (snd (forEach_cubes e t cs s))). n \<le> points_id x"
proof (induction cs arbitrary: s)
  case Nil
  then show ?case by simp
next
  case (Cons c cs)
  note f = cube_callback_fresh [OF Cons.prems, of e t c]
  from Cons.IH [of "snd (cube_callback e t c s)"] f
  show ?case by (simp add: split_beta)
qed

lemma animate_update_fresh:
  assumes "explosionParticles s = []"
  shows "\<forall>x \<in> set (explosionParticles (animate_update e t dt s)). nextId s \<le> points_id x"
proof -
  let ?s0 = "s\<lparr>scene_rotation := (scene_rotation s)
                     \<lparr>vy := vy (scene_rotation s) + 0.005,
                      vx := vx (scene_rotation s) + 0.002\<rparr>\<rparr>"
  have "\<forall>x \<in> set (explosionParticles (snd (forEach_cubes e t (cubes s) ?s0))).
          nextId s \<le> points_id x"
    using assms by (intro forEach_cubes_fresh) simp_all
  then show ?thesis
    by (simp add: animate_update_def animate_scene_pool)
qed

text \<open>The population after \<^verbatim>\<open>startBenchmark\<close>, which runs the first frame itself.\<close>

lemma startBenchmark_population:
  fixes e s
  assumes known: "qualitySettings (qualitySelect s) \<noteq> Undefined"
    and clock: "elapsed (performance_now e (clockCalls s)) (performance_now e (clockCalls s + 1))
           < maxTime"
  defines "c \<equiv> bound (get_prop s_cubes (qualitySettings (qualitySelect s)))"
    and "p \<equiv> bound (get_prop s_particles (qualitySettings (qualitySelect s)))"
    and "l \<equiv> bound (get_prop s_lights (qualitySettings (qualitySelect s)))"
  shows "length (cubes (snd (startBenchmark e s))) = c"
    and "\<forall>m \<in> set (cubes (snd (startBenchmark e s))). nextId s \<le> mesh_id m"
    and "\<exists>ps. particleSystem (snd (startBenchmark e s)) = Some ps \<and> nextId s \<le> points_id ps
           \<and> length (positions ps) = p * 3 \<and> length (velocities ps) = p * 3"
    and "length (filter (\<lambda>x. light_type x \<noteq> AmbientLight) (lights (snd (startBenchmark e s)))) = l"
    and "\<forall>x \<in> set (explosionParticles (snd (startBenchmark e s))). nextId s \<le> points_id x"
proof -
  let ?s1 = "s\<lparr>running := True, frameCount := 0, totalTime := 0,
                 startTime := performance_now e (clockCalls s),
                 clockCalls := clockCalls s + 1,
                 resultBox_display := False,
                 ui_display := False\<rparr>"
  let ?s2 = "snd (setupScene e (qualitySelect s) ?s1)"
  let ?s3 = "?s2\<lparr>timers := timers ?s2 @ [(2000, ScriptedSequence)]\<rparr>"
  let ?t = "performance_now e (clockCalls ?s3)"
  let ?s4 = "?s3\<lparr>clockCalls := clockCalls ?s3 + 1, lastTime := Some ?t\<rparr>"
  let ?s5 = "animate_update e ?t (deltaTime_of (lastTime ?s3) ?t) ?s4"
  have eq: "startBenchmark e s = animate e ?s3"
    using known by (simp add: startBenchmark_alt Let_def)
  have run: "running ?s3" by simp
  have tm: "elapsed (startTime ?s3) (performance_now e (clockCalls ?s3)) < maxTime"
    using clock by simp
  have st: "cubes (snd (startBenchmark e s)) = cubes ?s5"
    "lights (snd (startBenchmark e s)) = lights ?s5"
    "particleSystem (snd (startBenchmark e s)) = particleSystem ?s5"
    "explosionParticles (snd (startBenchmark e s)) = explosionParticles ?s5"
    unfolding eq animate_continue [OF run tm] by simp_all
  note r = setupScene_population [where e = e and q = "qualitySelect s" and s = ?s1, OF known,
      folded c_def p_def l_def]
  note u = animate_update_population
      [where e = e and t = ?t and dt = "deltaTime_of (lastTime ?s3) ?t" and s = ?s4]
  have ids: "map mesh_id (cubes ?s5) = map mesh_id (cubes ?s2)" using u(1) by simp
  have "length (map mesh_id (cubes ?s5)) = c" unfolding ids using r(1) by simp
  then show "length (cubes (snd (startBenchmark e s))) = c" by (simp add: st)
  have "\<forall>i \<in> set (map mesh_id (cubes ?s5)). nextId s \<le> i"
    unfolding ids using r(2) by simp
  then show "\<forall>m \<in> set (cubes (snd (startBenchmark e s))). nextId s \<le> mesh_id m"
    by (simp add: st)
  obtain ps where ps: "particleSystem ?s2 = Some ps" "nextId s \<le> points_id ps"
    "length (positions ps) = p * 3" "length (velocities ps) = p * 3"
    using r(3) by auto
  have "particleSystem ?s4 = Some ps" using ps(1) by simp
  from u(3) [OF this] ps(2,3,4)
  show "\<exists>ps. particleSystem (snd (startBenchmark e s)) = Some ps \<and> nextId s \<le> points_id ps
           \<and> length (positions ps) = p * 3 \<and> length (velocities ps) = p * 3"
    unfolding st by auto
  have "map light_type (lights ?s5) = map light_type (lights ?s2)" using u(2) by simp
  from filter_kind_cong [OF this] r(5)
  show "length (filter (\<lambda>x. light_type x \<noteq> AmbientLight) (lights (snd (startBenchmark e s)))) = l"
    by (simp add: st)
  have n: "nextId s \<le> nextId ?s4"
    using ambient_step_lights(2) [of ?s1]
    by (simp add: setupScene_alt [OF known] populate_result(7))
  have "explosionParticles ?s4 = []" using r(4) by simp
  from animate_update_fresh [OF this, of e ?t "deltaTime_of (lastTime ?s3) ?t"] n
  show "\<forall>x \<in> set (explosionParticles (snd (startBenchmark e s))). nextId s \<le> points_id x"
    unfolding st by auto
qed

subsection \<open>The decay of the shake over many frames\<close>

text \<open>
  Frames of a run without cubes: nothing can create an explosion, so nothing triggers
  the shake again.
\<close>

lemma frames_simps [simp]:
  "frames e 0 s = s" "frames e (Suc n) s = snd (animate e (frames e n s))"
  by (simp_all add: frames_def)

lemma bare_frame:
  assumes "running s" and "cubes s = []" and "explosionParticles s = []"
    and "elapsed (startTime s) (performance_now e (clockCalls s)) < maxTime"
  shows "running (snd (animate e s))" and "cubes (snd (animate e s)) = []"
    and "explosionParticles (snd (animate e s)) = []"
    and "nextId (snd (animate e s)) = nextId s"
    and "startTime (snd (animate e s)) = startTime s"
proof -
  let ?t = "performance_now e (clockCalls s)"
  let ?s1 = "s\<lparr>clockCalls := clockCalls s + 1, lastTime := Some ?t\<rparr>"
  let ?u = "animate_update e ?t (deltaTime_of (lastTime s) ?t) ?s1"
  note a = animate_continue [OF assms(1,4)]
  show "running (snd (animate e s))" "startTime (snd (animate e s)) = startTime s"
    using assms(1) by (simp_all add: a)
  have "map mesh_id (cubes ?u) = map mesh_id (cubes ?s1)"
    by (rule animate_update_population(1))
  then show "cubes (snd (animate e s)) = []" using assms(2) by (simp add: a)
  show "explosionParticles (snd (animate e s)) = []"
    using assms(2,3) by (simp add: a animate_update_def animate_scene_pool)
  show "nextId (snd (animate e s)) = nextId s"
    using assms(2) by (simp add: a animate_update_def animate_scene_def animate_cubes_def)
qed

lemma bare_shake_frame:
  assumes "running s" and "cubes s = []" and "explosionParticles s = []"
    and "elapsed (startTime s) (performance_now e (clockCalls s)) < maxTime"
    and "2 powr (- 1074) \<le> intensity (cameraShake s)"
  shows "running (snd (animate e s))" and "cubes (snd (animate e s)) = []"
    and "explosionParticles (snd (animate e s)) = []"
    and "startTime (snd (animate e s)) = startTime s"
    and "2 powr (- 1074) \<le> intensity (cameraShake (snd (animate e s)))"
    and "nextId (snd (animate e s)) = nextId s"
    and "intensity (cameraShake (snd (animate e s)))
           = fl64 (intensity (cameraShake s) * fl64 0.95)"
proof -
  note b = bare_frame [OF assms(1-4)]
  show "running (snd (animate e s))" "cubes (snd (animate e s)) = []"
    "explosionParticles (snd (animate e s)) = []" "startTime (snd (animate e s)) = startTime s"
    "nextId (snd (animate e s)) = nextId s"
    by (rule b)+
  show "2 powr (- 1074) \<le> intensity (cameraShake (snd (animate e s)))"
    using assms(5) by (rule animate_positive)
  show "intensity (cameraShake (snd (animate e s))) = fl64 (intensity (cameraShake s) * fl64 0.95)"
    using shake_frame [OF assms(1,5), of e] b(4) by blast
qed

lemma shaking_frames:
  "running (frames env_half n shaking) \<and> cubes (frames env_half n shaking) = []
   \<and> explosionParticles (frames env_half n shaking) = []
   \<and> startTime (frames env_half n shaking) = 0
   \<and> 2 powr (- 1074) \<le> intensity (cameraShake (frames env_half n shaking))"
proof (induction n)
  case 0
  have "(2::real) powr (- 1074) \<le> 1 / 2" using pow2_le [of "- 1074" "- 1"] by simp
  then show ?case by (simp add: shaking_def)
next
  case (Suc n)
  let ?s = "frames env_half n shaking"
  have r: "running ?s" and c: "cubes ?s = []" "explosionParticles ?s = []"
    and st: "startTime ?s = 0" and p: "2 powr (- 1074) \<le> intensity (cameraShake ?s)"
    using Suc by simp_all
  have t: "elapsed (startTime ?s) (performance_now env_half (clockCalls ?s)) < maxTime"
    by (simp add: st maxTime_def)
  note b = bare_shake_frame [OF r c t p]
  show ?case
    unfolding frames_simps by (intro conjI b(1,2,3,5)) (simp add: b(4) st)
qed

lemma shaking_frames_step:
  "nextId (frames env_half (Suc n) shaking) = nextId (frames env_half n shaking)"
  "intensity (cameraShake (frames env_half (Suc n) shaking))
     = fl64 (intensity (cameraShake (frames env_half n shaking)) * fl64 0.95)"
proof -
  let ?s = "frames env_half n shaking"
  have r: "running ?s" and c: "cubes ?s = []" "explosionParticles ?s = []"
    and st: "startTime ?s = 0" and p: "2 powr (- 1074) \<le> intensity (cameraShake ?s)"
    using shaking_frames [of n] by simp_all
  have t: "elapsed (startTime ?s) (performance_now env_half (clockCalls ?s)) < maxTime"
    by (simp add: st maxTime_def)
  note b = bare_shake_frame [OF r c t p]
  show "nextId (frames env_half (Suc n) shaking) = nextId (frames env_half n shaking)"
    unfolding frames_simps by (rule b(6))
  show "intensity (cameraShake (frames env_half (Suc n) shaking))
     = fl64 (intensity (cameraShake (frames env_half n shaking)) * fl64 0.95)"
    unfolding frames_simps by (rule b(7))
qed

text \<open>The decay from the trigger value comes to rest.\<close>

lemma shaking_comes_to_rest:
  "\<exists>n. \<not> intensity (cameraShake (frames env_half (Suc (Suc n)) shaking))
           < intensity (cameraShake (frames env_half (Suc n) shaking))"
proof -
  define g where "g n = intensity (cameraShake (frames env_half (Suc n) shaking))" for n
  have "\<exists>k. g n = of_int k * 2 powr (- 1074)" for n
    unfolding g_def shaking_frames_step(2) [of n] by (rule fl64_grid)
  moreover have "2 powr (- 1074) \<le> g n" for n
    unfolding g_def using shaking_frames [of "Suc n"] by blast
  ultimately have "\<exists>n. \<not> g (Suc n) < g n" by (rule doubles_come_to_rest)
  then show ?thesis by (simp add: g_def)
qed

section \<open>The result classifier\<close>

text \<open>
  Claim C8. \<^verbatim>\<open>finishBenchmark\<close> computes the average as \<^verbatim>\<open>frameCount / totalTime\<close> and
  maps it through the ordered thresholds 55, 40, 25, 15 (each exceeded strictly), the
  lowest tier otherwise: for a known tier the report holds the result of that division
  and the label that the threshold table of the specification gives for it; and for a
  non-zero elapsed time the division gives the quotient of the two numbers, rounded to the
  nearest double (unless that overflows). At 1800 frames in 30 seconds the average is
  exactly 60 and the label is that of the first bucket.
\<close>

theorem finishBenchmark_classifies:
  assumes "qualitySettings (qualitySelect s) \<noteq> Undefined"
  shows "fst (finishBenchmark s) = None \<and>
         map_option avgFPS (resultBox_content (snd (finishBenchmark s)))
           = Some (js_div (real (frameCount s)) (totalTime s)) \<and>
         map_option performance (resultBox_content (snd (finishBenchmark s)))
           = Some (spec_bucket spec_thresholds (js_div (real (frameCount s)) (totalTime s))) \<and>
         (totalTime s \<noteq> 0 \<and> \<bar>fl64 (real (frameCount s) / totalTime s)\<bar> < 2 ^ 1024 \<longrightarrow>
            js_div (real (frameCount s)) (totalTime s)
              = Finite (fl64 (real (frameCount s) / totalTime s)))"
  using assms by (simp add: finishBenchmark_known classify_bucket js_div_finite)

theorem finishBenchmark_classifies_witness:
  "qualitySettings (qualitySelect ((init ''insane'')\<lparr>frameCount := 1800, totalTime := 30\<rparr>)) \<noteq> Undefined
   \<and> map_option avgFPS (resultBox_content
         (snd (finishBenchmark ((init ''insane'')\<lparr>frameCount := 1800, totalTime := 30\<rparr>))))
       = Some (Finite 60)
   \<and> map_option performance (resultBox_content
         (snd (finishBenchmark ((init ''insane'')\<lparr>frameCount := 1800, totalTime := 30\<rparr>))))
       = Some BEAST_MODE"
  using finishBenchmark_classifies [of "(init ''insane'')\<lparr>frameCount := 1800, totalTime := 30\<rparr>"]
  by (simp add: spec_thresholds_def js_div_60)

text \<open>
  The thresholds are tested on the rounded quotient: one frame in 0.01818181818181818 s
  is reported as 55 frames per second, which is not above 55.
\<close>

lemma finishBenchmark_rounded_quotient:
  "map_option avgFPS (resultBox_content (snd (finishBenchmark
       ((init ''insane'')\<lparr>frameCount := 1, totalTime := 2620276146833743 / 2 ^ 57\<rparr>))))
     = Some (Finite 55)
   \<and> map_option performance (resultBox_content (snd (finishBenchmark
       ((init ''insane'')\<lparr>frameCount := 1, totalTime := 2620276146833743 / 2 ^ 57\<rparr>))))
     = Some HIGH_END"
  using js_div_55 by (simp add: finishBenchmark_known classify_def)

lemma start_escape_env0:
  "control (run env0 [ClickStart, KeyDown ''Escape''] (init ''insane'')) =
     (1, 0, False, 0, Some 0, True,
      Some \<lparr>avgFPS = PosInfinity, performance = BEAST_MODE, report_emoji = Rocket,
            quality = ''insane'', report_cubes = Some 2000, report_particles = Some 20000,
            report_lights = Some 25, duration = 0\<rparr>,
      False, ''insane'', 1, [(2000, ScriptedSequence)])"
proof -
  let ?s1 = "snd (startBenchmark env0 (init ''insane''))"
  have k: "qualitySettings (qualitySelect (init ''insane'')) \<noteq> Undefined"
    by simp
  have t: "elapsed (performance_now env0 (clockCalls (init ''insane'')))
              (performance_now env0 (clockCalls (init ''insane'') + 1)) < maxTime"
    by (simp add: maxTime_def)
  have c: "control ?s1 =
      (1, 0, True, 0, Some 0, False, None, False, ''insane'', 1, [(2000, ScriptedSequence)])"
    using startBenchmark_known(2) [OF k t] by simp
  note f = control_eqD [OF c]
  have "run env0 [ClickStart, KeyDown ''Escape''] (init ''insane'') = snd (finishBenchmark ?s1)"
    using f(3) by (simp add: run_def dispatch_def keydown_def)
  then show ?thesis
    using f by (simp add: finishBenchmark_known control_def js_div_zero classify_def insane_def)
qed

text \<open>
  Claim C2 says that an elapsed time of zero or less gives a sentinel and that no NaN or
  infinite average reaches the report. The division of \<^verbatim>\<open>finishBenchmark\<close> has no guard:
  with no frame and no time the report holds NaN, and a run that is cancelled before the
  clock has moved (one frame counted, elapsed time 0) reports an infinite average in the
  top bucket.
\<close>

theorem finishBenchmark_zero_time_counterexample:
  "map_option avgFPS (resultBox_content (snd (finishBenchmark (init ''insane'')))) = Some NaN
   \<and> map_option avgFPS (resultBox_content
        (run env0 [ClickStart, KeyDown ''Escape''] (init ''insane''))) = Some PosInfinity
   \<and> map_option performance (resultBox_content
        (run env0 [ClickStart, KeyDown ''Escape''] (init ''insane''))) = Some BEAST_MODE"
  using control_eqD(7) [OF start_escape_env0]
  by (simp add: finishBenchmark_known js_div_zero)

text \<open>
  Claim C2 as amended: with an elapsed time of zero or less and a known tier,
  \<^verbatim>\<open>finishBenchmark\<close> raises no exception and writes the unguarded quotient into the
  report. For a negative time that is the rounded quotient, a finite number not above zero
  (or \<open>-Infinity\<close> where the quotient overflows), in the lowest bucket; for time zero it
  is NaN (lowest bucket) when no frame was counted and \<open>+Infinity\<close> (top bucket)
  otherwise.
\<close>

theorem finishBenchmark_degenerate_timing:
  assumes "qualitySettings (qualitySelect s) \<noteq> Undefined" and "totalTime s \<le> 0"
  shows "fst (finishBenchmark s) = None \<and>
         map_option avgFPS (resultBox_content (snd (finishBenchmark s)))
           = Some (if totalTime s < 0
                   then (if fl64 (real (frameCount s) / totalTime s) \<le> - (2 ^ 1024)
                         then NegInfinity
                         else Finite (fl64 (real (frameCount s) / totalTime s)))
                   else if frameCount s = 0 then NaN else PosInfinity) \<and>
         (totalTime s < 0 \<longrightarrow> fl64 (real (frameCount s) / totalTime s) \<le> 0) \<and>
         map_option performance (resultBox_content (snd (finishBenchmark s)))
           = Some (if totalTime s = 0 \<and> 0 < frameCount s then BEAST_MODE else TOASTER)"
proof (cases "totalTime s < 0")
  case True
  note d = js_div_negative [OF _ True, of "real (frameCount s)"]
  show ?thesis using True assms(1) d(1)
    by (simp add: finishBenchmark_known d(2) classify_def)
next
  case False
  then have "totalTime s = 0" using assms(2) by simp
  then show ?thesis using assms(1)
    by (simp add: finishBenchmark_known js_div_zero classify_def)
qed

theorem finishBenchmark_degenerate_timing_witness:
  "qualitySettings (qualitySelect ((init ''insane'')\<lparr>frameCount := 1\<rparr>)) \<noteq> Undefined
   \<and> totalTime ((init ''insane'')\<lparr>frameCount := 1\<rparr>) \<le> 0
   \<and> fst (finishBenchmark ((init ''insane'')\<lparr>frameCount := 1\<rparr>)) = None
   \<and> map_option avgFPS (resultBox_content
        (snd (finishBenchmark ((init ''insane'')\<lparr>frameCount := 1\<rparr>)))) = Some PosInfinity
   \<and> map_option performance (resultBox_content
        (snd (finishBenchmark ((init ''insane'')\<lparr>frameCount := 1\<rparr>)))) = Some BEAST_MODE"
  using finishBenchmark_degenerate_timing [of "(init ''insane'')\<lparr>frameCount := 1\<rparr>"]
  by simp

section \<open>Starting and cancelling a run\<close>

text \<open>
  Claim C3 says that a tier identifier that is not a key of the quality table is rejected
  and that the driver does not end up running. \<^verbatim>\<open>startBenchmark\<close> sets \<^verbatim>\<open>running\<close>
  before it looks the tier up: with the identifier \<^verbatim>\<open>low\<close> the \<^verbatim>\<open>TypeError\<close> of
  \<^verbatim>\<open>setupScene\<close> leaves the flag set. And with an identifier that the table object inherits
  (\<^verbatim>\<open>constructor\<close>) there is no error at all: the run starts on an empty scene.
\<close>

theorem unknown_tier_start_counterexample:
  "fst (startBenchmark env0 (init ''low'')) = Some TypeError
   \<and> running (snd (startBenchmark env0 (init ''low'')))
   \<and> fst (startBenchmark env0 (init ''constructor'')) = None
   \<and> running (snd (startBenchmark env0 (init ''constructor'')))
   \<and> pendingFrames (snd (startBenchmark env0 (init ''constructor''))) = 1"
proof -
  have u: "qualitySettings (qualitySelect (init ''low'')) = Undefined" by simp
  have k: "qualitySettings (qualitySelect (init ''constructor'')) \<noteq> Undefined" by simp
  have t: "elapsed (performance_now env0 (clockCalls (init ''constructor'')))
              (performance_now env0 (clockCalls (init ''constructor'') + 1)) < maxTime"
    by (simp add: maxTime_def)
  show ?thesis
    using startBenchmark_unknown(1) [OF u] control_eqD [OF startBenchmark_unknown(2) [OF u]]
      startBenchmark_known(1) [OF k t] control_eqD [OF startBenchmark_known(2) [OF k t]]
    by simp
qed

text \<open>
  Claim C3 as amended: when the lookup of the tier gives \<^verbatim>\<open>undefined\<close>,
  \<^verbatim>\<open>startBenchmark\<close> ends with a \<^verbatim>\<open>TypeError\<close> for its caller; no frame is requested or
  counted, no timer is set, no result is produced and the scene holds no cube, particle
  field or explosion. The \<^verbatim>\<open>running\<close> flag, set before the population, stays set.
\<close>

theorem unknown_tier_start_fails:
  assumes "qualitySettings (qualitySelect s) = Undefined"
  shows "fst (startBenchmark e s) = Some TypeError
    \<and> pendingFrames (snd (startBenchmark e s)) = pendingFrames s
    \<and> timers (snd (startBenchmark e s)) = timers s
    \<and> frameCount (snd (startBenchmark e s)) = 0
    \<and> totalTime (snd (startBenchmark e s)) = 0
    \<and> resultBox_content (snd (startBenchmark e s)) = resultBox_content s
    \<and> cubes (snd (startBenchmark e s)) = []
    \<and> particleSystem (snd (startBenchmark e s)) = None
    \<and> explosionParticles (snd (startBenchmark e s)) = []
    \<and> running (snd (startBenchmark e s))"
  using startBenchmark_unknown(1) [OF assms] control_eqD [OF startBenchmark_unknown(2) [OF assms]]
    setupScene_unknown_scene [OF assms]
  by (simp add: startBenchmark_alt Let_def assms)

theorem unknown_tier_start_fails_witness:
  "qualitySettings (qualitySelect (init ''low'')) = Undefined
   \<and> fst (startBenchmark env0 (init ''low'')) = Some TypeError
   \<and> pendingFrames (snd (startBenchmark env0 (init ''low''))) = 0
   \<and> timers (snd (startBenchmark env0 (init ''low''))) = []
   \<and> frameCount (snd (startBenchmark env0 (init ''low''))) = 0
   \<and> cubes (snd (startBenchmark env0 (init ''low''))) = []
   \<and> running (snd (startBenchmark env0 (init ''low'')))"
  using unknown_tier_start_fails [of "init ''low''" env0] by simp

text \<open>
  Claim C4 says that a start during a run is ignored or reported and that a second frame
  loop is never scheduled beside the first. \<^verbatim>\<open>startBenchmark\<close> has no test of
  \<^verbatim>\<open>running\<close>: a second click, delivered while the first run waits for its next frame,
  leaves two frame callbacks pending.
\<close>

theorem start_while_running_counterexample:
  "running (run env0 [ClickStart] (init ''insane''))
   \<and> pendingFrames (run env0 [ClickStart] (init ''insane'')) = 1
   \<and> running (run env0 [ClickStart, ClickStart] (init ''insane''))
   \<and> pendingFrames (run env0 [ClickStart, ClickStart] (init ''insane'')) = 2"
proof -
  have k: "qualitySettings (qualitySelect (init ''insane'')) \<noteq> Undefined"
    by simp
  have t: "elapsed (performance_now env0 (clockCalls (init ''insane'')))
              (performance_now env0 (clockCalls (init ''insane'') + 1)) < maxTime"
    by (simp add: maxTime_def)
  have "run env0 [ClickStart] (init ''insane'') = snd (startBenchmark env0 (init ''insane''))"
    by (simp add: run_def dispatch_def)
  then show ?thesis
    using control_eqD [OF startBenchmark_known(2) [OF k t]] control_eqD [OF start_twice_env0]
    by simp
qed

text \<open>
  Claim C4 as amended: \<^verbatim>\<open>startBenchmark\<close> called in a running state (known tier, the
  clock at the first frame less than 30 s past the new start reading) raises no error and
  restarts the run. The start time is the new clock reading and the scene is populated
  afresh: the cubes, the particle field and the explosions are objects that did not exist
  before the call, in the numbers of the tier (cubes, three slots per particle, point
  lights). The first frame of the new run is rendered at once: the frame count is 1, the
  elapsed time is the distance of the two readings, one more outer timer is set and one
  more frame is requested on top of those already pending.
\<close>

theorem start_while_running:
  assumes "running s" and "qualitySettings (qualitySelect s) \<noteq> Undefined"
    and "elapsed (performance_now e (clockCalls s)) (performance_now e (clockCalls s + 1))
           < maxTime"
  shows "fst (startBenchmark e s) = None
    \<and> running (snd (startBenchmark e s))
    \<and> frameCount (snd (startBenchmark e s)) = 1
    \<and> startTime (snd (startBenchmark e s)) = performance_now e (clockCalls s)
    \<and> totalTime (snd (startBenchmark e s))
        = elapsed (performance_now e (clockCalls s)) (performance_now e (clockCalls s + 1))
    \<and> pendingFrames (snd (startBenchmark e s)) = pendingFrames s + 1
    \<and> timers (snd (startBenchmark e s)) = timers s @ [(2000, ScriptedSequence)]
    \<and> length (cubes (snd (startBenchmark e s)))
        = bound (get_prop s_cubes (qualitySettings (qualitySelect s)))
    \<and> (\<forall>m \<in> set (cubes (snd (startBenchmark e s))). nextId s \<le> mesh_id m)
    \<and> (\<exists>ps. particleSystem (snd (startBenchmark e s)) = Some ps \<and> nextId s \<le> points_id ps
          \<and> length (positions ps) = bound (get_prop s_particles (qualitySettings (qualitySelect s))) * 3
          \<and> length (velocities ps) = bound (get_prop s_particles (qualitySettings (qualitySelect s))) * 3)
    \<and> length (filter (\<lambda>x. light_type x \<noteq> AmbientLight) (lights (snd (startBenchmark e s))))
        = bound (get_prop s_lights (qualitySettings (qualitySelect s)))
    \<and> (\<forall>x \<in> set (explosionParticles (snd (startBenchmark e s))). nextId s \<le> points_id x)"
proof -
  note c = control_eqD [OF startBenchmark_known(2) [OF assms(2,3)]]
  note p = startBenchmark_population [OF assms(2,3)]
  show ?thesis
    by (intro conjI startBenchmark_known(1) [OF assms(2,3)] c(1,2,4,10,11) p)
       (simp add: c(3))
qed

text \<open>A second click on start, after the first one from the loaded page.\<close>

theorem start_while_running_witness:
  "running (snd (startBenchmark env0 (init ''insane'')))
   \<and> qualitySettings (qualitySelect (snd (startBenchmark env0 (init ''insane'')))) \<noteq> Undefined
   \<and> fst (startBenchmark env0 (snd (startBenchmark env0 (init ''insane'')))) = None
   \<and> frameCount (snd (startBenchmark env0 (snd (startBenchmark env0 (init ''insane''))))) = 1
   \<and> pendingFrames (snd (startBenchmark env0 (snd (startBenchmark env0 (init ''insane''))))) = 2
   \<and> length (cubes (snd (startBenchmark env0 (snd (startBenchmark env0 (init ''insane'')))))) = 2000
   \<and> length (filter (\<lambda>x. light_type x \<noteq> AmbientLight)
         (lights (snd (startBenchmark env0 (snd (startBenchmark env0 (init ''insane''))))))) = 25"
proof -
  let ?s1 = "snd (startBenchmark env0 (init ''insane''))"
  have k: "qualitySettings (qualitySelect (init ''insane'')) \<noteq> Undefined"
    by simp
  have t: "elapsed (performance_now env0 (clockCalls (init ''insane'')))
              (performance_now env0 (clockCalls (init ''insane'') + 1)) < maxTime"
    by (simp add: maxTime_def)
  note f = control_eqD [OF startBenchmark_known(2) [OF k t]]
  have r: "running ?s1" and q: "qualitySelect ?s1 = ''insane''" and pf: "pendingFrames ?s1 = 1"
    using f by simp_all
  have k1: "qualitySettings (qualitySelect ?s1) \<noteq> Undefined" by (simp add: q)
  have t1: "elapsed (performance_now env0 (clockCalls ?s1))
              (performance_now env0 (clockCalls ?s1 + 1)) < maxTime"
    by (simp add: maxTime_def)
  show ?thesis
    using start_while_running [OF r k1 t1] r k1 pf by (simp add: q insane_def)
qed

text \<open>
  Claim C7 says that a cancel request received while running produces a report computed
  from the frames and the time accumulated so far. A start with an unknown tier
  (\<^verbatim>\<open>low\<close>) leaves the \<^verbatim>\<open>running\<close> flag set; the Escape key then calls
  \<^verbatim>\<open>finishBenchmark\<close>, which clears the flag and fails with a \<^verbatim>\<open>TypeError\<close> on
  \<^verbatim>\<open>settings.cubes\<close> before it writes the result box: no report is produced.
\<close>

theorem escape_unknown_tier_counterexample:
  "running (run env0 [ClickStart] (init ''low''))
   \<and> fst (keydown ''Escape'' (run env0 [ClickStart] (init ''low''))) = Some TypeError
   \<and> \<not> running (snd (keydown ''Escape'' (run env0 [ClickStart] (init ''low''))))
   \<and> resultBox_content (snd (keydown ''Escape'' (run env0 [ClickStart] (init ''low'')))) = None
   \<and> \<not> resultBox_display (snd (keydown ''Escape'' (run env0 [ClickStart] (init ''low''))))"
proof -
  let ?s1 = "snd (startBenchmark env0 (init ''low''))"
  have u: "qualitySettings (qualitySelect (init ''low'')) = Undefined" by simp
  note f = control_eqD [OF startBenchmark_unknown(2) [OF u, of env0]]
  have e: "run env0 [ClickStart] (init ''low'') = ?s1" by (simp add: run_def dispatch_def)
  have u1: "qualitySettings (qualitySelect ?s1) = Undefined" using f by simp
  show ?thesis
    unfolding e using f by (simp add: keydown_def finishBenchmark_unknown [OF u1])
qed

text \<open>
  Claim C7 as amended: the Escape key in a running state with a known tier (as in every
  run whose start succeeded) calls \<^verbatim>\<open>finishBenchmark\<close> at once: the state is no longer
  running, the frame count and the elapsed time stay as the last frame left them, and the
  report shown holds the result of their division and that elapsed time, not \<open>maxTime\<close>.
  A frame callback that was still pending then changes nothing.
\<close>

theorem escape_reports_accumulated:
  assumes "running s" and "qualitySettings (qualitySelect s) \<noteq> Undefined"
  shows "fst (keydown ''Escape'' s) = None
    \<and> \<not> running (snd (keydown ''Escape'' s))
    \<and> frameCount (snd (keydown ''Escape'' s)) = frameCount s
    \<and> totalTime (snd (keydown ''Escape'' s)) = totalTime s
    \<and> resultBox_display (snd (keydown ''Escape'' s))
    \<and> map_option avgFPS (resultBox_content (snd (keydown ''Escape'' s)))
         = Some (js_div (real (frameCount s)) (totalTime s))
    \<and> map_option duration (resultBox_content (snd (keydown ''Escape'' s))) = Some (totalTime s)
    \<and> snd (animate e (snd (keydown ''Escape'' s))) = snd (keydown ''Escape'' s)"
  using assms by (simp add: keydown_def finishBenchmark_known animate_idle)

theorem escape_reports_accumulated_witness:
  "running ((init ''insane'')\<lparr>running := True, frameCount := 10, totalTime := 1 / 4\<rparr>)
   \<and> qualitySettings (qualitySelect
         ((init ''insane'')\<lparr>running := True, frameCount := 10, totalTime := 1 / 4\<rparr>)) \<noteq> Undefined
   \<and> \<not> running (snd (keydown ''Escape''
         ((init ''insane'')\<lparr>running := True, frameCount := 10, totalTime := 1 / 4\<rparr>)))
   \<and> map_option avgFPS (resultBox_content (snd (keydown ''Escape''
         ((init ''insane'')\<lparr>running := True, frameCount := 10, totalTime := 1 / 4\<rparr>))))
       = Some (Finite 40)
   \<and> map_option duration (resultBox_content (snd (keydown ''Escape''
         ((init ''insane'')\<lparr>running := True, frameCount := 10, totalTime := 1 / 4\<rparr>))))
       = Some (1 / 4)"
proof -
  have "(40::real) < 2 ^ 1024" by simp
  then have "js_div 10 (1 / 4) = Finite 40" by (simp add: js_div_def)
  then show ?thesis
    using escape_reports_accumulated
      [of "(init ''insane'')\<lparr>running := True, frameCount := 10, totalTime := 1 / 4\<rparr>"]
    by simp
qed

text \<open>
  The cancellation scenario of the specification, from the loaded page: a click on start
  and nine further frames count ten frames; the elapsed time is the distance from the
  start reading of the clock to the reading of the tenth frame; Escape then reports the
  quotient of the two. The clock is assumed to stay within 30 s of its first reading.
\<close>

lemma cancel_after_ten_frames:
  assumes "\<forall>k. elapsed (performance_now e 0) (performance_now e k) < maxTime"
  shows "\<exists>k. frameCount (run e (ClickStart # replicate 9 AnimationFrame) (init ''insane'')) = 10
    \<and> running (run e (ClickStart # replicate 9 AnimationFrame) (init ''insane''))
    \<and> totalTime (run e (ClickStart # replicate 9 AnimationFrame) (init ''insane''))
         = elapsed (performance_now e 0) (performance_now e k)
    \<and> lastTime (run e (ClickStart # replicate 9 AnimationFrame) (init ''insane''))
         = Some (performance_now e k)
    \<and> \<not> running (run e (ClickStart # replicate 9 AnimationFrame @ [KeyDown ''Escape'']) (init ''insane''))
    \<and> map_option avgFPS (resultBox_content
         (run e (ClickStart # replicate 9 AnimationFrame @ [KeyDown ''Escape'']) (init ''insane'')))
         = Some (js_div 10 (elapsed (performance_now e 0) (performance_now e k)))
    \<and> map_option duration (resultBox_content
         (run e (ClickStart # replicate 9 AnimationFrame @ [KeyDown ''Escape'']) (init ''insane'')))
         = Some (elapsed (performance_now e 0) (performance_now e k))"
proof -
  let ?s = "run e (ClickStart # replicate 9 AnimationFrame) (init ''insane'')"
  have q: "qualitySettings ''insane'' \<noteq> Undefined" by simp
  obtain k where c: "control ?s =
           (9 + 1, elapsed (performance_now e 0) (performance_now e k), True,
            performance_now e 0, Some (performance_now e k), False, None, False, ''insane'', 1,
            [(2000, ScriptedSequence)])"
    using frames_control [OF q assms, of 9] by blast
  note f = control_eqD [OF c]
  have d: "run e (ClickStart # replicate 9 AnimationFrame @ [KeyDown ''Escape'']) (init ''insane'')
        = snd (keydown ''Escape'' ?s)"
    using run_snoc [of e "ClickStart # replicate 9 AnimationFrame" "KeyDown ''Escape''" "init ''insane''"]
    by (simp add: dispatch_def)
  have "qualitySettings (qualitySelect ?s) \<noteq> Undefined" using f by simp
  then show ?thesis
    unfolding d by (intro exI [of _ k]) (simp add: keydown_def finishBenchmark_known f)
qed

section \<open>Particles and explosions\<close>

text \<open>
  Claim C5. For every particle of the ambient field (slots \<open>3k\<close>, \<open>3k + 1\<close>, \<open>3k + 2\<close>)
  and every \<^verbatim>\<open>updateParticles(deltaTime)\<close>: the velocity array is unchanged, and if after
  the integration one component of the position, as its binary32 slot holds it, is further
  than 150 from the origin, all three components end within 25 of it (they are
  \<^verbatim>\<open>(Math.random() - 0.5) * 50\<close>, with \<^verbatim>\<open>Math.random()\<close> in \<open>[0, 1)\<close>); otherwise the
  position is the integrated one. This is \<open>slot_ok\<close>. The velocity array is as long as
  the position array, as \<^verbatim>\<open>createParticleSystem\<close> builds them.
\<close>

theorem updateParticles_wrap:
  assumes "rng_ok e" and "particleSystem s = Some ps"
    and "length (velocities ps) = length (positions ps)"
    and "3 * k + 2 < length (positions ps)"
  shows "\<exists>ps'. particleSystem (updateParticles e dt s) = Some ps'
           \<and> velocities ps' = velocities ps
           \<and> length (positions ps') = length (positions ps)
           \<and> slot_ok e dt (positions ps) (velocities ps) (3 * k) (positions ps')"
proof -
  let ?r = "for_loop 3 (length (positions ps)) (particle_body e dt (velocities ps)) 0
              (positions ps, colors ps, rngCalls s, clockCalls s)"
  have "slot_ok e dt (fst (positions ps, colors ps, rngCalls s, clockCalls s)) (velocities ps)
          (3 * k) (fst ?r)"
    using assms(4) by (intro particles_loop_slot [OF assms(1)]) simp_all
  moreover have "length (fst ?r) = length (positions ps)"
    by (simp add: particles_loop_length)
  ultimately show ?thesis
    using assms(2) by (simp add: updateParticles_def split_beta)
qed

text \<open>
  Two particles: one that leaves the range (from 149 with velocity 2) and is put back
  within 25 of the origin, and one on the boundary whose step of \<open>2 ^ -20\<close> is lost in the
  slot and that stays at 150.
\<close>

theorem updateParticles_wrap_witness:
  "rng_ok env_half
   \<and> particleSystem ((init ''insane'')\<lparr>particleSystem := Some drifting\<rparr>) = Some drifting
   \<and> length (velocities drifting) = length (positions drifting)
   \<and> 3 * 0 + 2 < length (positions drifting)
   \<and> \<bar>fround (fl64 (positions drifting ! 0 + fl64 (velocities drifting ! 0 * 1)))\<bar> > 150
   \<and> (\<exists>ps'. particleSystem (updateParticles env_half 1
                 ((init ''insane'')\<lparr>particleSystem := Some drifting\<rparr>)) = Some ps'
         \<and> velocities ps' = [2, 0, 0, 1, 1, 1]
         \<and> \<bar>positions ps' ! 0\<bar> \<le> 25 \<and> \<bar>positions ps' ! 1\<bar> \<le> 25 \<and> \<bar>positions ps' ! 2\<bar> \<le> 25)
   \<and> particleSystem ((init ''insane'')\<lparr>particleSystem := Some grazing\<rparr>) = Some grazing
   \<and> 3 * 0 + 2 < length (positions grazing)
   \<and> (\<exists>ps'. particleSystem (updateParticles env_half 1
                 ((init ''insane'')\<lparr>particleSystem := Some grazing\<rparr>)) = Some ps'
         \<and> velocities ps' = [1 / 2 ^ 20, 0, 0]
         \<and> positions ps' ! 0 = 150 \<and> positions ps' ! 1 = 0 \<and> positions ps' ! 2 = 0)"
  using updateParticles_wrap [of env_half "(init ''insane'')\<lparr>particleSystem := Some drifting\<rparr>" drifting 0 1]
    updateParticles_wrap [of env_half "(init ''insane'')\<lparr>particleSystem := Some grazing\<rparr>" grazing 0 1]
    store_absorbs
  by (auto simp add: rng_ok_env_half slot_ok_def drifting_def grazing_def numeral_2_eq_2)

text \<open>
  Claim C6 says that every update with a positive \<^verbatim>\<open>deltaTime\<close> strictly decreases the
  life of an explosion. The subtraction is a binary64 operation: with
  \<^verbatim>\<open>deltaTime = 2 ^ -60\<close> a life of 1 comes out as 1 again.
\<close>

theorem updateExplosions_life_counterexample:
  "(0::real) < 2 powr (- 60)
   \<and> map life (explosionParticles ((init ''insane'')\<lparr>explosionParticles := [spark 0 1], scene := [0]\<rparr>))
       = [1]
   \<and> map life (explosionParticles (updateExplosions (2 powr (- 60))
         ((init ''insane'')\<lparr>explosionParticles := [spark 0 1], scene := [0]\<rparr>))) = [1]"
  using new_life_values(3) by (simp add: updateExplosions_pool dead_def spark_def)

text \<open>
  Claim C6 as amended. An \<^verbatim>\<open>updateExplosions(deltaTime)\<close> replaces the life of every
  explosion of the pool by \<open>new_life\<close>, the double that \<^verbatim>\<open>life - deltaTime * 0.02\<close>
  evaluates to. An explosion whose new life is not above 0 is gone from the pool and from
  the scene and has been disposed; any other is still in the pool with the new life,
  which is positive. The new life is not larger than the old one when \<^verbatim>\<open>deltaTime\<close> is
  not negative (the old life being a double), and it is strictly smaller when
  \<^verbatim>\<open>deltaTime\<close> is at least \<open>2 ^ -47\<close> and the old life is in \<open>(0, 1]\<close>, where every life
  is. References are unique in the pool and among the children of the scene.
\<close>

theorem updateExplosions_life:
  assumes "distinct (map points_id (explosionParticles s))"
    and "distinct (scene s)" and "x \<in> set (explosionParticles s)"
  shows "if new_life dt (life x) \<le> 0
         then points_id x \<notin> points_id ` set (explosionParticles (updateExplosions dt s))
              \<and> points_id x \<notin> set (scene (updateExplosions dt s))
              \<and> points_id x \<in> set (disposed (updateExplosions dt s))
         else \<exists>x' \<in> set (explosionParticles (updateExplosions dt s)).
                points_id x' = points_id x \<and> life x' = new_life dt (life x) \<and> 0 < life x'
                \<and> (0 \<le> dt \<and> fl64 (life x) = life x \<longrightarrow> life x' \<le> life x)
                \<and> (2 powr (- 47) \<le> dt \<and> 0 < life x \<and> life x \<le> 1 \<longrightarrow> life x' < life x)"
proof (cases "dead dt x")
  case True
  have inj: "inj_on points_id (set (explosionParticles s))"
    using assms(1) by (simp add: distinct_map)
  have "points_id x \<notin> points_id ` {y \<in> set (explosionParticles s). \<not> dead dt y}"
  proof
    assume "points_id x \<in> points_id ` {y \<in> set (explosionParticles s). \<not> dead dt y}"
    then obtain y where y: "y \<in> set (explosionParticles s)" "\<not> dead dt y" "points_id y = points_id x"
      by auto
    then have "y = x" using inj assms(3) by (auto dest: inj_onD)
    then show False using y True by simp
  qed
  moreover have "points_id ` set (explosionParticles (updateExplosions dt s))
      = points_id ` {y \<in> set (explosionParticles s). \<not> dead dt y}"
    by (auto simp: updateExplosions_pool image_iff)
  ultimately show ?thesis
    using True assms(2,3)
    by (simp add: updateExplosions_scene updateExplosions_disposed) (auto simp: dead_def)
next
  case False
  then have "explosion_step dt x \<in> set (explosionParticles (updateExplosions dt s))"
    using assms(3) by (simp add: updateExplosions_pool)
  moreover have "0 \<le> dt \<Longrightarrow> fl64 (life x) = life x \<Longrightarrow> new_life dt (life x) \<le> life x"
    unfolding new_life_def by (rule life_never_increases)
  moreover have "2 powr (- 47) \<le> dt \<Longrightarrow> 0 < life x \<Longrightarrow> life x \<le> 1
      \<Longrightarrow> new_life dt (life x) < life x"
    unfolding new_life_def by (rule life_decreases)
  ultimately show ?thesis
    using False by (auto simp: dead_def intro!: bexI [of _ "explosion_step dt x"])
qed

text \<open>
  One update with \<^verbatim>\<open>deltaTime = 1\<close> of a pool of two: an explosion whose life is the
  double next to 0.02 ends (its new life is exactly 0), a fresh one goes on with less.
\<close>

theorem updateExplosions_life_witness:
  "distinct (map points_id [spark 0 1, spark 1 (fl64 0.02)]) \<and> distinct [0, 1::nat]
   \<and> new_life 1 (life (spark 1 (fl64 0.02))) \<le> 0
   \<and> 1 \<notin> points_id ` set (explosionParticles (updateExplosions 1
           ((init ''insane'')\<lparr>explosionParticles := [spark 0 1, spark 1 (fl64 0.02)], scene := [0, 1]\<rparr>)))
   \<and> 1 \<notin> set (scene (updateExplosions 1
           ((init ''insane'')\<lparr>explosionParticles := [spark 0 1, spark 1 (fl64 0.02)], scene := [0, 1]\<rparr>)))
   \<and> 1 \<in> set (disposed (updateExplosions 1
           ((init ''insane'')\<lparr>explosionParticles := [spark 0 1, spark 1 (fl64 0.02)], scene := [0, 1]\<rparr>)))
   \<and> \<not> new_life 1 (life (spark 0 1)) \<le> 0
   \<and> (\<exists>x' \<in> set (explosionParticles (updateExplosions 1
           ((init ''insane'')\<lparr>explosionParticles := [spark 0 1, spark 1 (fl64 0.02)], scene := [0, 1]\<rparr>))).
          points_id x' = 0 \<and> life x' = new_life 1 1 \<and> life x' < 1)"
proof -
  let ?s = "(init ''insane'')\<lparr>explosionParticles := [spark 0 1, spark 1 (fl64 0.02)], scene := [0, 1]\<rparr>"
  have p: "(2::real) powr (- 47) \<le> 1" using pow2_le [of "- 47" 0] by simp
  have d: "distinct (map points_id (explosionParticles ?s))" "distinct (scene ?s)"
    "spark 1 (fl64 0.02) \<in> set (explosionParticles ?s)" "spark 0 1 \<in> set (explosionParticles ?s)"
    by (simp_all add: spark_def)
  have n: "new_life 1 (fl64 0.02) \<le> 0" "\<not> new_life 1 1 \<le> 0"
    using new_life_values(1,2) by simp_all
  show ?thesis
    using updateExplosions_life [OF d(1,2,3), of 1] updateExplosions_life [OF d(1,2,4), of 1] n p
    by (auto simp: spark_def)
qed

section \<open>The camera shake\<close>

text \<open>
  Claim C10 says that after a trigger the shake intensity is strictly positive and, absent
  a re-trigger, strictly decreasing in every later frame. The product with 0.95 is a
  binary64 operation, and a double is a whole number of least units: in a run that starts
  at the trigger value 0.5 and creates no explosion, some frame does not make the
  intensity smaller. At nine times the least positive double (\<open>9 * 2 ^ -1074\<close>, about
  \<open>4.4e-323\<close>) the product rounds back to the same value, so a frame that creates no
  explosion leaves the intensity as it was.
\<close>

theorem shake_stalls_counterexample:
  "(\<exists>n. running (frames env_half (Suc n) shaking)
        \<and> 0 < intensity (cameraShake (frames env_half (Suc n) shaking))
        \<and> nextId (frames env_half (Suc (Suc n)) shaking) = nextId (frames env_half (Suc n) shaking)
        \<and> \<not> intensity (cameraShake (frames env_half (Suc (Suc n)) shaking))
              < intensity (cameraShake (frames env_half (Suc n) shaking)))
   \<and> running faint \<and> 0 < intensity (cameraShake faint)
   \<and> nextId (snd (animate env_half faint)) = nextId faint
   \<and> intensity (cameraShake (snd (animate env_half faint))) = intensity (cameraShake faint)"
proof -
  obtain n where n: "\<not> intensity (cameraShake (frames env_half (Suc (Suc n)) shaking))
           < intensity (cameraShake (frames env_half (Suc n) shaking))"
    using shaking_comes_to_rest by blast
  have "0 < intensity (cameraShake (frames env_half (Suc n) shaking))"
    using shaking_frames [of "Suc n"] pow2_le_pos by blast
  then have a: "\<exists>n. running (frames env_half (Suc n) shaking)
        \<and> 0 < intensity (cameraShake (frames env_half (Suc n) shaking))
        \<and> nextId (frames env_half (Suc (Suc n)) shaking) = nextId (frames env_half (Suc n) shaking)
        \<and> \<not> intensity (cameraShake (frames env_half (Suc (Suc n)) shaking))
              < intensity (cameraShake (frames env_half (Suc n) shaking))"
    using n shaking_frames [of "Suc n"] shaking_frames_step(1) [of "Suc n"] by blast
  have m: "nextId (snd (animate env_half faint)) = nextId faint"
    using animate_running_other(2) [OF faint_frame(2), of env_half] faint_frame(1) by simp
  have "(0::real) < 2 powr (- 1074)" by simp
  then have u: "2 powr (- 1074) \<le> intensity (cameraShake faint)"
    by (simp add: faint_frame(3))
  have "intensity (cameraShake (snd (animate env_half faint)))
      = fl64 (intensity (cameraShake faint) * fl64 0.95)"
    using shake_frame [OF faint_frame(2) u, of env_half] m by blast
  then have "running faint \<and> 0 < intensity (cameraShake faint)
     \<and> nextId (snd (animate env_half faint)) = nextId faint
     \<and> intensity (cameraShake (snd (animate env_half faint))) = intensity (cameraShake faint)"
    using m decay_stalls by (simp add: faint_frame)
  then show ?thesis using a by blast
qed

text \<open>
  Claim C10 as amended. Once the shake intensity is a positive double (at least
  \<open>2 ^ -1074\<close>; a trigger sets it to 0.5 or more) it stays one, whatever events follow
  (clicks, frames, timers, keys): the intensity is only ever multiplied by 0.95 or raised
  to at least 0.5, and the product never rounds to 0. So in every later frame of a run the
  test \<^verbatim>\<open>cameraShake.intensity > 0\<close> succeeds (the intensity is positive in
  \<open>before_shake\<close>), the branch draws the two random offsets and multiplies the intensity
  by 0.95. In a frame that creates no explosion (\<open>nextId\<close> unchanged: the only re-trigger
  is next to \<^verbatim>\<open>createExplosionEffect\<close> in the cube loop) the intensity after the frame is
  the rounded product; it is not larger than before (the intensity being a double), and
  it is strictly smaller as long as the intensity is at least \<open>2 ^ -1021\<close>.
\<close>

theorem shake_never_stops:
  assumes "2 powr (- 1074) \<le> intensity (cameraShake s)"
  shows "2 powr (- 1074) \<le> intensity (cameraShake (run e evs s))
    \<and> (running (run e evs s) \<longrightarrow>
         0 < intensity (cameraShake (before_shake e (run e evs s)))
         \<and> cameraShake (snd (animate e (run e evs s))) =
             \<lparr>shake_x = fl64 (fl64 (math_random e (rngCalls (before_shake e (run e evs s))) - 0.5)
                           * intensity (cameraShake (before_shake e (run e evs s)))),
              shake_y = fl64 (fl64 (math_random e (rngCalls (before_shake e (run e evs s)) + 1) - 0.5)
                           * intensity (cameraShake (before_shake e (run e evs s)))),
              intensity = fl64 (intensity (cameraShake (before_shake e (run e evs s))) * fl64 0.95)\<rparr>
         \<and> (nextId (snd (animate e (run e evs s))) = nextId (run e evs s) \<longrightarrow>
              intensity (cameraShake (snd (animate e (run e evs s))))
                = fl64 (intensity (cameraShake (run e evs s)) * fl64 0.95)
              \<and> (fl64 (intensity (cameraShake (run e evs s))) = intensity (cameraShake (run e evs s))
                   \<longrightarrow> intensity (cameraShake (snd (animate e (run e evs s))))
                         \<le> intensity (cameraShake (run e evs s)))
              \<and> (2 powr (- 1021) \<le> intensity (cameraShake (run e evs s))
                   \<longrightarrow> intensity (cameraShake (snd (animate e (run e evs s))))
                         < intensity (cameraShake (run e evs s)))))"
  using run_positive [OF assms, of e evs] shake_frame [of "run e evs s" e] by blast

theorem shake_never_stops_witness:
  "2 powr (- 1074) \<le> intensity (cameraShake shaking)
   \<and> running (run env_half [] shaking)
   \<and> nextId (snd (animate env_half (run env_half [] shaking))) = nextId (run env_half [] shaking)
   \<and> fl64 (intensity (cameraShake (run env_half [] shaking)))
         = intensity (cameraShake (run env_half [] shaking))
   \<and> 2 powr (- 1021) \<le> intensity (cameraShake (run env_half [] shaking))
   \<and> 0 < intensity (cameraShake (before_shake env_half (run env_half [] shaking)))
   \<and> intensity (cameraShake (snd (animate env_half (run env_half [] shaking))))
       = fl64 (1 / 2 * fl64 0.95)
   \<and> intensity (cameraShake (snd (animate env_half (run env_half [] shaking))))
       < intensity (cameraShake shaking)"
proof -
  have n: "nextId (snd (animate env_half shaking)) = nextId shaking"
    using animate_running_other(2) [OF shaking_frame(2), of env_half] shaking_frame(1) by simp
  have p: "(2::real) powr (- 1074) \<le> 1 / 2" "(2::real) powr (- 1021) \<le> 1 / 2"
    using pow2_le [of "- 1074" "- 1"] pow2_le [of "- 1021" "- 1"] by simp_all
  show ?thesis
    using shake_never_stops [of shaking env_half "[]"] n p
    by (simp add: shaking_frame)
qed

section \<open>Repeated population\<close>

text \<open>
  Claim C9. Two calls of \<^verbatim>\<open>setupScene\<close> in a row, from a state whose scene graph holds
  exactly the objects the program tracks: afterwards there are as many cubes as the second
  tier asks for, one particle field with three slots per particle of that tier in each
  array, no explosion, as many point lights as the tier asks for and one ambient light;
  the scene has exactly these children (cubes, lights, the particle field and the ambient
  light), nothing of the first call.
\<close>

theorem setupScene_twice:
  assumes "scene_inv s" and "qualitySettings q1 = Tier st1" and "qualitySettings q2 = Tier st2"
  shows "length (cubes (snd (setupScene e q2 (snd (setupScene e q1 s))))) = s_cubes st2
    \<and> (\<exists>ps. particleSystem (snd (setupScene e q2 (snd (setupScene e q1 s)))) = Some ps
          \<and> length (positions ps) = s_particles st2 * 3
          \<and> length (velocities ps) = s_particles st2 * 3
          \<and> length (colors ps) = s_particles st2 * 3)
    \<and> explosionParticles (snd (setupScene e q2 (snd (setupScene e q1 s)))) = []
    \<and> length (filter (\<lambda>x. light_type x \<noteq> AmbientLight)
         (lights (snd (setupScene e q2 (snd (setupScene e q1 s)))))) = s_lights st2
    \<and> length (filter (\<lambda>x. light_type x = AmbientLight)
         (lights (snd (setupScene e q2 (snd (setupScene e q1 s)))))) = 1
    \<and> length (scene (snd (setupScene e q2 (snd (setupScene e q1 s)))))
         = s_cubes st2 + s_lights st2 + 2
    \<and> scene_inv (snd (setupScene e q2 (snd (setupScene e q1 s))))"
proof -
  have k1: "qualitySettings q1 \<noteq> Undefined" and k2: "qualitySettings q2 \<noteq> Undefined"
    using assms(2,3) by simp_all
  have inv1: "scene_inv (snd (setupScene e q1 s))"
    by (rule setupScene_result(7) [OF assms(1) k1])
  note r = setupScene_result [OF inv1 k2, of e]
  show ?thesis
    using r by (simp add: assms(3))
qed

theorem setupScene_twice_witness:
  "scene_inv (init ''insane'') \<and> qualitySettings ''insane'' = Tier insane
   \<and> length (cubes (snd (setupScene env0 ''insane''
        (snd (setupScene env0 ''insane'' (init ''insane'')))))) = 2000
   \<and> length (filter (\<lambda>x. light_type x \<noteq> AmbientLight)
        (lights (snd (setupScene env0 ''insane''
          (snd (setupScene env0 ''insane'' (init ''insane''))))))) = 25
   \<and> length (scene (snd (setupScene env0 ''insane''
        (snd (setupScene env0 ''insane'' (init ''insane'')))))) = 2027"
  using setupScene_twice [of "init ''insane''" "''insane''" insane "''insane''" insane env0]
  by (simp add: scene_inv_init) (simp add: insane_def)

section \<open>The explosion pool\<close>

text \<open>
  The stochastic path of \<^verbatim>\<open>animate\<close> tests \<^verbatim>\<open>explosionParticles.length < 5\<close> before it
  spawns: a frame that starts with at most five explosions ends with at most five.
\<close>

lemma stochastic_spawns_keep_cap:
  "length (explosionParticles s) \<le> 5 \<Longrightarrow>
   length (explosionParticles (animate_scene e t dt s)) \<le> 5"
  by (rule animate_scene_cap)

text \<open>
  The scripted path does not test the length: the burst callback spawns whenever the run
  is on.
\<close>

lemma scripted_burst_spawns:
  "running s \<Longrightarrow>
   length (explosionParticles (scripted_burst e s)) = length (explosionParticles s) + 1"
  by (rule scripted_burst_running)

text \<open>
  Claim C1 says that the pool never holds more than five explosions, for every
  interleaving of scripted and stochastic spawns. It fails on a run from the loaded page
  in which every random draw is 0 and the two clock readings of the click are equal: the
  first frame, run by the click itself, fills the pool to five (the cap of the stochastic
  path); the outer timer then sets the three bursts, and the first burst makes the pool
  six.
\<close>

theorem scripted_burst_exceeds_cap:
  "length (explosionParticles (run env0 [ClickStart] (init ''insane''))) = 5
   \<and> length (explosionParticles (run env0 [ClickStart, Timeout 0, Timeout 0] (init ''insane''))) = 6"
proof -
  let ?s1 = "snd (startBenchmark env0 (init ''insane''))"
  have k: "qualitySettings (qualitySelect (init ''insane'')) \<noteq> Undefined"
    by simp
  have t: "elapsed (performance_now env0 (clockCalls (init ''insane'')))
              (performance_now env0 (clockCalls (init ''insane'') + 1)) < maxTime"
    by (simp add: maxTime_def)
  have c: "control ?s1 =
      (1, 0, True, 0, Some 0, False, None, False, ''insane'', 1, [(2000, ScriptedSequence)])"
    using startBenchmark_known(2) [OF k t] by simp
  note f = control_eqD [OF c]
  let ?s2 = "scripted_sequence (?s1\<lparr>timers := []\<rparr>)"
  have d1: "dispatch env0 (Timeout 0) ?s1 = ?s2"
    by (simp add: dispatch_def run_callback_def f)
  have s2: "?s2 = ?s1\<lparr>timers := [(0, ScriptedBurst), (1000, ScriptedBurst), (2000, ScriptedBurst)]\<rparr>"
    by (simp add: scripted_sequence_running f)
  let ?s3 = "scripted_burst env0 (?s1\<lparr>timers := [(1000, ScriptedBurst), (2000, ScriptedBurst)]\<rparr>)"
  have d2: "dispatch env0 (Timeout 0) ?s2 = ?s3"
    unfolding s2 by (simp add: dispatch_def run_callback_def)
  have "run env0 [ClickStart, Timeout 0, Timeout 0] (init ''insane'') = ?s3"
    using d1 d2 by (simp add: run_def) (simp add: dispatch_def)
  moreover have "length (explosionParticles ?s3) = 6"
    using first_frame_pool by (simp add: scripted_burst_running f)
  moreover have "run env0 [ClickStart] (init ''insane'') = ?s1"
    by (simp add: run_def dispatch_def)
  ultimately show ?thesis using first_frame_pool by simp
qed

end
